(* ===== verification/Prelude.thy ===== *)
theory Prelude
  imports Main "HOL-Library.Sublist"
begin

text \<open>
  Shared vocabulary of the development: the types the browser gives the forms (object URLs,
  files, blobs), the JavaScript primitives the components call on strings and arrays
  (\<open>||\<close> on strings, \<open>split\<close>, \<open>join\<close>, \<open>slice\<close>), and the generic lemmas on lists
  and options that the component proofs share. The named collection \<open>js_simps\<close> holds the
  evaluation rules of the JavaScript primitives, so that component proofs can say
  \<open>simp add: js_simps\<close>.
\<close>

named_theorems js_simps "evaluation rules of the modelled JavaScript primitives"

section \<open>Browser values\<close>

text \<open>
  An object URL (\<open>blob:...\<close>) is an opaque string minted by \<open>URL.createObjectURL\<close>; the
  model numbers them in allocation order. A blob's bytes, and a file's, are a string.
\<close>

type_synonym url = nat
type_synonym blob = string

record js_file =
  file_name :: string
  file_type :: string
  file_data :: blob

section \<open>JavaScript primitives on strings\<close>

text \<open>\<open>a || b\<close> on two strings: the empty string is falsy.\<close>

definition js_or :: "string \<Rightarrow> string \<Rightarrow> string" where
  "js_or a b = (if a = [] then b else a)"

text \<open>\<open>s.split(c)\<close> for a one-character separator: never the empty array.\<close>

fun split_on :: "char \<Rightarrow> string \<Rightarrow> string list" where
  "split_on c [] = [[]]"
| "split_on c (x # xs) =
     (if x = c then [] # split_on c xs
      else (case split_on c xs of [] \<Rightarrow> [[x]] | p # ps \<Rightarrow> (x # p) # ps))"

text \<open>\<open>parts.join(sep)\<close>.\<close>

fun join_with :: "string \<Rightarrow> string list \<Rightarrow> string" where
  "join_with sep [] = []"
| "join_with sep [p] = p"
| "join_with sep (p # q # ps) = p @ sep @ join_with sep (q # ps)"

text \<open>\<open>arr.slice(0, -1)\<close>: all but the last element, and \<open>[]\<close> on \<open>[]\<close>.\<close>

definition slice_but_last :: "'a list \<Rightarrow> 'a list" where
  "slice_but_last xs = take (length xs - 1) xs"

text \<open>
  The part of a string before the last occurrence of \<open>c\<close>, empty when there is none: the
  reference that the \<open>split\<close>/\<open>slice\<close>/\<open>join\<close> idiom of the forms is compared with.
\<close>

definition before_last :: "char \<Rightarrow> string \<Rightarrow> string" where
  "before_last c s = rev (drop 1 (dropWhile (\<lambda>x. x \<noteq> c) (rev s)))"

text \<open>
  \<open>s.replace(pat, rep)\<close> with a string pattern: only the first occurrence is replaced
  (the replacement here never contains \<open>$\<close>).
\<close>

fun replace_first :: "string \<Rightarrow> string \<Rightarrow> string \<Rightarrow> string" where
  "replace_first pat rep [] = (if pat = [] then rep else [])"
| "replace_first pat rep (x # xs) =
     (if take (length pat) (x # xs) = pat then rep @ drop (length pat) (x # xs)
      else x # replace_first pat rep xs)"

text \<open>\<open>toUpperCase\<close> on the ASCII letters, the only ones the forms upper-case.\<close>

definition ascii_upper :: "char \<Rightarrow> char" where
  "ascii_upper c =
     (let n = (of_char c :: nat) in if 97 \<le> n \<and> n \<le> 122 then char_of (n - 32) else c)"

section \<open>Lists\<close>

text \<open>Removing the \<open>i\<close>-th element: a settled promise leaves the set of pending ones.\<close>

definition remove_nth :: "nat \<Rightarrow> 'a list \<Rightarrow> 'a list" where
  "remove_nth i xs = take i xs @ drop (Suc i) xs"

text \<open>
  The static "How to" and "Key Features" sections of the conversion pages: the section
  title, the numbered steps and the features, each a heading and its paragraph.
\<close>

record guide =
  guide_title :: string
  guide_steps :: "(string \<times> string) list"
  guide_features_title :: string
  guide_features :: "(string \<times> string) list"

text \<open>
  A run of a form: a list of events, each applied when the UI lets the user fire it
  (\<open>en\<close>) and skipped otherwise. Every form's runs are instances.
\<close>

fun guarded_run :: "('e \<Rightarrow> 's \<Rightarrow> bool) \<Rightarrow> ('e \<Rightarrow> 's \<Rightarrow> 's) \<Rightarrow> 'e list \<Rightarrow> 's \<Rightarrow> 's" where
  "guarded_run en st [] c = c"
| "guarded_run en st (e # es) c = guarded_run en st es (if en e c then st e c else c)"

lemma length_remove_nth [simp]:
  "i < length xs \<Longrightarrow> length (remove_nth i xs) = length xs - 1"
  by (simp add: remove_nth_def)

lemma set_remove_nth_subset: "set (remove_nth i xs) \<subseteq> set xs"
  by (auto simp: remove_nth_def dest: in_set_takeD in_set_dropD)

lemma remove_nth_single [simp]: "remove_nth 0 [x] = []"
  by (simp add: remove_nth_def)

text \<open>A property closed under every enabled step (of the events \<open>Q\<close> allows) holds after a run.\<close>

lemma guarded_run_closed:
  assumes "\<And>e c. P c \<Longrightarrow> en e c \<Longrightarrow> Q e \<Longrightarrow> P (st e c)" "P c" "list_all Q es"
  shows "P (guarded_run en st es c)"
  using assms(2,3) by (induction es arbitrary: c) (auto intro: assms(1))

section \<open>Lemmas on the string primitives\<close>

lemma js_or_simps [simp, js_simps]:
  "js_or [] b = b" "js_or (x # xs) b = x # xs"
  by (simp_all add: js_or_def)

lemma split_on_not_Nil [simp]: "split_on c s \<noteq> []"
  by (induction s) (auto split: list.split)

lemma split_on_no_sep [js_simps]: "c \<notin> set s \<Longrightarrow> split_on c s = [s]"
  by (induction s) auto

lemma split_on_Cons_other:
  "x \<noteq> c \<Longrightarrow> split_on c (x # xs) = (x # hd (split_on c xs)) # tl (split_on c xs)"
  by (cases "split_on c xs") auto

lemma split_on_append_sep [js_simps]:
  "split_on c (xs @ c # ys) = split_on c xs @ split_on c ys"
proof (induction xs)
  case Nil
  then show ?case by simp
next
  case (Cons x xs)
  then show ?case
    by (cases "split_on c xs") (auto simp: split_on_Cons_other)
qed

lemma join_with_Cons_not_Nil:
  "ps \<noteq> [] \<Longrightarrow> join_with sep (p # ps) = p @ sep @ join_with sep ps"
  by (cases ps) auto

text \<open>Round trip: joining the parts of a split with the separator gives the string back.\<close>

lemma join_split_on: "join_with [c] (split_on c s) = s"
proof (induction s)
  case Nil
  then show ?case by simp
next
  case (Cons x xs)
  show ?case
  proof (cases "x = c")
    case True
    with Cons.IH show ?thesis by (simp add: join_with_Cons_not_Nil)
  next
    case False
    then obtain p ps where sp: "split_on c xs = p # ps"
      by (cases "split_on c xs") auto
    with Cons.IH have "join_with [c] (p # ps) = xs" by simp
    with False sp show ?thesis by (cases ps) auto
  qed
qed

text \<open>
  Equivalence of the idiom \<open>s.split(c).slice(0, -1).join(c)\<close> with its reference: everything
  before the last separator.
\<close>

lemma join_slice_split_on: "join_with [c] (slice_but_last (split_on c s)) = before_last c s"
proof (cases "c \<in> set s")
  case True
  then obtain p q where s: "s = p @ c # q" and q: "c \<notin> set q" by (metis split_list_last)
  have "split_on c s = split_on c p @ [q]" using q by (simp add: s split_on_append_sep split_on_no_sep)
  then have "join_with [c] (slice_but_last (split_on c s)) = p"
    by (simp add: join_split_on slice_but_last_def)
  moreover have "dropWhile (\<lambda>x. x \<noteq> c) (rev s) = c # rev p"
  proof -
    have "dropWhile (\<lambda>x. x \<noteq> c) (rev q @ c # rev p) = dropWhile (\<lambda>x. x \<noteq> c) (c # rev p)"
      by (rule dropWhile_append2) (use q in auto)
    then show ?thesis by (simp add: s)
  qed
  ultimately show ?thesis by (simp add: before_last_def)
next
  case False
  then have d: "dropWhile (\<lambda>x. x \<noteq> c) (rev s) = []" by (auto simp: dropWhile_eq_Nil_conv)
  show ?thesis unfolding before_last_def d using False by (simp add: split_on_no_sep slice_but_last_def)
qed

lemma take_prefix_sublist:
  assumes t: "take (length pat) (xs @ pat @ rest) = pat" and ne: "xs \<noteq> []"
  shows "sublist pat (xs @ butlast pat)"
proof (cases "length pat \<le> length xs")
  case True
  with t have "prefix pat xs" by (metis take_append take_is_prefix diff_is_0_eq take0 append_Nil2)
  then show ?thesis by (intro prefix_imp_sublist prefix_prefix)
next
  case False
  let ?m = "length pat - length xs"
  from False t have p: "pat = xs @ take ?m pat" by simp
  from False ne have "?m \<le> length (butlast pat)" by (cases xs) auto
  then have "take ?m pat = take ?m (butlast pat)" by (simp add: butlast_conv_take)
  with p have "prefix pat (xs @ butlast pat)"
    by (metis prefix_append take_is_prefix)
  then show ?thesis by (rule prefix_imp_sublist)
qed

text \<open>
  \<open>s.replace(pat, rep)\<close> with a string pattern replaces the first occurrence only, and
  leaves a string without one unchanged.
\<close>

lemma replace_first_first:
  assumes "pat \<noteq> []" "\<not> sublist pat (base @ butlast pat)"
  shows "replace_first pat rep (base @ pat @ rest) = base @ rep @ rest"
  using assms(2)
proof (induction base)
  case Nil
  from assms(1) obtain x xs where "pat @ rest = x # xs" by (cases pat) auto
  then show ?case by (metis append_Nil append_eq_conv_conj replace_first.simps(2))
next
  case (Cons b base)
  from Cons.prems have "take (length pat) ((b # base) @ pat @ rest) \<noteq> pat"
    using take_prefix_sublist by blast
  moreover from Cons.prems have "\<not> sublist pat (base @ butlast pat)"
    by (metis append_Cons sublist_Cons_right)
  ultimately show ?case using Cons.IH by simp
qed

lemma replace_first_absent:
  "\<not> sublist pat s \<Longrightarrow> replace_first pat rep s = s"
proof (induction s)
  case Nil
  then show ?case by auto
next
  case (Cons x xs)
  from Cons.prems have "take (length pat) (x # xs) \<noteq> pat" by (metis take_is_prefix prefix_imp_sublist)
  moreover from Cons.prems have "\<not> sublist pat xs" by (metis sublist_Cons_right)
  ultimately show ?case using Cons.IH by simp
qed

lemma slice_but_last_snoc [simp, js_simps]: "slice_but_last (xs @ [x]) = xs"
  by (simp add: slice_but_last_def)

lemma slice_but_last_single [simp, js_simps]: "slice_but_last [x] = []"
  by (simp add: slice_but_last_def)

end
