(* ===== verification/Session.thy ===== *)
theory Session
  imports Prelude
begin

text \<open>
  The conversion session of the specification (\<open>spec.md\<close>, section 4.3) as an abstract
  machine. The abstract states are the spec's \<open>SessionState\<close>; the labels its events;
  \<open>sess_step\<close> its transitions and \<open>sess_path\<close> the sequences of them. The spec lists
  \<open>submit\<close> only from \<open>Staged\<close> but requires every event to be defined from every
  reachable state; the rule \<open>resubmit\<close> is that completion for a session that holds its
  inputs after a result or a failure, which is what every form does.

  A form refines the machine through an abstraction of its state and the labels of its
  events. \<open>guarded_labels\<close> collects the labels of the events a \<open>guarded_run\<close>
  performs and \<open>guarded_ok\<close> says that each of them is one the simulation covers;
  \<open>guarded_run_sim\<close> lifts a one-step simulation to whole runs, as trace inclusion is
  derived from a step simulation in event-system developments.
\<close>

datatype sess_state = Idle | Staged | Submitting | Decoding | Ready | Failed

datatype sess_label = SelectInputs | Submit | RemoteSuccess | DecodeDone | RemoteFailure
  | DecodeFailure | Reset

inductive sess_step :: "sess_state \<Rightarrow> sess_label \<Rightarrow> sess_state \<Rightarrow> bool" where
  select: "sess_step a SelectInputs Staged"
| submit: "sess_step Staged Submit Submitting"
| resubmit: "a \<in> {Ready, Failed} \<Longrightarrow> sess_step a Submit Submitting"
| remote_success: "sess_step Submitting RemoteSuccess Decoding"
| decode_done: "sess_step Decoding DecodeDone Ready"
| remote_failure: "sess_step Submitting RemoteFailure Failed"
| decode_failure: "sess_step Decoding DecodeFailure Failed"
| reset: "a \<in> {Ready, Failed} \<Longrightarrow> sess_step a Reset Idle"

inductive sess_path :: "sess_state \<Rightarrow> sess_label list \<Rightarrow> sess_state \<Rightarrow> bool" where
  nil: "sess_path a [] a"
| cons: "sess_step a l b \<Longrightarrow> sess_path b ls c \<Longrightarrow> sess_path a (l # ls) c"

fun guarded_labels ::
  "('e \<Rightarrow> 's \<Rightarrow> bool) \<Rightarrow> ('e \<Rightarrow> 's \<Rightarrow> 's) \<Rightarrow> ('e \<Rightarrow> 'l list) \<Rightarrow> 'e list \<Rightarrow> 's \<Rightarrow> 'l list" where
  "guarded_labels en st lab [] c = []"
| "guarded_labels en st lab (e # es) c =
     (if en e c then lab e @ guarded_labels en st lab es (st e c) else guarded_labels en st lab es c)"

fun guarded_ok ::
  "('e \<Rightarrow> 's \<Rightarrow> bool) \<Rightarrow> ('e \<Rightarrow> 's \<Rightarrow> 's) \<Rightarrow> ('e \<Rightarrow> 's \<Rightarrow> bool) \<Rightarrow> 'e list \<Rightarrow> 's \<Rightarrow> bool" where
  "guarded_ok en st ok [] c = True"
| "guarded_ok en st ok (e # es) c =
     (if en e c then ok e c \<and> guarded_ok en st ok es (st e c) else guarded_ok en st ok es c)"

inductive_simps sess_step_simps: "sess_step a l b"
inductive_simps sess_path_Nil: "sess_path a [] b"
inductive_simps sess_path_Cons: "sess_path a (l # ls) b"

lemma sess_path_append:
  "sess_path a ls b \<Longrightarrow> sess_path b ms c \<Longrightarrow> sess_path a (ls @ ms) c"
  by (induction rule: sess_path.induct) (auto intro: sess_path.cons)

text \<open>A one-step simulation under an invariant \<open>R\<close> lifts to every run whose events it covers.\<close>

lemma guarded_run_sim:
  assumes sim: "\<And>c e. R c \<Longrightarrow> en e c \<Longrightarrow> ok e c \<Longrightarrow> R (st e c) \<and> sess_path (ab c) (lab e) (ab (st e c))"
  shows "R c \<Longrightarrow> guarded_ok en st ok es c \<Longrightarrow>
         sess_path (ab c) (guarded_labels en st lab es c) (ab (guarded_run en st es c))"
proof (induction es arbitrary: c)
  case Nil
  then show ?case by (simp add: sess_path.nil)
next
  case (Cons e es)
  show ?case
  proof (cases "en e c")
    case True
    with Cons.prems sim [of c e] have "R (st e c)" and p: "sess_path (ab c) (lab e) (ab (st e c))" by auto
    with Cons True show ?thesis by (auto intro: sess_path_append [OF p])
  next
    case False
    with Cons show ?thesis by simp
  qed
qed

end
