(* ===== verification/Object_URL.thy ===== *)
theory Object_URL
  imports Prelude
begin

text \<open>
  The browser's object-URL store, the resource ledger every form uses for its previews:
  \<open>URL.createObjectURL(blob)\<close> mints a fresh URL that resolves to the blob,
  \<open>URL.revokeObjectURL(url)\<close> makes it unresolvable (and is a no-op on a URL that is not
  live). The store is modelled as a map from live URLs to blobs, an allocation counter (a
  URL is never minted twice) and the log of every revocation the page made, in order, so
  that double revocation and use after revocation can be stated. The registry is
  well-formed when every live or revoked URL was minted and no revoked URL is live;
  every operation keeps it so, and no revoked URL ever resolves again.
\<close>

record 'b url_registry =
  url_store :: "url \<Rightarrow> 'b option"
  url_next :: nat
  url_revoked :: "url list"

definition empty_registry :: "'b url_registry" where
  "empty_registry = \<lparr>url_store = Map.empty, url_next = 0, url_revoked = []\<rparr>"

definition create_object_url :: "'b \<Rightarrow> 'b url_registry \<Rightarrow> url \<times> 'b url_registry" where
  "create_object_url b r =
     (url_next r, r\<lparr>url_store := (url_store r)(url_next r \<mapsto> b), url_next := Suc (url_next r)\<rparr>)"

definition revoke_object_url :: "url \<Rightarrow> 'b url_registry \<Rightarrow> 'b url_registry" where
  "revoke_object_url u r =
     r\<lparr>url_store := (url_store r)(u := None), url_revoked := url_revoked r @ [u]\<rparr>"

text \<open>\<open>if (u) URL.revokeObjectURL(u)\<close> on a state variable holding a URL or \<open>null\<close>.\<close>

primrec revoke_if_set :: "url option \<Rightarrow> 'b url_registry \<Rightarrow> 'b url_registry" where
  "revoke_if_set None r = r"
| "revoke_if_set (Some u) r = revoke_object_url u r"

text \<open>\<open>xs.forEach(x => URL.revokeObjectURL(x))\<close>, in array order.\<close>

definition revoke_each :: "url list \<Rightarrow> 'b url_registry \<Rightarrow> 'b url_registry" where
  "revoke_each us r = fold revoke_object_url us r"

definition live_urls :: "'b url_registry \<Rightarrow> url set" where
  "live_urls r = dom (url_store r)"

definition registry_wf :: "'b url_registry \<Rightarrow> bool" where
  "registry_wf r \<longleftrightarrow>
     live_urls r \<subseteq> {..<url_next r} \<and> set (url_revoked r) \<subseteq> {..<url_next r} \<and>
     set (url_revoked r) \<inter> live_urls r = {}"

text \<open>Sequences of ledger operations, for the statement over all call sequences.\<close>

datatype 'b registry_op = Create 'b | Revoke url | RevokeEach "url list"

fun apply_registry_op :: "'b url_registry \<Rightarrow> 'b registry_op \<Rightarrow> 'b url_registry" where
  "apply_registry_op r (Create b) = snd (create_object_url b r)"
| "apply_registry_op r (Revoke u) = revoke_object_url u r"
| "apply_registry_op r (RevokeEach us) = revoke_each us r"

text \<open>
  A page can only name a URL it was handed, so an operation sequence revokes only URLs minted
  before (object URLs carry a fresh UUID; a URL not yet minted cannot be written down).
\<close>

fun registry_ops_ok :: "'b url_registry \<Rightarrow> 'b registry_op list \<Rightarrow> bool" where
  "registry_ops_ok r [] = True"
| "registry_ops_ok r (op # ops) =
     ((case op of Create b \<Rightarrow> True | Revoke u \<Rightarrow> u < url_next r
        | RevokeEach us \<Rightarrow> (\<forall>u \<in> set us. u < url_next r))
      \<and> registry_ops_ok (apply_registry_op r op) ops)"

definition run_registry_ops :: "'b registry_op list \<Rightarrow> 'b url_registry \<Rightarrow> 'b url_registry" where
  "run_registry_ops ops r = foldl apply_registry_op r ops"

section \<open>Evaluation rules\<close>

lemma create_object_url_fst [simp]: "fst (create_object_url b r) = url_next r"
  by (simp add: create_object_url_def)

lemma create_object_url_case [simp]:
  "(case create_object_url b r of (u, r') \<Rightarrow> f u r') = f (url_next r) (snd (create_object_url b r))"
  by (simp add: create_object_url_def)

lemma create_object_url_snd [simp]:
  "url_store (snd (create_object_url b r)) = (url_store r)(url_next r \<mapsto> b)"
  "url_next (snd (create_object_url b r)) = Suc (url_next r)"
  "url_revoked (snd (create_object_url b r)) = url_revoked r"
  by (simp_all add: create_object_url_def)

lemma revoke_object_url_simps [simp]:
  "url_store (revoke_object_url u r) = (url_store r)(u := None)"
  "url_next (revoke_object_url u r) = url_next r"
  "url_revoked (revoke_object_url u r) = url_revoked r @ [u]"
  by (simp_all add: revoke_object_url_def)

lemma live_urls_create [simp]:
  "live_urls (snd (create_object_url b r)) = insert (url_next r) (live_urls r)"
  by (simp add: live_urls_def)

lemma live_urls_revoke [simp]:
  "live_urls (revoke_object_url u r) = live_urls r - {u}"
  by (simp add: live_urls_def)

lemma revoke_if_set_simps [simp]:
  "live_urls (revoke_if_set u r) = live_urls r - set_option u"
  "url_next (revoke_if_set u r) = url_next r"
  "url_revoked (revoke_if_set u r) = url_revoked r @ (case u of None \<Rightarrow> [] | Some v \<Rightarrow> [v])"
  by (cases u; simp)+

lemma url_store_revoke_if_set [simp]:
  "url_store (revoke_if_set u r) v = (if v \<in> set_option u then None else url_store r v)"
  by (cases u) auto

lemma revoke_each_simps [simp]:
  "live_urls (revoke_each us r) = live_urls r - set us"
  "url_next (revoke_each us r) = url_next r"
  "url_revoked (revoke_each us r) = url_revoked r @ us"
  by (induction us arbitrary: r) (auto simp: revoke_each_def)

lemma url_store_revoke_each:
  "url_store (revoke_each us r) u = (if u \<in> set us then None else url_store r u)"
  by (induction us arbitrary: r) (auto simp: revoke_each_def)

section \<open>Well-formedness\<close>

lemma empty_registry_simps [simp]:
  "live_urls empty_registry = {}" "url_next empty_registry = 0"
  "url_revoked empty_registry = []" "url_store empty_registry = Map.empty"
  by (simp_all add: empty_registry_def live_urls_def)

lemma registry_wf_empty [intro, simp]: "registry_wf empty_registry"
  by (simp add: registry_wf_def)

lemma registry_wf_create [intro]:
  "registry_wf r \<Longrightarrow> registry_wf (snd (create_object_url b r))"
  by (auto simp: registry_wf_def)

lemma registry_wf_revoke [intro]:
  "registry_wf r \<Longrightarrow> u < url_next r \<Longrightarrow> registry_wf (revoke_object_url u r)"
  by (auto simp: registry_wf_def)

lemma registry_wf_revoke_if_set [intro]:
  "registry_wf r \<Longrightarrow> set_option u \<subseteq> {..<url_next r} \<Longrightarrow> registry_wf (revoke_if_set u r)"
  by (cases u) auto

lemma registry_wf_revoke_each [intro]:
  "registry_wf r \<Longrightarrow> set us \<subseteq> {..<url_next r} \<Longrightarrow> registry_wf (revoke_each us r)"
  by (auto simp: registry_wf_def)

text \<open>A minted URL is fresh: neither live nor revoked before.\<close>

lemma create_object_url_fresh:
  "registry_wf r \<Longrightarrow> fst (create_object_url b r) \<notin> live_urls r \<union> set (url_revoked r)"
  by (auto simp: registry_wf_def)

lemma revoked_not_live: "registry_wf r \<Longrightarrow> u \<in> set (url_revoked r) \<Longrightarrow> url_store r u = None"
  by (auto simp: registry_wf_def live_urls_def)

lemma registry_wf_op:
  "registry_wf r \<Longrightarrow> registry_ops_ok r (op # ops) \<Longrightarrow> registry_wf (apply_registry_op r op)"
  by (cases op) (auto simp: subset_iff)

lemma registry_wf_run_ops:
  "registry_wf r \<Longrightarrow> registry_ops_ok r ops \<Longrightarrow> registry_wf (run_registry_ops ops r)"
proof (induction ops arbitrary: r)
  case Nil
  then show ?case by (simp add: run_registry_ops_def)
next
  case (Cons op ops)
  from Cons.prems have "registry_wf (apply_registry_op r op)" by (rule registry_wf_op)
  with Cons.prems Cons.IH show ?case by (simp add: run_registry_ops_def)
qed

text \<open>
  The ledger's safety: after any sequence of mint, revoke and revoke-each operations (on URLs
  the page was handed), no revoked URL resolves.
\<close>

lemma ledger_safety:
  "registry_ops_ok empty_registry ops \<Longrightarrow>
   u \<in> set (url_revoked (run_registry_ops ops empty_registry)) \<Longrightarrow>
   url_store (run_registry_ops ops empty_registry) u = None"
  by (rule revoked_not_live [OF registry_wf_run_ops [OF registry_wf_empty]])

end
