(* ===== verification/Effect_Hook.thy ===== *)
theory Effect_Hook
  imports Object_URL
begin

text \<open>
  React's \<open>useEffect(() => () => cleanup(deps), deps)\<close>, the only cleanup mechanism of
  the forms. After every render React compares the new dependency values with those the
  installed effect captured (\<open>Object.is\<close> on each; here equality of the captured values,
  with array identities made explicit where the component stores arrays). If any differs it
  runs the installed effect's cleanup on the values that effect captured and installs a new
  effect capturing the new values; otherwise nothing happens. On unmount the installed
  cleanup runs once. The cleanup is a parameter: each form passes its own body.

  The interface lemma \<open>effect_commit_live\<close> is what the forms' invariants use: if every
  live URL is captured by the installed effect or by the new dependencies, and the cleanup
  revokes exactly what its values name, then after the commit the installed effect captures
  the new dependencies and every live URL is one of theirs.
\<close>

definition effect_commit ::
  "('d \<Rightarrow> 'b url_registry \<Rightarrow> 'b url_registry) \<Rightarrow> 'd \<Rightarrow> 'd \<Rightarrow> 'b url_registry \<Rightarrow> 'd \<times> 'b url_registry"
where
  "effect_commit cleanup installed deps r =
     (if deps = installed then (installed, r) else (deps, cleanup installed r))"

lemma effect_commit_installs: "fst (effect_commit cleanup installed deps r) = deps"
  by (simp add: effect_commit_def)

lemma effect_commit_same [simp]: "effect_commit cleanup d d r = (d, r)"
  by (simp add: effect_commit_def)

lemma effect_commit_changed [simp]:
  "deps \<noteq> installed \<Longrightarrow> effect_commit cleanup installed deps r = (deps, cleanup installed r)"
  by (simp add: effect_commit_def)

lemma effect_commit_live:
  assumes cleanup: "\<And>d r. live_urls (cleanup d r) = live_urls r - U d"
    and live: "live_urls r \<subseteq> U installed \<union> U deps"
  shows "live_urls (snd (effect_commit cleanup installed deps r)) \<subseteq> U deps"
  using live by (auto simp: effect_commit_def cleanup)

lemma effect_commit_live_eq:
  assumes cleanup: "\<And>d r. live_urls (cleanup d r) = live_urls r - U d"
  shows "live_urls (snd (effect_commit cleanup installed deps r)) =
         (if deps = installed then live_urls r else live_urls r - U installed)"
  by (simp add: effect_commit_def cleanup)

lemma effect_commit_wf:
  assumes "\<And>d r. registry_wf r \<Longrightarrow> U d \<subseteq> {..<url_next r} \<Longrightarrow> registry_wf (cleanup d r)"
    and "registry_wf r" and "U installed \<subseteq> {..<url_next r}"
  shows "registry_wf (snd (effect_commit cleanup installed deps r))"
  using assms by (simp add: effect_commit_def)

lemma effect_commit_next:
  assumes "\<And>d r. url_next (cleanup d r) = url_next r"
  shows "url_next (snd (effect_commit cleanup installed deps r)) = url_next r"
  using assms by (simp add: effect_commit_def)

end
