(* ===== verification/Remote_Client.thy ===== *)
theory Remote_Client
  imports Prelude
begin

text \<open>
  The remote transform client as the three conversion forms write it:
  \<^verbatim>\<open>
  const response = await fetch(endpoint, {method: 'POST', body: formData});
  if (!response.ok) {
      const errorText = await response.text();
      throw new Error(errorText || DEFAULT);
  }
  const blob = await response.blob();
  \<close>
  inside a \<open>try\<close> whose \<open>catch (err)\<close> shows \<open>err.message\<close>. The environment's answer
  is a \<open>reply\<close>: the request fails in transit (\<open>fetch\<close> rejects), the server answers
  with a non-2xx status and a readable text body, reading the body rejects, or the server
  answers 2xx with a body. The client's classification \<open>fetch_result\<close> turns a reply into
  the message the form shows (\<open>Inl\<close>) or the result blob (\<open>Inr\<close>). There is no retry:
  one reply, one classification.
\<close>

datatype reply =
    NetworkError string
  | HttpError string
  | BodyError string
  | HttpOk blob

definition fetch_result :: "string \<Rightarrow> reply \<Rightarrow> string + blob" where
  "fetch_result dflt rep =
     (case rep of
        NetworkError msg \<Rightarrow> Inl msg
      | HttpError body \<Rightarrow> Inl (js_or body dflt)
      | BodyError msg \<Rightarrow> Inl msg
      | HttpOk b \<Rightarrow> Inr b)"

lemma fetch_result_simps [simp]:
  "fetch_result dflt (NetworkError msg) = Inl msg"
  "fetch_result dflt (HttpError body) = Inl (js_or body dflt)"
  "fetch_result dflt (BodyError msg) = Inl msg"
  "fetch_result dflt (HttpOk b) = Inr b"
  by (simp_all add: fetch_result_def)

lemma fetch_result_Inr_iff: "fetch_result dflt rep = Inr b \<longleftrightarrow> rep = HttpOk b"
  by (cases rep) auto



end
