(* ===== verification/Image_Converter.thy ===== *)
theory Image_Converter
  imports Effect_Hook Remote_Client
begin

text \<open>
  The single-image conversion form, \<open>src/my-tools-io/src/components/ImageConverter.jsx\<close>.
  Its React state (lines 6 to 13) is the record \<open>ic_state\<close>; two fields are the runtime's
  rather than the component's: \<open>ic_effect\<close>, the dependency values the installed cleanup
  effect (lines 16 to 21) captured, and \<open>ic_inflight\<close>, the submissions whose \<open>fetch\<close>
  has not settled, each with the file and target format its form data carried. The
  browser's object-URL store is the second half of a configuration \<open>ic_conf\<close>.

  Each handler is one function (\<open>handleFileChange\<close>, \<open>handleFormatChange\<close>, the
  synchronous part of \<open>handleSubmit\<close>, its continuation once \<open>fetch\<close> settles), followed
  by one render and effect commit (\<open>ic_commit\<close>): React 18 batches the state updates of one
  synchronous stretch of a handler into one render. The continuation after \<open>await\<close> reads
  no state, so the awaits inside it collapse into one event; it runs even after unmount, when
  React drops its state updates (\<open>ic_set\<close>) but \<open>URL.createObjectURL\<close> still runs.
  Which events the user can fire is the UI's guard \<open>ic_enabled\<close> (the submit button is
  disabled while loading or with no file, line 132); the reachable configurations are
  \<open>ic_reach\<close>, and \<open>ic_run\<close> runs a list of events, skipping disabled ones.
\<close>

record ic_state =
  ic_selected :: "js_file option"
  ic_preview :: "url option"
  ic_format :: string
  ic_converted :: "url option"
  ic_loading :: bool
  ic_error :: "string option"
  ic_effect :: "url option \<times> url option"
  ic_mounted :: bool
  ic_inflight :: "(js_file \<times> string) list"

type_synonym ic_conf = "ic_state \<times> blob url_registry"

definition ic_init :: ic_conf where
  "ic_init =
     (\<lparr>ic_selected = None, ic_preview = None, ic_format = ''jpeg'', ic_converted = None,
       ic_loading = False, ic_error = None, ic_effect = (None, None), ic_mounted = True,
       ic_inflight = []\<rparr>, empty_registry)"

section \<open>The cleanup effect\<close>

definition ic_deps :: "ic_state \<Rightarrow> url option \<times> url option" where
  "ic_deps s = (ic_preview s, ic_converted s)"

definition deps_urls :: "url option \<times> url option \<Rightarrow> url set" where
  "deps_urls d = set_option (fst d) \<union> set_option (snd d)"

text \<open>The cleanup's body, lines 18 and 19, on the values its effect captured.\<close>

definition ic_cleanup :: "url option \<times> url option \<Rightarrow> blob url_registry \<Rightarrow> blob url_registry" where
  "ic_cleanup d r = revoke_if_set (snd d) (revoke_if_set (fst d) r)"

fun ic_commit :: "ic_conf \<Rightarrow> ic_conf" where
  "ic_commit (s, r) =
     (if ic_mounted s then
        (case effect_commit ic_cleanup (ic_effect s) (ic_deps s) r of
           (d, r') \<Rightarrow> (s\<lparr>ic_effect := d\<rparr>, r'))
      else (s, r))"

text \<open>A state update of an unmounted component is dropped.\<close>

definition ic_set :: "(ic_state \<Rightarrow> ic_state) \<Rightarrow> ic_state \<Rightarrow> ic_state" where
  "ic_set f s = (if ic_mounted s then f s else s)"

section \<open>Handlers\<close>

fun ic_handle_file_change :: "js_file option \<Rightarrow> ic_conf \<Rightarrow> ic_conf" where
  "ic_handle_file_change None c = c"
| "ic_handle_file_change (Some f) (s, r) =
     (case create_object_url (file_data f) r of
        (u, r') \<Rightarrow>
          (s\<lparr>ic_selected := Some f, ic_preview := Some u, ic_converted := None,
             ic_error := None\<rparr>, r'))"

fun ic_handle_format_change :: "string \<Rightarrow> ic_conf \<Rightarrow> ic_conf" where
  "ic_handle_format_change v (s, r) = (s\<lparr>ic_format := v\<rparr>, r)"

fun ic_handle_submit :: "ic_conf \<Rightarrow> ic_conf" where
  "ic_handle_submit (s, r) =
     (case ic_selected s of
        None \<Rightarrow> (s\<lparr>ic_error := Some ''Please select an image file first.''\<rparr>, r)
      | Some f \<Rightarrow>
          (s\<lparr>ic_loading := True, ic_error := None, ic_converted := None,
             ic_inflight := ic_inflight s @ [(f, ic_format s)]\<rparr>, r))"

text \<open>The continuation of submission \<open>i\<close> when its \<open>fetch\<close> settles with \<open>rep\<close>.\<close>

fun ic_settle :: "nat \<Rightarrow> reply \<Rightarrow> ic_conf \<Rightarrow> ic_conf" where
  "ic_settle i rep (s, r) =
     (if i < length (ic_inflight s) then
        (let s1 = s\<lparr>ic_inflight := remove_nth i (ic_inflight s)\<rparr> in
         case fetch_result ''Image conversion failed.'' rep of
           Inl msg \<Rightarrow> (ic_set (\<lambda>t. t\<lparr>ic_error := Some msg, ic_loading := False\<rparr>) s1, r)
         | Inr b \<Rightarrow>
             (case create_object_url b r of
                (u, r') \<Rightarrow> (ic_set (\<lambda>t. t\<lparr>ic_converted := Some u, ic_loading := False\<rparr>) s1, r')))
      else (s, r))"

fun ic_unmount :: "ic_conf \<Rightarrow> ic_conf" where
  "ic_unmount (s, r) = (s\<lparr>ic_mounted := False\<rparr>, ic_cleanup (ic_effect s) r)"

section \<open>Events, runs and reachable configurations\<close>

datatype ic_event =
    IcFileChange "js_file option"
  | IcFormatChange string
  | IcSubmit
  | IcSettle nat reply
  | IcUnmount

text \<open>Lines 121 to 124: the values the format \<open><select>\<close> offers.\<close>

definition ic_formats :: "string list" where
  "ic_formats = [''jpeg'', ''png'', ''gif'', ''bmp'']"

text \<open>A \<open><select>\<close> reports only one of its options' values (lines 115 to 125).\<close>

fun ic_enabled :: "ic_event \<Rightarrow> ic_state \<Rightarrow> bool" where
  "ic_enabled (IcFileChange f) s = ic_mounted s"
| "ic_enabled (IcFormatChange v) s = (ic_mounted s \<and> v \<in> set ic_formats)"
| "ic_enabled IcSubmit s = (ic_mounted s \<and> \<not> ic_loading s \<and> ic_selected s \<noteq> None)"
| "ic_enabled (IcSettle i rep) s = (i < length (ic_inflight s))"
| "ic_enabled IcUnmount s = ic_mounted s"

fun ic_step :: "ic_event \<Rightarrow> ic_conf \<Rightarrow> ic_conf" where
  "ic_step (IcFileChange f) c = ic_commit (ic_handle_file_change f c)"
| "ic_step (IcFormatChange v) c = ic_commit (ic_handle_format_change v c)"
| "ic_step IcSubmit c = ic_commit (ic_handle_submit c)"
| "ic_step (IcSettle i rep) c = ic_commit (ic_settle i rep c)"
| "ic_step IcUnmount c = ic_unmount c"

inductive ic_reach :: "ic_conf \<Rightarrow> bool" where
  init: "ic_reach ic_init"
| step: "ic_reach c \<Longrightarrow> ic_enabled e (fst c) \<Longrightarrow> ic_reach (ic_step e c)"

abbreviation ic_run :: "ic_event list \<Rightarrow> ic_conf \<Rightarrow> ic_conf" where
  "ic_run \<equiv> guarded_run (\<lambda>e c. ic_enabled e (fst c)) ic_step"

section \<open>Download name\<close>

text \<open>\<open>getDownloadFileName\<close>, lines 80 to 84.\<close>

definition ic_download_name :: "ic_state \<Rightarrow> string" where
  "ic_download_name s =
     (case ic_selected s of
        None \<Rightarrow> ''converted_image.'' @ ic_format s
      | Some f \<Rightarrow>
          join_with ''.'' (slice_but_last (split_on CHR ''.'' (file_name f)))
            @ ''_converted.'' @ ic_format s)"


section \<open>The rendered view\<close>

text \<open>
  The dynamic part of the JSX, lines 128 to 185: the submit button, the error banner
  (rendered when \<open>error\<close> is truthy, so not for the empty string), the original preview,
  the children of the converted panel (three independent conditions, lines 168 to 174) and
  the download link. The static guide and feature sections are markup only.
\<close>

datatype ic_panel_item = IcProcessing | IcShowConverted url | IcPlaceholder

record ic_screen =
  iv_button_disabled :: bool
  iv_button_label :: string
  iv_error_banner :: "string option"
  iv_original :: "url option"
  iv_converted_title :: string
  iv_panel :: "ic_panel_item list"
  iv_download :: "(url \<times> string) option"

definition ic_view :: "ic_state \<Rightarrow> ic_screen" where
  "ic_view s =
     \<lparr>iv_button_disabled = (ic_loading s \<or> ic_selected s = None),
      iv_button_label = (if ic_loading s then ''Converting...'' else ''Convert Image''),
      iv_error_banner = (case ic_error s of Some e \<Rightarrow> if e = [] then None else Some e | None \<Rightarrow> None),
      iv_original = ic_preview s,
      iv_converted_title = ''Converted ('' @ map ascii_upper (ic_format s) @ '')'',
      iv_panel =
        (if ic_loading s then [IcProcessing] else [])
        @ (case ic_converted s of Some u \<Rightarrow> if \<not> ic_loading s then [IcShowConverted u] else []
           | None \<Rightarrow> [])
        @ (if \<not> ic_loading s \<and> ic_converted s = None then [IcPlaceholder] else []),
      iv_download = map_option (\<lambda>u. (u, ic_download_name s)) (ic_converted s)\<rparr>"

text \<open>Lines 187 to 271: the guide and feature sections, static content.\<close>

definition ic_guide :: guide where
  \<open>ic_guide =
     \<lparr>guide_title = ''How to Convert Images Free?'',
      guide_steps =
        [(''Upload'',
          ''Select the image you want to change, then add it to our converter for processing.''),
         (''Choose Format'',
          ''Our online converter turns your image into your chosen format in seconds.''),
         (''Download'',
          ''Download your converted file. All remaining files will be deleted from our servers.'')],
      guide_features_title = ''Key Features'',
      guide_features =
        [(''Multiple Formats'',
          ''Convert to and from the most popular image formats, including JPEG, PNG, GIF, and BMP.''),
         (''Instant Previews'',
          ''See a preview of your original image and the converted result side-by-side before you download.''),
         (''Transparency Handling'',
          ''Automatically adds a white background when converting from transparent formats like PNG.''),
         (''Secure & Private'',
          ''All conversions are done on our secure servers, and your files are never stored or shared.'')]\<rparr>\<close>


section \<open>The invariant\<close>

text \<open>
  \<open>ic_inv\<close> is what every reachable configuration satisfies: the URL store is
  well-formed and every URL the state holds was minted; while mounted, the installed
  effect captured the current preview and result, every live URL is one of them (nothing
  leaks), the loading flag is set exactly while a submission is in flight, there is at most
  one, no result is shown while loading, and the result URL the state holds is live. \<open>ic_pre\<close> is its form between a handler's
  state updates and the commit that follows them: the installed effect may still hold the
  previous values.
\<close>

definition ic_urls :: "ic_state \<Rightarrow> url set" where
  "ic_urls s = deps_urls (ic_deps s)"

definition ic_flow :: "ic_state \<Rightarrow> bool" where
  "ic_flow s \<longleftrightarrow>
     (ic_loading s \<longleftrightarrow> ic_inflight s \<noteq> []) \<and> length (ic_inflight s) \<le> 1 \<and>
     (ic_loading s \<longrightarrow> ic_converted s = None)"

fun ic_inv :: "ic_conf \<Rightarrow> bool" where
  "ic_inv (s, r) \<longleftrightarrow>
     registry_wf r \<and> ic_urls s \<subseteq> {..<url_next r} \<and>
     (ic_mounted s \<longrightarrow> ic_effect s = ic_deps s \<and> live_urls r \<subseteq> ic_urls s \<and> ic_flow s \<and>
        set_option (ic_converted s) \<subseteq> live_urls r)"

fun ic_pre :: "ic_conf \<Rightarrow> bool" where
  "ic_pre (s, r) \<longleftrightarrow>
     registry_wf r \<and> ic_urls s \<subseteq> {..<url_next r} \<and>
     (ic_mounted s \<longrightarrow> deps_urls (ic_effect s) \<subseteq> {..<url_next r} \<and>
        live_urls r \<subseteq> deps_urls (ic_effect s) \<union> ic_urls s \<and> ic_flow s \<and>
        (\<forall>u \<in> set_option (ic_converted s).
           u \<in> live_urls r \<and> (u \<in> deps_urls (ic_effect s) \<longrightarrow> ic_effect s = ic_deps s)))"

text \<open>A sample input for the witnesses below.\<close>

definition ic_demo_file :: js_file where
  "ic_demo_file = \<lparr>file_name = ''my.cat.png'', file_type = ''image/png'', file_data = ''PNG''\<rparr>"

definition ic_demo_other :: js_file where
  "ic_demo_other = \<lparr>file_name = ''dog.bmp'', file_type = ''image/bmp'', file_data = ''BMP''\<rparr>"

section \<open>Proofs of the invariant\<close>

lemma ic_cleanup_simps [simp]:
  "live_urls (ic_cleanup d r) = live_urls r - deps_urls d"
  "url_next (ic_cleanup d r) = url_next r"
  by (auto simp: ic_cleanup_def deps_urls_def)

lemma ic_cleanup_wf:
  "registry_wf r \<Longrightarrow> deps_urls d \<subseteq> {..<url_next r} \<Longrightarrow> registry_wf (ic_cleanup d r)"
  by (auto simp: ic_cleanup_def deps_urls_def)

lemma ic_inv_pre: "ic_inv c \<Longrightarrow> ic_pre c"
  by (cases c) (auto simp: ic_urls_def)

lemma ic_commit_inv: "ic_pre c \<Longrightarrow> ic_inv (ic_commit c)"
proof (cases c)
  case (Pair s r)
  assume pre: "ic_pre c"
  show ?thesis
  proof (cases "ic_mounted s")
    case True
    let ?e = "effect_commit ic_cleanup (ic_effect s) (ic_deps s) r"
    from pre Pair True have wf: "registry_wf (snd ?e)"
      by (auto intro: effect_commit_wf ic_cleanup_wf)
    from pre Pair True have live: "live_urls (snd ?e) \<subseteq> deps_urls (ic_deps s)"
      by (intro effect_commit_live) (auto simp: ic_urls_def)
    have nxt: "url_next (snd ?e) = url_next r"
      by (rule effect_commit_next) simp
    have fst: "fst ?e = ic_deps s" by (rule effect_commit_installs)
    have conv: "set_option (ic_converted s) \<subseteq> live_urls (snd ?e)"
      using pre Pair True effect_commit_live_eq [of ic_cleanup deps_urls] by auto
    from pre Pair True wf live nxt fst conv show ?thesis
      by (cases ?e) (simp add: ic_urls_def ic_deps_def ic_flow_def)
  next
    case False
    with pre Pair show ?thesis by simp
  qed
qed

lemma ic_file_change_pre:
  "ic_inv c \<Longrightarrow> ic_pre (ic_handle_file_change f c)"
proof (cases f)
  case None
  assume "ic_inv c"
  with None show ?thesis by (cases c) (auto simp: ic_urls_def)
next
  case (Some g)
  assume "ic_inv c"
  with Some show ?thesis
    by (cases c) (auto simp: ic_urls_def ic_deps_def deps_urls_def ic_flow_def)
qed

lemma ic_format_change_pre: "ic_inv c \<Longrightarrow> ic_pre (ic_handle_format_change v c)"
  by (cases c) (auto simp: ic_urls_def ic_deps_def deps_urls_def ic_flow_def)

lemma ic_submit_pre:
  "ic_inv c \<Longrightarrow> \<not> ic_loading (fst c) \<Longrightarrow> ic_pre (ic_handle_submit c)"
  by (cases c) (auto simp: ic_urls_def ic_deps_def deps_urls_def ic_flow_def split: option.split)

lemma ic_flow_settle:
  "ic_flow s \<Longrightarrow> i < length (ic_inflight s) \<Longrightarrow> remove_nth i (ic_inflight s) = []"
  by (cases "ic_inflight s") (auto simp: ic_flow_def remove_nth_def)

lemma ic_settle_pre: "ic_inv c \<Longrightarrow> ic_pre (ic_settle i rep c)"
proof (cases c)
  case (Pair s r)
  assume inv: "ic_inv c"
  show ?thesis
  proof (cases "i < length (ic_inflight s)")
    case True
    with inv Pair have "ic_mounted s \<Longrightarrow> remove_nth i (ic_inflight s) = []"
      by (auto intro: ic_flow_settle)
    with inv Pair True show ?thesis
      by (cases "fetch_result ''Image conversion failed.'' rep")
         (auto simp: ic_set_def ic_urls_def ic_deps_def deps_urls_def ic_flow_def Let_def)
  next
    case False
    from inv have "ic_pre c" by (rule ic_inv_pre)
    with Pair False show ?thesis by simp
  qed
qed

lemma ic_unmount_inv: "ic_inv c \<Longrightarrow> ic_mounted (fst c) \<Longrightarrow> ic_inv (ic_unmount c)"
  by (cases c) (auto simp: ic_urls_def ic_deps_def deps_urls_def intro!: ic_cleanup_wf)

lemma ic_step_inv: "ic_inv c \<Longrightarrow> ic_enabled e (fst c) \<Longrightarrow> ic_inv (ic_step e c)"
proof (cases e)
  case (IcFileChange f)
  assume "ic_inv c"
  with IcFileChange show ?thesis by (simp add: ic_commit_inv ic_file_change_pre)
next
  case (IcFormatChange v)
  assume "ic_inv c"
  with IcFormatChange show ?thesis by (simp add: ic_commit_inv ic_format_change_pre)
next
  case IcSubmit
  assume "ic_inv c" "ic_enabled e (fst c)"
  with IcSubmit show ?thesis by (simp add: ic_commit_inv ic_submit_pre)
next
  case (IcSettle i rep)
  assume "ic_inv c"
  with IcSettle show ?thesis by (simp add: ic_commit_inv ic_settle_pre)
next
  case IcUnmount
  assume "ic_inv c" "ic_enabled e (fst c)"
  with IcUnmount show ?thesis by (simp add: ic_unmount_inv)
qed

lemma ic_reach_inv: "ic_reach c \<Longrightarrow> ic_inv c"
proof (induction rule: ic_reach.induct)
  case init
  show ?case
    by (simp add: ic_init_def ic_urls_def ic_deps_def deps_urls_def ic_flow_def)
next
  case (step c e)
  from step.IH step.hyps(2) show ?case by (rule ic_step_inv)
qed

lemma ic_commit_format:
  "ic_format (fst (ic_commit c)) = ic_format (fst c)" "ic_inflight (fst (ic_commit c)) = ic_inflight (fst c)"
  "ic_format (fst (ic_handle_file_change fo c)) = ic_format (fst c)"
  "ic_inflight (fst (ic_handle_file_change fo c)) = ic_inflight (fst c)"
  by (cases fo; cases c; simp split: prod.split)+

lemma ic_step_formats:
  assumes "ic_format (fst c) \<in> set ic_formats" "\<forall>(f, fmt) \<in> set (ic_inflight (fst c)). fmt \<in> set ic_formats"
    and "ic_enabled e (fst c)"
  shows "ic_format (fst (ic_step e c)) \<in> set ic_formats \<and>
         (\<forall>(f, fmt) \<in> set (ic_inflight (fst (ic_step e c))). fmt \<in> set ic_formats)"
  using assms
  by (cases c; cases e rule: ic_event.exhaust)
     (auto simp: ic_commit_format ic_set_def Let_def split: option.split sum.split prod.split
           dest: set_remove_nth_subset [THEN subsetD])

lemma ic_reach_formats:
  "ic_reach c \<Longrightarrow> ic_format (fst c) \<in> set ic_formats \<and>
     (\<forall>(f, fmt) \<in> set (ic_inflight (fst c)). fmt \<in> set ic_formats)"
proof (induction rule: ic_reach.induct)
  case init
  then show ?case by (simp add: ic_init_def ic_formats_def)
next
  case (step c e)
  then show ?case using ic_step_formats [of c e] by blast
qed

lemma ic_reach_run: "ic_reach c \<Longrightarrow> ic_reach (ic_run es c)"
  by (rule guarded_run_closed [where Q = "\<lambda>_. True"]) (simp_all add: ic_reach.step list_all_iff)

lemma ic_run_idle:
  "\<not> ic_mounted (fst c) \<Longrightarrow> ic_inflight (fst c) = [] \<Longrightarrow> ic_run es c = c"
proof (induction es)
  case Nil
  then show ?case by simp
next
  case (Cons e es)
  then have "\<not> ic_enabled e (fst c)" by (cases e) auto
  with Cons show ?case by simp
qed

lemma ic_reach_invD:
  assumes "ic_reach (s, r)"
  shows "registry_wf r" "ic_urls s \<subseteq> {..<url_next r}"
    and "ic_mounted s \<Longrightarrow> ic_effect s = ic_deps s" "ic_mounted s \<Longrightarrow> live_urls r \<subseteq> ic_urls s"
    and "ic_mounted s \<Longrightarrow> ic_flow s" "ic_mounted s \<Longrightarrow> set_option (ic_converted s) \<subseteq> live_urls r"
  using ic_reach_inv [OF assms] by auto

text \<open>Runs of the demo inputs that the witnesses use.\<close>

lemma ic_demo_reach:
  "ic_reach (ic_run [IcFileChange (Some ic_demo_file)] ic_init)"
  "ic_reach (ic_run [IcFileChange (Some ic_demo_file), IcSubmit] ic_init)"
  "ic_reach (ic_run [IcFileChange (Some ic_demo_file), IcSubmit,
                     IcSettle 0 (HttpOk ''JPEG'')] ic_init)"
  "ic_reach (ic_run [IcFileChange (Some ic_demo_file), IcSubmit,
                     IcFileChange (Some ic_demo_other)] ic_init)"
  by (rule ic_reach_run [OF ic_reach.init])+

lemmas ic_eval = ic_init_def ic_deps_def ic_cleanup_def ic_set_def ic_demo_file_def
  ic_demo_other_def Let_def remove_nth_def

section \<open>Properties of the conversion session\<close>

text \<open>
  C1. No object URL leaks while the form is mounted: every live URL is the preview of the
  selected file or the converted image the state holds.
\<close>

theorem ic_no_leak_while_mounted:
  "ic_reach c \<Longrightarrow> ic_mounted (fst c) \<Longrightarrow>
   live_urls (snd c) \<subseteq> set_option (ic_preview (fst c)) \<union> set_option (ic_converted (fst c))"
  using ic_reach_invD(4) [of "fst c" "snd c"] by (simp add: ic_urls_def ic_deps_def deps_urls_def)

theorem ic_no_leak_while_mounted_witness:
  "ic_mounted (fst (ic_run [IcFileChange (Some ic_demo_file), IcSubmit,
                            IcSettle 0 (HttpOk ''JPEG'')] ic_init)) \<and>
   live_urls (snd (ic_run [IcFileChange (Some ic_demo_file), IcSubmit,
                           IcSettle 0 (HttpOk ''JPEG'')] ic_init)) \<subseteq> {0, 1}"
proof -
  let ?c = "ic_run [IcFileChange (Some ic_demo_file), IcSubmit, IcSettle 0 (HttpOk ''JPEG'')] ic_init"
  have m: "ic_mounted (fst ?c)" by (simp add: ic_eval)
  have p: "ic_preview (fst ?c) = Some 0" "ic_converted (fst ?c) = Some 1" by (simp_all add: ic_eval)
  show ?thesis using ic_no_leak_while_mounted [OF ic_demo_reach(3) m] m p by auto
qed

text \<open>
  C2. Tearing the form down releases every object URL: after unmount no URL the form minted
  is live.
\<close>

theorem ic_unmount_releases_all:
  "ic_reach c \<Longrightarrow> ic_mounted (fst c) \<Longrightarrow> live_urls (snd (ic_step IcUnmount c)) = {}"
  using ic_reach_invD(3,4) [of "fst c" "snd c"] by (cases c) (auto simp: ic_urls_def)

theorem ic_unmount_releases_all_witness:
  "ic_mounted (fst (ic_run [IcFileChange (Some ic_demo_file)] ic_init)) \<and>
   live_urls (snd (ic_step IcUnmount (ic_run [IcFileChange (Some ic_demo_file)] ic_init))) = {}"
proof -
  have m: "ic_mounted (fst (ic_run [IcFileChange (Some ic_demo_file)] ic_init))"
    by (simp add: ic_eval)
  show ?thesis using ic_unmount_releases_all [OF ic_demo_reach(1) m] m by simp
qed

text \<open>
  C3. A successful conversion revokes the preview of the selected file while the state
  still shows it: the effect's cleanup revokes both captured URLs whenever either changes,
  so the original image's URL is dead as soon as the converted one arrives.
\<close>

theorem ic_preview_revoked_on_success:
  assumes "ic_reach c" "ic_mounted (fst c)" "ic_preview (fst c) = Some p"
    and "i < length (ic_inflight (fst c))"
  shows "ic_preview (fst (ic_step (IcSettle i (HttpOk b)) c)) = Some p \<and>
         url_store (snd (ic_step (IcSettle i (HttpOk b)) c)) p = None \<and>
         p \<in> set (url_revoked (snd (ic_step (IcSettle i (HttpOk b)) c)))"
proof (cases c)
  case (Pair s r)
  from assms Pair have fl: "ic_flow s" and eff: "ic_effect s = ic_deps s"
    and urls: "ic_urls s \<subseteq> {..<url_next r}"
    using ic_reach_invD by auto
  from fl assms Pair have conv: "ic_converted s = None" by (auto simp: ic_flow_def)
  from urls assms Pair have "p < url_next r" by (auto simp: ic_urls_def ic_deps_def deps_urls_def)
  with assms Pair eff conv show ?thesis
    by (simp add: ic_set_def ic_deps_def ic_cleanup_def Let_def)
qed

theorem ic_preview_revoked_on_success_witness:
  "ic_mounted (fst (ic_run [IcFileChange (Some ic_demo_file), IcSubmit] ic_init)) \<and>
   ic_preview (fst (ic_run [IcFileChange (Some ic_demo_file), IcSubmit] ic_init)) = Some 0 \<and>
   0 < length (ic_inflight (fst (ic_run [IcFileChange (Some ic_demo_file), IcSubmit] ic_init))) \<and>
   url_store (snd (ic_step (IcSettle 0 (HttpOk ''JPEG''))
     (ic_run [IcFileChange (Some ic_demo_file), IcSubmit] ic_init))) 0 = None"
proof -
  let ?c = "ic_run [IcFileChange (Some ic_demo_file), IcSubmit] ic_init"
  have h: "ic_mounted (fst ?c)" "ic_preview (fst ?c) = Some 0" "0 < length (ic_inflight (fst ?c))"
    by (simp_all add: ic_eval)
  show ?thesis using ic_preview_revoked_on_success [OF ic_demo_reach(2) h, of "''JPEG''"] h
    by simp
qed

text \<open>
  C4. A response is shown even when the user has since chosen another file: nothing ties a
  settling request to the selection that started it, so the result of converting one file is
  displayed next to the preview of another.
\<close>

theorem ic_stale_result_shown:
  assumes "ic_reach c" "ic_mounted (fst c)" "ic_inflight (fst c) = [(a, fmt)]"
    and "ic_selected (fst c) = Some g"
  shows "ic_selected (fst (ic_step (IcSettle 0 (HttpOk x)) c)) = Some g \<and>
         (\<exists>u. ic_converted (fst (ic_step (IcSettle 0 (HttpOk x)) c)) = Some u \<and>
              url_store (snd (ic_step (IcSettle 0 (HttpOk x)) c)) u = Some x)"
proof (cases c)
  case (Pair s r)
  from assms Pair have eff: "ic_effect s = ic_deps s" and fl: "ic_flow s"
    using ic_reach_invD by auto
  from fl assms Pair have conv: "ic_converted s = None" by (auto simp: ic_flow_def)
  from assms Pair have "ic_urls s \<subseteq> {..<url_next r}" using ic_reach_invD by auto
  then have "url_next r \<notin> set_option (ic_preview s)"
    by (auto simp: ic_urls_def ic_deps_def deps_urls_def)
  with assms Pair eff conv show ?thesis
    by (simp add: ic_set_def ic_deps_def ic_cleanup_def Let_def remove_nth_def)
qed

theorem ic_stale_result_shown_witness:
  "ic_mounted (fst (ic_run [IcFileChange (Some ic_demo_file), IcSubmit,
                            IcFileChange (Some ic_demo_other)] ic_init)) \<and>
   ic_inflight (fst (ic_run [IcFileChange (Some ic_demo_file), IcSubmit,
                             IcFileChange (Some ic_demo_other)] ic_init)) = [(ic_demo_file, ''jpeg'')] \<and>
   ic_selected (fst (ic_run [IcFileChange (Some ic_demo_file), IcSubmit,
                             IcFileChange (Some ic_demo_other)] ic_init)) = Some ic_demo_other \<and>
   ic_demo_other \<noteq> ic_demo_file \<and>
   ic_selected (fst (ic_step (IcSettle 0 (HttpOk ''JPEG'')) (ic_run [IcFileChange (Some ic_demo_file),
      IcSubmit, IcFileChange (Some ic_demo_other)] ic_init))) = Some ic_demo_other \<and>
   ic_converted (fst (ic_step (IcSettle 0 (HttpOk ''JPEG'')) (ic_run [IcFileChange (Some ic_demo_file),
      IcSubmit, IcFileChange (Some ic_demo_other)] ic_init))) \<noteq> None"
proof -
  let ?c = "ic_run [IcFileChange (Some ic_demo_file), IcSubmit, IcFileChange (Some ic_demo_other)] ic_init"
  have h: "ic_mounted (fst ?c)" "ic_inflight (fst ?c) = [(ic_demo_file, ''jpeg'')]"
    "ic_selected (fst ?c) = Some ic_demo_other"
    by (simp_all add: ic_eval)
  have d: "ic_demo_other \<noteq> ic_demo_file" by (simp add: ic_eval)
  show ?thesis using ic_stale_result_shown [OF ic_demo_reach(4) h, of "''JPEG''"] h d by auto
qed

text \<open>
  C5. At most one conversion is in flight while the form is mounted, and the loading flag is
  set exactly while one is: the disabled submit button is the only guard, and it suffices.
\<close>

theorem ic_single_request_in_flight:
  "ic_reach c \<Longrightarrow> ic_mounted (fst c) \<Longrightarrow>
   length (ic_inflight (fst c)) \<le> 1 \<and> (ic_loading (fst c) \<longleftrightarrow> ic_inflight (fst c) \<noteq> [])"
  using ic_reach_invD(5) [of "fst c" "snd c"] by (simp add: ic_flow_def)

theorem ic_single_request_in_flight_witness:
  "ic_mounted (fst (ic_run [IcFileChange (Some ic_demo_file), IcSubmit] ic_init)) \<and>
   length (ic_inflight (fst (ic_run [IcFileChange (Some ic_demo_file), IcSubmit] ic_init))) = 1 \<and>
   ic_loading (fst (ic_run [IcFileChange (Some ic_demo_file), IcSubmit] ic_init))"
proof -
  let ?c = "ic_run [IcFileChange (Some ic_demo_file), IcSubmit] ic_init"
  have m: "ic_mounted (fst ?c)" by (simp add: ic_eval)
  have "length (ic_inflight (fst ?c)) \<le> 1 \<and> (ic_loading (fst ?c) \<longleftrightarrow> ic_inflight (fst ?c) \<noteq> [])"
    by (rule ic_single_request_in_flight [OF ic_demo_reach(2) m])
  then show ?thesis using m by (simp add: ic_eval)
qed

text \<open>While a conversion is loading no converted image is shown.\<close>

theorem ic_loading_hides_result:
  "ic_reach c \<Longrightarrow> ic_mounted (fst c) \<Longrightarrow> ic_loading (fst c) \<Longrightarrow> ic_converted (fst c) = None"
  using ic_reach_invD(5) [of "fst c" "snd c"] by (simp add: ic_flow_def)

theorem ic_loading_hides_result_witness:
  "ic_mounted (fst (ic_run [IcFileChange (Some ic_demo_file), IcSubmit] ic_init)) \<and>
   ic_loading (fst (ic_run [IcFileChange (Some ic_demo_file), IcSubmit] ic_init)) \<and>
   ic_converted (fst (ic_run [IcFileChange (Some ic_demo_file), IcSubmit] ic_init)) = None"
proof -
  let ?c = "ic_run [IcFileChange (Some ic_demo_file), IcSubmit] ic_init"
  have h: "ic_mounted (fst ?c)" "ic_loading (fst ?c)" by (simp_all add: ic_eval)
  show ?thesis using ic_loading_hides_result [OF ic_demo_reach(2) h] h by simp
qed

text \<open>
  C7. The preview URL is revoked twice: from every reachable state with a preview and a
  conversion in flight, the commit after a successful settle revokes the preview (C3), and
  the next file choice revokes it again, since the installed effect still captured it,
  together with the converted image.
\<close>

theorem ic_double_revocation:
  assumes "ic_reach (s, r)" "ic_mounted s" "ic_preview s = Some p" "i < length (ic_inflight s)"
    and "ic_step (IcSettle i (HttpOk b)) (s, r) = c"
  shows "url_revoked (snd c) = url_revoked r @ [p] \<and>
         url_revoked (snd (ic_step (IcFileChange (Some f)) c)) = url_revoked r @ [p, p, url_next r]"
proof -
  from assms have fl: "ic_flow s" and eff: "ic_effect s = ic_deps s"
    and urls: "ic_urls s \<subseteq> {..<url_next r}"
    using ic_reach_invD by auto
  from fl assms have conv: "ic_converted s = None" by (auto simp: ic_flow_def)
  from fl assms have rm: "remove_nth i (ic_inflight s) = []" by (intro ic_flow_settle)
  from urls assms have "p < url_next r" by (auto simp: ic_urls_def ic_deps_def deps_urls_def)
  with assms eff conv rm show ?thesis
    by (auto simp: ic_set_def ic_deps_def ic_cleanup_def Let_def)
qed

theorem ic_double_revocation_witness:
  "url_revoked (snd (ic_step (IcFileChange (Some ic_demo_other)) (ic_step (IcSettle 0 (HttpOk ''JPEG''))
     (ic_run [IcFileChange (Some ic_demo_file), IcSubmit] ic_init)))) = [0, 0, 1]"
proof -
  let ?c = "ic_run [IcFileChange (Some ic_demo_file), IcSubmit] ic_init"
  have h: "ic_mounted (fst ?c)" "ic_preview (fst ?c) = Some 0" "0 < length (ic_inflight (fst ?c))"
    by (simp_all add: ic_eval)
  have r: "ic_reach (fst ?c, snd ?c)" using ic_demo_reach(2) by simp
  have n: "url_revoked (snd ?c) = []" "url_next (snd ?c) = 1" by (simp_all add: ic_eval)
  from ic_double_revocation [OF r h refl, of "''JPEG''" ic_demo_other] n show ?thesis by simp
qed

text \<open>
  C8. Unmounting while a conversion is in flight leaks its result: from every reachable
  mounted state with a request in flight, the unmount's cleanup releases every URL, the
  continuation still runs and mints an object URL for the answer, and the component is then
  final (unmounted, nothing in flight, no event enabled), so that URL stays live for the
  rest of the document's life, held by no state.
\<close>

theorem ic_leak_after_unmount:
  assumes "ic_reach (s, r)" "ic_mounted s" "i < length (ic_inflight s)"
    and "ic_step (IcSettle i (HttpOk b)) (ic_step IcUnmount (s, r)) = c"
  shows "ic_enabled (IcSettle i (HttpOk b)) (fst (ic_step IcUnmount (s, r))) \<and>
         live_urls (snd c) = {url_next r} \<and> url_store (snd c) (url_next r) = Some b \<and>
         url_next r \<notin> ic_urls (fst c) \<and> (\<forall>e. \<not> ic_enabled e (fst c))"
proof -
  from assms have fl: "ic_flow s" and eff: "ic_effect s = ic_deps s"
    and urls: "ic_urls s \<subseteq> {..<url_next r}" and live: "live_urls r \<subseteq> ic_urls s"
    using ic_reach_invD by auto
  from fl assms have rm: "remove_nth i (ic_inflight s) = []" by (intro ic_flow_settle)
  from live eff have dead: "live_urls (ic_cleanup (ic_effect s) r) = {}"
    by (auto simp: ic_urls_def)
  have "\<not> ic_enabled e (fst c)" for e
    using assms rm by (cases e) (auto simp: Let_def ic_set_def)
  with assms rm dead urls show ?thesis
    by (auto simp: Let_def ic_set_def live_urls_def ic_urls_def ic_deps_def split: if_splits)
qed

theorem ic_leak_after_unmount_witness:
  "live_urls (snd (ic_step (IcSettle 0 (HttpOk ''JPEG'')) (ic_step IcUnmount
     (ic_run [IcFileChange (Some ic_demo_file), IcSubmit] ic_init)))) = {1} \<and>
   url_store (snd (ic_step (IcSettle 0 (HttpOk ''JPEG'')) (ic_step IcUnmount
     (ic_run [IcFileChange (Some ic_demo_file), IcSubmit] ic_init)))) 1 = Some ''JPEG''"
proof -
  let ?c = "ic_run [IcFileChange (Some ic_demo_file), IcSubmit] ic_init"
  have h: "ic_mounted (fst ?c)" "0 < length (ic_inflight (fst ?c))" by (simp_all add: ic_eval)
  have r: "ic_reach (fst ?c, snd ?c)" using ic_demo_reach(2) by simp
  have n: "url_next (snd ?c) = 1" by (simp add: ic_eval)
  from ic_leak_after_unmount [OF r h refl, of "''JPEG''"] n show ?thesis by simp
qed

text \<open>
  C9. Submitting with no file selected reports the validation error and changes nothing
  else: no request, no URL minted or revoked.
\<close>

theorem ic_submit_without_file:
  "ic_reach (s, r) \<Longrightarrow> ic_selected s = None \<Longrightarrow>
   ic_step IcSubmit (s, r) = (s\<lparr>ic_error := Some ''Please select an image file first.''\<rparr>, r)"
  using ic_reach_invD(3) [of s r] by (simp add: ic_deps_def)

theorem ic_submit_without_file_witness:
  "ic_selected (fst ic_init) = None \<and>
   ic_step IcSubmit ic_init =
     ((fst ic_init)\<lparr>ic_error := Some ''Please select an image file first.''\<rparr>, snd ic_init)"
proof -
  have h: "ic_selected (fst ic_init) = None" by (simp add: ic_init_def)
  have "ic_reach (fst ic_init, snd ic_init)" using ic_reach.init by simp
  from ic_submit_without_file [OF this h] h show ?thesis by simp
qed

text \<open>
  C15. Submitting a selected file starts exactly one request carrying that file and the
  chosen format, sets the loading flag, clears the error and the shown result; if a result
  was shown, the commit revokes every URL, the still-displayed preview included.
\<close>

theorem ic_submit_starts_request:
  assumes "ic_reach (s, r)" "ic_enabled IcSubmit s" "ic_selected s = Some f"
    and "ic_step IcSubmit (s, r) = (s', r')"
  shows "ic_loading s' \<and> ic_error s' = None \<and> ic_converted s' = None \<and>
         ic_inflight s' = [(f, ic_format s)] \<and> ic_preview s' = ic_preview s \<and>
         live_urls r' = (if ic_converted s = None then live_urls r else {})"
proof -
  from assms have eff: "ic_effect s = ic_deps s" and fl: "ic_flow s"
    using ic_reach_invD by auto
  from fl assms have "ic_inflight s = []" by (simp add: ic_flow_def)
  moreover from assms have "live_urls r \<subseteq> ic_urls s" using ic_reach_invD by auto
  ultimately show ?thesis using assms eff
    by (cases "ic_converted s") (auto simp: ic_deps_def ic_cleanup_def ic_urls_def deps_urls_def)
qed

theorem ic_submit_starts_request_witness:
  "ic_enabled IcSubmit (fst (ic_run [IcFileChange (Some ic_demo_file)] ic_init)) \<and>
   ic_selected (fst (ic_run [IcFileChange (Some ic_demo_file)] ic_init)) = Some ic_demo_file \<and>
   ic_inflight (fst (ic_step IcSubmit (ic_run [IcFileChange (Some ic_demo_file)] ic_init))) =
     [(ic_demo_file, ''jpeg'')]"
proof -
  let ?c = "ic_run [IcFileChange (Some ic_demo_file)] ic_init"
  have h: "ic_enabled IcSubmit (fst ?c)" "ic_selected (fst ?c) = Some ic_demo_file"
    by (simp_all add: ic_eval)
  have r: "ic_reach (fst ?c, snd ?c)" using ic_demo_reach(1) by simp
  have f: "ic_format (fst ?c) = ''jpeg''" by (simp add: ic_eval)
  from ic_submit_starts_request [OF r h, of "fst (ic_step IcSubmit ?c)" "snd (ic_step IcSubmit ?c)"]
  show ?thesis using h f by simp
qed

text \<open>
  C11. When the conversion succeeds the form shows a freshly minted URL that resolves to the
  returned image, and stops loading.
\<close>

theorem ic_settle_success:
  assumes "ic_reach (s, r)" "ic_mounted s" "i < length (ic_inflight s)"
    and "ic_step (IcSettle i (HttpOk b)) (s, r) = (s', r')"
  shows "ic_converted s' = Some (url_next r) \<and> url_store r' (url_next r) = Some b \<and>
         url_next r \<notin> live_urls r \<union> set (url_revoked r) \<and>
         \<not> ic_loading s' \<and> ic_inflight s' = []"
proof -
  from assms have wf: "registry_wf r" and eff: "ic_effect s = ic_deps s" and fl: "ic_flow s"
    and urls: "ic_urls s \<subseteq> {..<url_next r}"
    using ic_reach_invD by auto
  from fl assms(3) have rm: "remove_nth i (ic_inflight s) = []" by (rule ic_flow_settle)
  from fl assms have conv: "ic_converted s = None" by (auto simp: ic_flow_def)
  from urls have "url_next r \<notin> set_option (ic_preview s)"
    by (auto simp: ic_urls_def ic_deps_def deps_urls_def)
  moreover have "url_next r \<notin> live_urls r \<union> set (url_revoked r)"
    using create_object_url_fresh [OF wf] by simp
  ultimately show ?thesis using assms eff rm conv
    by (auto simp: ic_set_def ic_deps_def ic_cleanup_def Let_def)
qed

theorem ic_settle_success_witness:
  "ic_mounted (fst (ic_run [IcFileChange (Some ic_demo_file), IcSubmit] ic_init)) \<and>
   0 < length (ic_inflight (fst (ic_run [IcFileChange (Some ic_demo_file), IcSubmit] ic_init))) \<and>
   url_store (snd (ic_step (IcSettle 0 (HttpOk ''JPEG''))
     (ic_run [IcFileChange (Some ic_demo_file), IcSubmit] ic_init))) 1 = Some ''JPEG''"
proof -
  let ?c = "ic_run [IcFileChange (Some ic_demo_file), IcSubmit] ic_init"
  let ?d = "ic_step (IcSettle 0 (HttpOk ''JPEG'')) ?c"
  have h: "ic_mounted (fst ?c)" "0 < length (ic_inflight (fst ?c))" by (simp_all add: ic_eval)
  have r: "ic_reach (fst ?c, snd ?c)" using ic_demo_reach(2) by simp
  have n: "url_next (snd ?c) = 1" by (simp add: ic_eval)
  from ic_settle_success [OF r h, of "''JPEG''" "fst ?d" "snd ?d"] show ?thesis using h n by simp
qed

text \<open>
  C18. When the conversion fails the form shows the classified message (the server's text,
  or the generic message when the body is empty), shows no result and stops loading; no URL
  is minted or revoked.
\<close>

theorem ic_settle_failure:
  assumes "ic_reach (s, r)" "ic_mounted s" "i < length (ic_inflight s)"
    and "fetch_result ''Image conversion failed.'' rep = Inl msg"
    and "ic_step (IcSettle i rep) (s, r) = (s', r')"
  shows "ic_error s' = Some msg \<and> ic_converted s' = None \<and> \<not> ic_loading s' \<and>
         ic_inflight s' = [] \<and> ic_preview s' = ic_preview s \<and> r' = r"
proof -
  from assms have eff: "ic_effect s = ic_deps s" and fl: "ic_flow s"
    using ic_reach_invD by auto
  from fl assms(3) have rm: "remove_nth i (ic_inflight s) = []" by (rule ic_flow_settle)
  from fl assms have conv: "ic_converted s = None" by (auto simp: ic_flow_def)
  with assms eff rm show ?thesis by (auto simp: ic_set_def ic_deps_def Let_def)
qed

theorem ic_settle_failure_witness:
  "ic_mounted (fst (ic_run [IcFileChange (Some ic_demo_file), IcSubmit] ic_init)) \<and>
   0 < length (ic_inflight (fst (ic_run [IcFileChange (Some ic_demo_file), IcSubmit] ic_init))) \<and>
   fetch_result ''Image conversion failed.'' (HttpError []) = Inl ''Image conversion failed.'' \<and>
   ic_error (fst (ic_step (IcSettle 0 (HttpError []))
     (ic_run [IcFileChange (Some ic_demo_file), IcSubmit] ic_init))) = Some ''Image conversion failed.''"
proof -
  let ?c = "ic_run [IcFileChange (Some ic_demo_file), IcSubmit] ic_init"
  let ?d = "ic_step (IcSettle 0 (HttpError [])) ?c"
  have h: "ic_mounted (fst ?c)" "0 < length (ic_inflight (fst ?c))" by (simp_all add: ic_eval)
  have f: "fetch_result ''Image conversion failed.'' (HttpError []) = Inl ''Image conversion failed.''"
    by simp
  have r: "ic_reach (fst ?c, snd ?c)" using ic_demo_reach(2) by simp
  from ic_settle_failure [OF r h f, of "fst ?d" "snd ?d"] show ?thesis using h f by simp
qed

text \<open>
  C13. The result is saved under the format the \<open><select>\<close> shows now, not the one it
  was converted to: after a successful conversion of a request that carried some format, a
  format change keeps the result and its URL (the bytes the server sent for the old format)
  but renames the download to the new extension and relabels the panel.
\<close>

theorem ic_format_change_relabels_result:
  assumes "ic_reach c" "ic_mounted (fst c)" "ic_inflight (fst c) = [(f, fmt)]"
    and "ic_step (IcFormatChange v) (ic_step (IcSettle 0 (HttpOk b)) c) = c'"
  shows "\<exists>u n. iv_download (ic_view (fst c')) = Some (u, n) \<and> suffix (''.'' @ v) n \<and>
           url_store (snd c') u = Some b \<and>
           iv_converted_title (ic_view (fst c')) = ''Converted ('' @ map ascii_upper v @ '')''"
proof (cases c)
  case (Pair s r)
  from assms Pair have eff: "ic_effect s = ic_deps s" and fl: "ic_flow s"
    and urls: "ic_urls s \<subseteq> {..<url_next r}"
    using ic_reach_invD by auto
  from fl assms Pair have conv: "ic_converted s = None" by (auto simp: ic_flow_def)
  from urls have "url_next r \<notin> set_option (ic_preview s)"
    by (auto simp: ic_urls_def ic_deps_def deps_urls_def)
  with assms Pair eff conv have c': "fst c' = s\<lparr>ic_converted := Some (url_next r), ic_loading := False,
      ic_inflight := [], ic_effect := (ic_preview s, Some (url_next r)), ic_format := v\<rparr>"
    and st: "url_store (snd c') (url_next r) = Some b"
    by (auto simp: ic_set_def ic_deps_def ic_cleanup_def Let_def remove_nth_def)
  have "suffix (''.'' @ v) (ic_download_name (fst c'))"
    by (cases "ic_selected s") (auto simp: c' ic_download_name_def suffix_def)
  with c' st show ?thesis by (simp add: ic_view_def)
qed

theorem ic_format_change_relabels_result_witness:
  "iv_download (ic_view (fst (ic_run [IcFileChange (Some ic_demo_file), IcSubmit,
      IcSettle 0 (HttpOk ''JPEG''), IcFormatChange ''png''] ic_init))) = Some (1, ''my.cat_converted.png'') \<and>
   url_store (snd (ic_run [IcFileChange (Some ic_demo_file), IcSubmit,
      IcSettle 0 (HttpOk ''JPEG''), IcFormatChange ''png''] ic_init)) 1 = Some ''JPEG''"
proof -
  let ?c = "ic_run [IcFileChange (Some ic_demo_file), IcSubmit] ic_init"
  let ?d = "ic_step (IcFormatChange ''png'') (ic_step (IcSettle 0 (HttpOk ''JPEG'')) ?c)"
  have h: "ic_mounted (fst ?c)" "ic_inflight (fst ?c) = [(ic_demo_file, ''jpeg'')]"
    by (simp_all add: ic_eval)
  obtain u n where "iv_download (ic_view (fst ?d)) = Some (u, n)" "url_store (snd ?d) u = Some ''JPEG''"
    using ic_format_change_relabels_result [OF ic_demo_reach(2) h refl] by blast
  moreover have "ic_run [IcFileChange (Some ic_demo_file), IcSubmit,
      IcSettle 0 (HttpOk ''JPEG''), IcFormatChange ''png''] ic_init = ?d"
    by (simp add: ic_eval ic_formats_def)
  moreover have "iv_download (ic_view (fst ?d)) = Some (1, ''my.cat_converted.png'')"
    by (simp add: ic_eval ic_formats_def ic_view_def ic_download_name_def slice_but_last_def)
  ultimately show ?thesis by simp
qed

text \<open>
  A selected file whose name has no dot loses its name: the download is called
  \<open>_converted.fmt\<close>.
\<close>

theorem ic_download_name_no_dot:
  "ic_selected s = Some f \<Longrightarrow> CHR ''.'' \<notin> set (file_name f) \<Longrightarrow>
   ic_download_name s = ''_converted.'' @ ic_format s"
  by (simp add: ic_download_name_def split_on_no_sep)

theorem ic_download_name_no_dot_witness:
  "ic_download_name ((fst ic_init)\<lparr>ic_selected := Some (ic_demo_file\<lparr>file_name := ''photo''\<rparr>)\<rparr>)
     = ''_converted.jpeg''"
proof -
  have "ic_selected ((fst ic_init)\<lparr>ic_selected := Some (ic_demo_file\<lparr>file_name := ''photo''\<rparr>)\<rparr>) =
          Some (ic_demo_file\<lparr>file_name := ''photo''\<rparr>)"
    "CHR ''.'' \<notin> set (file_name (ic_demo_file\<lparr>file_name := ''photo''\<rparr>))"
    by simp_all
  from ic_download_name_no_dot [OF this] show ?thesis by (simp add: ic_init_def)
qed

text \<open>
  No revoked URL ever resolves again in any reachable configuration of the form
  (the ledger's safety, as this form drives it).
\<close>

theorem ic_revoked_never_resolves:
  "ic_reach c \<Longrightarrow> u \<in> set (url_revoked (snd c)) \<Longrightarrow> url_store (snd c) u = None"
  using ic_reach_invD(1) [of "fst c" "snd c"] by (simp add: revoked_not_live)

theorem ic_revoked_never_resolves_witness:
  "0 \<in> set (url_revoked (snd (ic_run [IcFileChange (Some ic_demo_file), IcSubmit,
                                     IcSettle 0 (HttpOk ''JPEG'')] ic_init))) \<and>
   url_store (snd (ic_run [IcFileChange (Some ic_demo_file), IcSubmit,
                           IcSettle 0 (HttpOk ''JPEG'')] ic_init)) 0 = None"
proof -
  let ?c = "ic_run [IcFileChange (Some ic_demo_file), IcSubmit, IcSettle 0 (HttpOk ''JPEG'')] ic_init"
  have h: "0 \<in> set (url_revoked (snd ?c))" by (simp add: ic_eval)
  show ?thesis using ic_revoked_never_resolves [OF ic_demo_reach(3) h] h by simp
qed


text \<open>
  C17. Whatever the form shows as its result is live: when the download link is rendered,
  its URL resolves, the converted image shows the same URL, and the link carries the
  download name.
\<close>

theorem ic_view_result_live:
  assumes "ic_reach c" "ic_mounted (fst c)" "iv_download (ic_view (fst c)) = Some (u, n)"
  shows "url_store (snd c) u \<noteq> None \<and> n = ic_download_name (fst c) \<and>
         iv_panel (ic_view (fst c)) = [IcShowConverted u]"
proof -
  from assms have conv: "ic_converted (fst c) = Some u" and n: "n = ic_download_name (fst c)"
    by (auto simp: ic_view_def)
  from assms(1,2) have "set_option (ic_converted (fst c)) \<subseteq> live_urls (snd c)"
    and "ic_flow (fst c)"
    using ic_reach_invD [of "fst c" "snd c"] by auto
  with conv n show ?thesis by (auto simp: ic_view_def live_urls_def ic_flow_def)
qed

theorem ic_view_result_live_witness:
  "ic_mounted (fst (ic_run [IcFileChange (Some ic_demo_file), IcSubmit,
                            IcSettle 0 (HttpOk ''JPEG'')] ic_init)) \<and>
   iv_download (ic_view (fst (ic_run [IcFileChange (Some ic_demo_file), IcSubmit,
                            IcSettle 0 (HttpOk ''JPEG'')] ic_init))) = Some (1, ''my.cat_converted.jpeg'') \<and>
   url_store (snd (ic_run [IcFileChange (Some ic_demo_file), IcSubmit,
                           IcSettle 0 (HttpOk ''JPEG'')] ic_init)) 1 \<noteq> None"
proof -
  let ?c = "ic_run [IcFileChange (Some ic_demo_file), IcSubmit, IcSettle 0 (HttpOk ''JPEG'')] ic_init"
  have m: "ic_mounted (fst ?c)" by (simp add: ic_eval)
  have d: "iv_download (ic_view (fst ?c)) = Some (1, ''my.cat_converted.jpeg'')"
    by (simp add: ic_eval ic_view_def ic_download_name_def slice_but_last_def)
  show ?thesis using ic_view_result_live [OF ic_demo_reach(3) m d] m d by simp
qed

text \<open>
  The converted panel always renders exactly one of its three children: the
  processing note, the converted image or the placeholder.
\<close>

theorem ic_view_panel_single: "length (iv_panel (ic_view s)) = 1"
  by (simp add: ic_view_def split: option.split)

text \<open>
  C39. \<open>getDownloadFileName\<close> is, for every file name, the part of the name before its last
  dot followed by \<open>_converted.\<close> and the target format: the \<open>split\<close>/\<open>slice\<close>/\<open>join\<close>
  idiom is equivalent to cutting at the last dot (so a name without a dot loses its whole
  text, \<open>ic_download_name_no_dot\<close>, and a stem keeps its inner dots, C13).
\<close>

theorem ic_download_name_before_last:
  "ic_download_name s =
     (case ic_selected s of
        None \<Rightarrow> ''converted_image.'' @ ic_format s
      | Some f \<Rightarrow> before_last CHR ''.'' (file_name f) @ ''_converted.'' @ ic_format s)"
  using join_slice_split_on [of "CHR ''.''"] by (simp add: ic_download_name_def split: option.split)

text \<open>
  C40. Every conversion can finish: whenever the form is loading, the pending request's
  settle event is enabled, and whatever the server answers, it ends loading and leaves no
  request in flight. The spinner never outlives the answer.
\<close>

theorem ic_settle_ends_loading:
  "ic_reach c \<Longrightarrow> ic_mounted (fst c) \<Longrightarrow> ic_loading (fst c) \<Longrightarrow>
   ic_enabled (IcSettle 0 rep) (fst c) \<and> \<not> ic_loading (fst (ic_step (IcSettle 0 rep) c)) \<and>
   ic_inflight (fst (ic_step (IcSettle 0 rep) c)) = []"
proof -
  assume r: "ic_reach c" and m: "ic_mounted (fst c)" and l: "ic_loading (fst c)"
  obtain s reg where c: "c = (s, reg)" by fastforce
  from ic_reach_invD(5) [of s reg] r m c have "ic_flow s" by simp
  with l c obtain x where x: "ic_inflight s = [x]" by (cases "ic_inflight s") (auto simp: ic_flow_def)
  with m c show ?thesis
    by (cases "fetch_result ''Image conversion failed.'' rep") (auto simp: ic_set_def Let_def effect_commit_def)
qed

theorem ic_settle_ends_loading_witness:
  "\<not> ic_loading (fst (ic_step (IcSettle 0 (NetworkError ''Failed to fetch''))
      (ic_run [IcFileChange (Some ic_demo_file), IcSubmit] ic_init)))"
proof -
  have h: "ic_mounted (fst (ic_run [IcFileChange (Some ic_demo_file), IcSubmit] ic_init))"
    "ic_loading (fst (ic_run [IcFileChange (Some ic_demo_file), IcSubmit] ic_init))"
    by (simp_all add: ic_eval)
  show ?thesis using ic_settle_ends_loading [OF ic_demo_reach(2) h] by simp
qed

text \<open>
  C12. The server is only ever asked for a format the page offers: in every reachable
  configuration the target format, the format of every request in flight and the
  extension of the download name are among the \<open><select>\<close>'s options.
\<close>

theorem ic_formats_offered:
  "ic_reach c \<Longrightarrow>
   ic_format (fst c) \<in> set ic_formats \<and> (\<forall>(f, fmt) \<in> set (ic_inflight (fst c)). fmt \<in> set ic_formats) \<and>
   (\<exists>fmt \<in> set ic_formats. suffix fmt (ic_download_name (fst c)))"
proof -
  assume r: "ic_reach c"
  have "suffix (ic_format (fst c)) (ic_download_name (fst c))"
    by (simp add: ic_download_name_def suffix_def split: option.split)
  with ic_reach_formats [OF r] show ?thesis by blast
qed

theorem ic_formats_offered_witness:
  "ic_format (fst (ic_run [IcFormatChange ''gif'', IcFormatChange ''webp''] ic_init)) = ''gif'' \<and>
   (\<exists>fmt \<in> set ic_formats. suffix fmt (ic_download_name (fst (ic_run [IcFormatChange ''gif'', IcFormatChange ''webp''] ic_init))))"
proof -
  let ?c = "ic_run [IcFormatChange ''gif'', IcFormatChange ''webp''] ic_init"
  have r: "ic_reach ?c" by (rule ic_reach_run [OF ic_reach.init])
  have f: "ic_format (fst ?c) = ''gif''" by (simp add: ic_eval ic_formats_def)
  from ic_formats_offered [OF r] have "\<exists>fmt \<in> set ic_formats. suffix fmt (ic_download_name (fst ?c))"
    by blast
  with f show ?thesis by blast
qed

end
