(* ===== verification/Image_To_Pdf.thy ===== *)
theory Image_To_Pdf
  imports Effect_Hook Remote_Client
begin

text \<open>
  The many-images-to-one-PDF form, \<open>src/my-tools-io/src/components/ImageToPdfConverter.jsx\<close>.
  State (lines 5 to 10) is the record \<open>ip_state\<close>. The previews are an array compared by
  identity in the effect's dependency list (line 18), so \<open>ip_previews\<close> carries the array's
  identity and the array literal \<open>handleFileChange\<close> stores takes a fresh one
  (\<open>ip_next_array\<close>). As in the other forms \<open>ip_effect\<close> is what the installed cleanup
  captured and \<open>ip_inflight\<close> the submissions whose \<open>fetch\<close> has not settled, each with
  the files its form data carried.

  Each handler is followed by one render and commit (\<open>ip_commit\<close>); the continuation after
  \<open>fetch\<close> (lines 57 to 75) is one event, \<open>IpSettle\<close>, that still mints the PDF's URL
  after unmount while React drops its state updates (\<open>ip_set\<close>). The file input accepts
  several files (line 94); an empty selection (a cancelled dialog) changes nothing (line 22).
  The render (lines 102 to 133) is \<open>ip_view\<close>.
\<close>

type_synonym ip_previews = "nat \<times> (string \<times> url) list"

record ip_state =
  ip_selected :: "js_file list"
  ip_previews :: ip_previews
  ip_pdf :: "url option"
  ip_loading :: bool
  ip_error :: "string option"
  ip_effect :: "ip_previews \<times> url option"
  ip_mounted :: bool
  ip_next_array :: nat
  ip_inflight :: "js_file list list"

type_synonym ip_conf = "ip_state \<times> blob url_registry"

definition ip_init :: ip_conf where
  "ip_init =
     (\<lparr>ip_selected = [], ip_previews = (0, []), ip_pdf = None, ip_loading = False,
       ip_error = None, ip_effect = ((0, []), None), ip_mounted = True, ip_next_array = 1,
       ip_inflight = []\<rparr>, empty_registry)"

section \<open>The cleanup effect\<close>

definition ip_deps :: "ip_state \<Rightarrow> ip_previews \<times> url option" where
  "ip_deps s = (ip_previews s, ip_pdf s)"

definition ip_deps_urls :: "ip_previews \<times> url option \<Rightarrow> url set" where
  "ip_deps_urls d = snd ` set (snd (fst d)) \<union> set_option (snd d)"

text \<open>Lines 15 and 16, on the values the effect captured.\<close>

definition ip_cleanup :: "ip_previews \<times> url option \<Rightarrow> blob url_registry \<Rightarrow> blob url_registry" where
  "ip_cleanup d r = revoke_if_set (snd d) (revoke_each (map snd (snd (fst d))) r)"

fun ip_commit :: "ip_conf \<Rightarrow> ip_conf" where
  "ip_commit (s, r) =
     (if ip_mounted s then
        (case effect_commit ip_cleanup (ip_effect s) (ip_deps s) r of
           (d, r') \<Rightarrow> (s\<lparr>ip_effect := d\<rparr>, r'))
      else (s, r))"

definition ip_set :: "(ip_state \<Rightarrow> ip_state) \<Rightarrow> ip_state \<Rightarrow> ip_state" where
  "ip_set f s = (if ip_mounted s then f s else s)"

section \<open>Handlers\<close>

text \<open>Lines 26 to 29: \<open>files.map(file => ({name: file.name, url: URL.createObjectURL(file)}))\<close>.\<close>

fun ip_mint_previews :: "js_file list \<Rightarrow> blob url_registry \<Rightarrow> (string \<times> url) list \<times> blob url_registry" where
  "ip_mint_previews [] r = ([], r)"
| "ip_mint_previews (f # fs) r =
     (case create_object_url (file_data f) r of
        (u, r') \<Rightarrow> (case ip_mint_previews fs r' of (xs, r'') \<Rightarrow> ((file_name f, u) # xs, r'')))"

fun ip_handle_file_change :: "js_file list \<Rightarrow> ip_conf \<Rightarrow> ip_conf" where
  "ip_handle_file_change fs (s, r) =
     (if fs \<noteq> [] then
        (case ip_mint_previews fs r of
           (xs, r') \<Rightarrow>
             (s\<lparr>ip_selected := fs, ip_previews := (ip_next_array s, xs),
                ip_next_array := Suc (ip_next_array s), ip_pdf := None, ip_error := None\<rparr>, r'))
      else (s, r))"

fun ip_handle_submit :: "ip_conf \<Rightarrow> ip_conf" where
  "ip_handle_submit (s, r) =
     (if ip_selected s = [] then (s\<lparr>ip_error := Some ''Please select one or more image files.''\<rparr>, r)
      else (s\<lparr>ip_loading := True, ip_error := None, ip_pdf := None,
               ip_inflight := ip_inflight s @ [ip_selected s]\<rparr>, r))"

text \<open>Lines 57 to 75: the continuation of submission \<open>i\<close> once \<open>fetch\<close> settles.\<close>

fun ip_settle :: "nat \<Rightarrow> reply \<Rightarrow> ip_conf \<Rightarrow> ip_conf" where
  "ip_settle i rep (s, r) =
     (if i < length (ip_inflight s) then
        (let s1 = s\<lparr>ip_inflight := remove_nth i (ip_inflight s)\<rparr> in
         case fetch_result ''PDF conversion failed.'' rep of
           Inl msg \<Rightarrow> (ip_set (\<lambda>t. t\<lparr>ip_error := Some msg, ip_loading := False\<rparr>) s1, r)
         | Inr b \<Rightarrow>
             (case create_object_url b r of
                (u, r') \<Rightarrow> (ip_set (\<lambda>t. t\<lparr>ip_pdf := Some u, ip_loading := False\<rparr>) s1, r')))
      else (s, r))"

fun ip_unmount :: "ip_conf \<Rightarrow> ip_conf" where
  "ip_unmount (s, r) = (s\<lparr>ip_mounted := False\<rparr>, ip_cleanup (ip_effect s) r)"

section \<open>Events, runs and reachable configurations\<close>

datatype ip_event =
    IpFileChange "js_file list"
  | IpSubmit
  | IpSettle nat reply
  | IpUnmount

text \<open>The submit button is disabled while loading or with no file selected (line 102).\<close>

fun ip_enabled :: "ip_event \<Rightarrow> ip_state \<Rightarrow> bool" where
  "ip_enabled (IpFileChange fs) s = ip_mounted s"
| "ip_enabled IpSubmit s = (ip_mounted s \<and> \<not> ip_loading s \<and> ip_selected s \<noteq> [])"
| "ip_enabled (IpSettle i rep) s = (i < length (ip_inflight s))"
| "ip_enabled IpUnmount s = ip_mounted s"

fun ip_step :: "ip_event \<Rightarrow> ip_conf \<Rightarrow> ip_conf" where
  "ip_step (IpFileChange fs) c = ip_commit (ip_handle_file_change fs c)"
| "ip_step IpSubmit c = ip_commit (ip_handle_submit c)"
| "ip_step (IpSettle i rep) c = ip_commit (ip_settle i rep c)"
| "ip_step IpUnmount c = ip_unmount c"

inductive ip_reach :: "ip_conf \<Rightarrow> bool" where
  init: "ip_reach ip_init"
| step: "ip_reach c \<Longrightarrow> ip_enabled e (fst c) \<Longrightarrow> ip_reach (ip_step e c)"

abbreviation ip_run :: "ip_event list \<Rightarrow> ip_conf \<Rightarrow> ip_conf" where
  "ip_run \<equiv> guarded_run (\<lambda>e c. ip_enabled e (fst c)) ip_step"

section \<open>The rendered view\<close>

text \<open>
  Lines 100 to 133: the submit button, the error banner (not for the empty string), and the
  preview section, shown when there is a preview, with the download link when a PDF URL is
  held and no conversion is running.
\<close>

record ip_screen =
  iq_button_disabled :: bool
  iq_button_label :: string
  iq_error_banner :: "string option"
  iq_section :: bool
  iq_count :: nat
  iq_download :: "(url \<times> string) option"
  iq_images :: "(string \<times> url) list"

definition ip_view :: "ip_state \<Rightarrow> ip_screen" where
  "ip_view s =
     (let shown = (snd (ip_previews s) \<noteq> []) in
      \<lparr>iq_button_disabled = (ip_loading s \<or> ip_selected s = []),
       iq_button_label = (if ip_loading s then ''Creating PDF...'' else ''Convert to PDF''),
       iq_error_banner = (case ip_error s of Some e \<Rightarrow> if e = [] then None else Some e | None \<Rightarrow> None),
       iq_section = shown,
       iq_count = length (snd (ip_previews s)),
       iq_download =
         (if shown \<and> \<not> ip_loading s then map_option (\<lambda>u. (u, ''converted_document.pdf'')) (ip_pdf s)
          else None),
       iq_images = (if shown then snd (ip_previews s) else [])\<rparr>)"

text \<open>Lines 134 to 212: the guide and feature sections, static content.\<close>

definition ip_guide :: guide where
  \<open>ip_guide =
     \<lparr>guide_title = ''How to Convert Images to PDF?'',
      guide_steps =
        [(''Upload Images'',
          ''Select one or more images you want to combine into a PDF document.''),
         (''Create PDF'',
          ''Click the "Convert to PDF" button. Our tool will merge your images into a single file.''),
         (''Download'',
          ''Download your new PDF file. All uploaded images are deleted from our servers for your privacy.'')],
      guide_features_title = ''Key Features'',
      guide_features =
        [(''Multi-Image Support'',
          ''Combine multiple images (JPG, PNG, GIF, BMP) into one convenient PDF document.''),
         (''Page per Image'',
          ''Each image you upload is automatically placed on its own separate page for a clean, organized document.''),
         (''High-Quality Output'',
          ''Your images are embedded in the PDF at their original quality, ensuring a crisp and professional result.''),
         (''Secure & Private'',
          ''All conversions are done on our secure servers, and your files are never stored or shared.'')]\<rparr>\<close>

section \<open>The invariant\<close>

text \<open>
  \<open>ip_inv\<close>: the URL store is well-formed, the state names only minted URLs, the previews'
  array identity is fresh and there is one preview per selected file; while mounted, the
  installed effect captured the current previews and PDF, every live URL is one of them,
  at most one submission is in flight and exactly while loading (with no PDF and a
  selection), and the PDF URL the state holds is live. \<open>ip_pre\<close> is its form between a
  handler's updates and the commit.
\<close>

definition ip_urls :: "ip_state \<Rightarrow> url set" where
  "ip_urls s = ip_deps_urls (ip_deps s)"

definition ip_flow :: "ip_state \<Rightarrow> bool" where
  "ip_flow s \<longleftrightarrow>
     (ip_loading s \<longleftrightarrow> ip_inflight s \<noteq> []) \<and> length (ip_inflight s) \<le> 1 \<and>
     (ip_loading s \<longrightarrow> ip_pdf s = None \<and> ip_selected s \<noteq> [])"

fun ip_inv :: "ip_conf \<Rightarrow> bool" where
  "ip_inv (s, r) \<longleftrightarrow>
     registry_wf r \<and> ip_urls s \<subseteq> {..<url_next r} \<and> fst (ip_previews s) < ip_next_array s \<and>
     length (snd (ip_previews s)) = length (ip_selected s) \<and>
     (ip_mounted s \<longrightarrow> ip_effect s = ip_deps s \<and> live_urls r \<subseteq> ip_urls s \<and> ip_flow s \<and>
        set_option (ip_pdf s) \<subseteq> live_urls r)"

fun ip_pre :: "ip_conf \<Rightarrow> bool" where
  "ip_pre (s, r) \<longleftrightarrow>
     registry_wf r \<and> ip_urls s \<subseteq> {..<url_next r} \<and> fst (ip_previews s) < ip_next_array s \<and>
     length (snd (ip_previews s)) = length (ip_selected s) \<and>
     (ip_mounted s \<longrightarrow> ip_deps_urls (ip_effect s) \<subseteq> {..<url_next r} \<and>
        live_urls r \<subseteq> ip_deps_urls (ip_effect s) \<union> ip_urls s \<and> ip_flow s \<and>
        (\<forall>u \<in> set_option (ip_pdf s).
           u \<in> live_urls r \<and> (u \<in> ip_deps_urls (ip_effect s) \<longrightarrow> ip_effect s = ip_deps s)))"

text \<open>Sample inputs for the witnesses.\<close>

definition ip_demo_a :: js_file where
  "ip_demo_a = \<lparr>file_name = ''a.png'', file_type = ''image/png'', file_data = ''A''\<rparr>"

definition ip_demo_b :: js_file where
  "ip_demo_b = \<lparr>file_name = ''b.jpg'', file_type = ''image/jpeg'', file_data = ''B''\<rparr>"

definition ip_demo_selected :: ip_conf where
  "ip_demo_selected = ip_run [IpFileChange [ip_demo_a, ip_demo_b]] ip_init"

definition ip_demo_submitted :: ip_conf where
  "ip_demo_submitted = ip_run [IpSubmit] ip_demo_selected"

section \<open>Proofs of the invariant\<close>

text \<open>The previews \<open>files.map\<close> mints, in closed form: consecutive fresh URLs, one per file.\<close>

lemma ip_mint_previews_closed:
  "fst (ip_mint_previews fs r) = zip (map file_name fs) [url_next r..<url_next r + length fs] \<and>
   url_next (snd (ip_mint_previews fs r)) = url_next r + length fs \<and>
   url_revoked (snd (ip_mint_previews fs r)) = url_revoked r \<and>
   url_store (snd (ip_mint_previews fs r)) u =
     (if url_next r \<le> u \<and> u < url_next r + length fs then Some (file_data (fs ! (u - url_next r)))
      else url_store r u)"
proof (induction fs arbitrary: r)
  case Nil
  then show ?case by auto
next
  case (Cons f fs)
  let ?r1 = "snd (create_object_url (file_data f) r)"
  obtain xs r2 where m: "ip_mint_previews fs ?r1 = (xs, r2)" by fastforce
  have res: "ip_mint_previews (f # fs) r = ((file_name f, url_next r) # xs, r2)"
    using m by simp
  from Cons.IH [of ?r1] m have
    xs: "xs = zip (map file_name fs) [Suc (url_next r)..<Suc (url_next r) + length fs]" and
    nx: "url_next r2 = Suc (url_next r) + length fs" and
    rv: "url_revoked r2 = url_revoked r" and
    st: "url_store r2 u = (if Suc (url_next r) \<le> u \<and> u < Suc (url_next r) + length fs
            then Some (file_data (fs ! (u - Suc (url_next r)))) else ((url_store r)(url_next r \<mapsto> file_data f)) u)"
    by (simp_all del: upt_Suc)
  have "[url_next r..<url_next r + length (f # fs)] = url_next r # [Suc (url_next r)..<Suc (url_next r) + length fs]"
    by (simp add: upt_conv_Cons del: upt_Suc)
  moreover have "url_store r2 u = (if url_next r \<le> u \<and> u < url_next r + length (f # fs)
      then Some (file_data ((f # fs) ! (u - url_next r))) else url_store r u)"
    using st by (auto simp: nth_Cons')
  ultimately show ?case using res xs nx rv by (simp del: upt_Suc)
qed

lemma ip_mint_previews_registry:
  assumes "ip_mint_previews fs r = (xs, r')" "registry_wf r"
  shows "registry_wf r' \<and> url_next r' = url_next r + length fs \<and>
         live_urls r' = live_urls r \<union> snd ` set xs \<and> snd ` set xs = {url_next r..<url_next r + length fs} \<and>
         length xs = length fs"
proof -
  from ip_mint_previews_closed [of fs r] assms(1) have
    xs: "xs = zip (map file_name fs) [url_next r..<url_next r + length fs]" and
    nx: "url_next r' = url_next r + length fs" and rv: "url_revoked r' = url_revoked r" and
    st: "\<And>u. url_store r' u = (if url_next r \<le> u \<and> u < url_next r + length fs
           then Some (file_data (fs ! (u - url_next r))) else url_store r u)"
    by simp_all
  have "map snd xs = [url_next r..<url_next r + length fs]" using xs by simp
  then have sx: "snd ` set xs = {url_next r..<url_next r + length fs}" by (metis set_map set_upt)
  have live: "live_urls r' = live_urls r \<union> {url_next r..<url_next r + length fs}"
    using st by (auto simp: live_urls_def split: if_splits)
  from assms(2) have "registry_wf r'"
    using live nx rv by (auto simp: registry_wf_def)
  with nx live sx xs show ?thesis by simp
qed

lemma ip_cleanup_simps [simp]:
  "live_urls (ip_cleanup d r) = live_urls r - ip_deps_urls d"
  "url_next (ip_cleanup d r) = url_next r"
  by (auto simp: ip_cleanup_def ip_deps_urls_def)

lemma ip_cleanup_wf:
  "registry_wf r \<Longrightarrow> ip_deps_urls d \<subseteq> {..<url_next r} \<Longrightarrow> registry_wf (ip_cleanup d r)"
  unfolding ip_cleanup_def ip_deps_urls_def
  by (intro registry_wf_revoke_if_set registry_wf_revoke_each) auto

lemma ip_urls_simps [simp]:
  "ip_urls (s\<lparr>ip_inflight := q\<rparr>) = ip_urls s" "ip_urls (s\<lparr>ip_error := e\<rparr>) = ip_urls s"
  "ip_urls (s\<lparr>ip_loading := b\<rparr>) = ip_urls s" "ip_urls (s\<lparr>ip_effect := d\<rparr>) = ip_urls s"
  "ip_urls (s\<lparr>ip_mounted := b\<rparr>) = ip_urls s"
  by (simp_all add: ip_urls_def ip_deps_def)

lemma ip_inv_pre: "ip_inv c \<Longrightarrow> ip_pre c"
  by (cases c) (auto simp: ip_urls_def)

lemma ip_commit_inv: "ip_pre c \<Longrightarrow> ip_inv (ip_commit c)"
proof (cases c)
  case (Pair s r)
  assume pre: "ip_pre c"
  show ?thesis
  proof (cases "ip_mounted s")
    case True
    let ?e = "effect_commit ip_cleanup (ip_effect s) (ip_deps s) r"
    from pre Pair True have wf: "registry_wf (snd ?e)"
      by (auto intro: effect_commit_wf ip_cleanup_wf)
    from pre Pair True have live: "live_urls (snd ?e) \<subseteq> ip_deps_urls (ip_deps s)"
      by (intro effect_commit_live) (auto simp: ip_urls_def)
    have nxt: "url_next (snd ?e) = url_next r"
      by (rule effect_commit_next) simp
    have fst: "fst ?e = ip_deps s" by (rule effect_commit_installs)
    have pdf: "set_option (ip_pdf s) \<subseteq> live_urls (snd ?e)"
      using pre Pair True effect_commit_live_eq [of ip_cleanup ip_deps_urls] by auto
    from pre Pair True wf live nxt fst pdf show ?thesis
      by (cases ?e) (simp add: ip_urls_def ip_deps_def ip_flow_def)
  next
    case False
    with pre Pair show ?thesis by simp
  qed
qed

lemma ip_file_change_pre: "ip_inv c \<Longrightarrow> ip_pre (ip_handle_file_change fs c)"
proof (cases c)
  case (Pair s r)
  assume inv: "ip_inv c"
  show ?thesis
  proof (cases "fs = []")
    case True
    from ip_inv_pre [OF inv] Pair True show ?thesis by simp
  next
    case False
    obtain xs r' where m: "ip_mint_previews fs r = (xs, r')" by fastforce
    from inv Pair have wf: "registry_wf r" by simp
    from ip_mint_previews_registry [OF m wf] have
      wf': "registry_wf r'" and nx: "url_next r' = url_next r + length fs" and
      live: "live_urls r' = live_urls r \<union> snd ` set xs" and
      sx: "snd ` set xs = {url_next r..<url_next r + length fs}" and len: "length xs = length fs"
      by simp_all
    from inv Pair False m wf' nx live sx len show ?thesis
      by (auto simp: ip_urls_def ip_deps_def ip_deps_urls_def ip_flow_def)
  qed
qed

lemma ip_submit_pre: "ip_inv c \<Longrightarrow> \<not> ip_loading (fst c) \<Longrightarrow> ip_pre (ip_handle_submit c)"
  by (cases c) (auto simp: ip_urls_def ip_deps_def ip_deps_urls_def ip_flow_def)

lemma ip_flow_settle:
  "ip_flow s \<Longrightarrow> i < length (ip_inflight s) \<Longrightarrow> remove_nth i (ip_inflight s) = []"
  by (cases "ip_inflight s") (auto simp: ip_flow_def remove_nth_def)

lemma ip_settle_pre: "ip_inv c \<Longrightarrow> ip_pre (ip_settle i rep c)"
proof (cases c)
  case (Pair s r)
  assume inv: "ip_inv c"
  show ?thesis
  proof (cases "i < length (ip_inflight s)")
    case True
    with inv Pair have rm: "ip_mounted s \<Longrightarrow> remove_nth i (ip_inflight s) = []"
      by (auto intro: ip_flow_settle)
    show ?thesis
    proof (cases "fetch_result ''PDF conversion failed.'' rep")
      case (Inl msg)
      with inv Pair True rm show ?thesis
        by (auto simp: ip_set_def ip_urls_def ip_deps_def ip_flow_def Let_def)
    next
      case (Inr b)
      with inv Pair True rm show ?thesis
        by (auto simp: ip_set_def ip_urls_def ip_deps_def ip_deps_urls_def ip_flow_def Let_def)
    qed
  next
    case False
    from inv have "ip_pre c" by (rule ip_inv_pre)
    with Pair False show ?thesis by simp
  qed
qed

lemma ip_unmount_inv: "ip_inv c \<Longrightarrow> ip_mounted (fst c) \<Longrightarrow> ip_inv (ip_unmount c)"
  by (cases c) (auto simp: ip_urls_def ip_deps_def intro!: ip_cleanup_wf)

lemma ip_step_inv: "ip_inv c \<Longrightarrow> ip_enabled e (fst c) \<Longrightarrow> ip_inv (ip_step e c)"
  by (cases e) (simp_all add: ip_commit_inv ip_file_change_pre ip_submit_pre ip_settle_pre ip_unmount_inv)

lemma ip_reach_inv: "ip_reach c \<Longrightarrow> ip_inv c"
proof (induction rule: ip_reach.induct)
  case init
  show ?case by (simp add: ip_init_def ip_urls_def ip_deps_def ip_deps_urls_def ip_flow_def)
next
  case (step c e)
  from step.IH step.hyps(2) show ?case by (rule ip_step_inv)
qed

lemma ip_reach_invD:
  assumes "ip_reach (s, r)"
  shows "registry_wf r" "ip_urls s \<subseteq> {..<url_next r}" "fst (ip_previews s) < ip_next_array s"
    and "length (snd (ip_previews s)) = length (ip_selected s)"
    and "ip_mounted s \<Longrightarrow> ip_effect s = ip_deps s" "ip_mounted s \<Longrightarrow> live_urls r \<subseteq> ip_urls s"
    and "ip_mounted s \<Longrightarrow> ip_flow s" "ip_mounted s \<Longrightarrow> set_option (ip_pdf s) \<subseteq> live_urls r"
  using ip_reach_inv [OF assms] by auto

lemma ip_reach_run: "ip_reach c \<Longrightarrow> ip_reach (ip_run es c)"
  by (rule guarded_run_closed [where Q = "\<lambda>_. True"]) (simp_all add: ip_reach.step list_all_iff)

lemma ip_view_simps [simp]:
  "iq_images (ip_view s) = snd (ip_previews s)"
  "iq_download (ip_view s) =
     (if snd (ip_previews s) \<noteq> [] \<and> \<not> ip_loading s
      then map_option (\<lambda>u. (u, ''converted_document.pdf'')) (ip_pdf s) else None)"
  by (simp_all add: ip_view_def Let_def)

lemma ip_cleanup_store:
  "u \<notin> ip_deps_urls d \<Longrightarrow> url_store (ip_cleanup d r) u = url_store r u"
  by (auto simp: ip_cleanup_def ip_deps_urls_def url_store_revoke_each)

lemma ip_cleanup_revokes:
  "u \<in> ip_deps_urls d \<Longrightarrow> url_store (ip_cleanup d r) u = None"
  by (auto simp: ip_cleanup_def ip_deps_urls_def url_store_revoke_each)

lemma ip_commit_changed:
  "ip_mounted s \<Longrightarrow> ip_deps s \<noteq> ip_effect s \<Longrightarrow>
   ip_commit (s, r) = (s\<lparr>ip_effect := ip_deps s\<rparr>, ip_cleanup (ip_effect s) r)"
  by simp

lemma ip_mint_previews_contents:
  "ip_mint_previews fs r = (xs, r') \<Longrightarrow>
   map (\<lambda>(n, u). (n, url_store r' u)) xs = map (\<lambda>f. (file_name f, Some (file_data f))) fs \<and>
   distinct (map snd xs)"
  using ip_mint_previews_closed [of fs r] by (auto intro!: nth_equalityI)

text \<open>The step of a settling submission that succeeds, in closed form.\<close>

lemma ip_settle_ok_step:
  assumes "ip_reach (s, r)" "ip_mounted s" "ip_inflight s = [fs]"
  shows "ip_step (IpSettle 0 (HttpOk b)) (s, r) =
    (s\<lparr>ip_inflight := [], ip_pdf := Some (url_next r), ip_loading := False,
        ip_effect := (ip_previews s, Some (url_next r))\<rparr>,
     ip_cleanup (ip_previews s, None) (snd (create_object_url b r)))"
proof -
  from assms have eff: "ip_effect s = (ip_previews s, None)"
    using ip_reach_invD(5,7) [OF assms(1)] by (simp add: ip_deps_def ip_flow_def)
  let ?s1 = "s\<lparr>ip_inflight := [], ip_pdf := Some (url_next r), ip_loading := False\<rparr>"
  have "ip_settle 0 (HttpOk b) (s, r) = (?s1, snd (create_object_url b r))"
    using assms by (simp add: ip_set_def remove_nth_def)
  moreover have "ip_deps ?s1 \<noteq> ip_effect ?s1" using eff by (simp add: ip_deps_def)
  ultimately show ?thesis using assms eff by (simp add: ip_deps_def)
qed

text \<open>The step of a non-empty file selection, in closed form.\<close>

lemma ip_file_change_step:
  assumes "ip_reach (s, r)" "ip_mounted s" "fs \<noteq> []" "ip_mint_previews fs r = (xs, r1)"
  shows "ip_step (IpFileChange fs) (s, r) =
    (s\<lparr>ip_selected := fs, ip_previews := (ip_next_array s, xs), ip_next_array := Suc (ip_next_array s),
        ip_pdf := None, ip_error := None, ip_effect := ((ip_next_array s, xs), None)\<rparr>,
     ip_cleanup (ip_effect s) r1)"
proof -
  from assms have eff: "ip_effect s = ip_deps s" and ids: "fst (ip_previews s) < ip_next_array s"
    using ip_reach_invD [OF assms(1)] by auto
  let ?s1 = "s\<lparr>ip_selected := fs, ip_previews := (ip_next_array s, xs), ip_next_array := Suc (ip_next_array s),
        ip_pdf := None, ip_error := None\<rparr>"
  have "ip_handle_file_change fs (s, r) = (?s1, r1)" using assms by simp
  moreover have "(ip_next_array s, xs) \<noteq> ip_previews s" using ids by (metis fst_conv less_irrefl)
  then have "ip_deps ?s1 \<noteq> ip_effect ?s1" using eff by (simp add: ip_deps_def)
  ultimately show ?thesis using assms by (simp add: ip_deps_def)
qed

section \<open>Properties of the PDF session\<close>

lemmas ip_eval = ip_init_def ip_deps_def ip_cleanup_def ip_set_def Let_def remove_nth_def
  ip_demo_a_def ip_demo_b_def ip_demo_selected_def ip_demo_submitted_def revoke_each_def ip_view_def

lemma ip_demo_reach: "ip_reach ip_demo_selected" "ip_reach ip_demo_submitted"
proof -
  show s: "ip_reach ip_demo_selected"
    unfolding ip_demo_selected_def by (rule ip_reach_run [OF ip_reach.init])
  show "ip_reach ip_demo_submitted"
    unfolding ip_demo_submitted_def by (rule ip_reach_run [OF s])
qed

text \<open>
  C29. No object URL leaks while the form is mounted: every live URL is one of the previews
  or the PDF the state holds.
\<close>

theorem ip_no_leak_while_mounted:
  "ip_reach c \<Longrightarrow> ip_mounted (fst c) \<Longrightarrow>
   live_urls (snd c) \<subseteq> snd ` set (snd (ip_previews (fst c))) \<union> set_option (ip_pdf (fst c))"
  using ip_reach_invD(6) [of "fst c" "snd c"] by (simp add: ip_urls_def ip_deps_def ip_deps_urls_def)

theorem ip_no_leak_while_mounted_witness:
  "ip_mounted (fst ip_demo_selected) \<and> live_urls (snd ip_demo_selected) \<subseteq> {0, 1}"
proof -
  have m: "ip_mounted (fst ip_demo_selected)" by (simp add: ip_eval)
  have p: "snd ` set (snd (ip_previews (fst ip_demo_selected))) \<union> set_option (ip_pdf (fst ip_demo_selected))
      = {0, 1}" by (simp add: ip_eval)
  show ?thesis using ip_no_leak_while_mounted [OF ip_demo_reach(1) m] m p by simp
qed

text \<open>
  C30. A successful conversion revokes every image preview while the form still shows them:
  storing the PDF's URL changes the effect's dependencies, so the cleanup of the previous
  effect revokes the preview URLs it captured, and the \<open><img>\<close> elements of the preview
  grid point to dead URLs.
\<close>

theorem ip_previews_revoked_on_success:
  assumes "ip_reach c" "ip_mounted (fst c)" "ip_inflight (fst c) = [fs]"
    and "(n, u) \<in> set (snd (ip_previews (fst c)))"
  shows "(n, u) \<in> set (iq_images (ip_view (fst (ip_step (IpSettle 0 (HttpOk b)) c)))) \<and>
         url_store (snd (ip_step (IpSettle 0 (HttpOk b)) c)) u = None"
proof (cases c)
  case (Pair s r)
  from assms Pair have h: "ip_reach (s, r)" "ip_mounted s" "ip_inflight s = [fs]" by simp_all
  have "u \<in> ip_deps_urls (ip_previews s, None)" using assms Pair by (force simp: ip_deps_urls_def)
  then show ?thesis unfolding Pair ip_settle_ok_step [OF h]
    using assms Pair by (simp add: ip_cleanup_revokes)
qed

theorem ip_previews_revoked_on_success_witness:
  "(''a.png'', 0) \<in> set (iq_images (ip_view (fst (ip_step (IpSettle 0 (HttpOk ''PDF'')) ip_demo_submitted)))) \<and>
   url_store (snd (ip_step (IpSettle 0 (HttpOk ''PDF'')) ip_demo_submitted)) 0 = None"
proof -
  have h: "ip_mounted (fst ip_demo_submitted)"
    "ip_inflight (fst ip_demo_submitted) = [[ip_demo_a, ip_demo_b]]"
    "(''a.png'', 0) \<in> set (snd (ip_previews (fst ip_demo_submitted)))"
    by (simp_all add: ip_eval)
  show ?thesis by (rule ip_previews_revoked_on_success [OF ip_demo_reach(2) h])
qed

text \<open>
  C31. Selecting files replaces the previews by exactly the selected files, in order, each
  named as its file and resolving to its bytes through its own URL, and revokes every URL
  the form held before.
\<close>

theorem ip_previews_follow_files:
  assumes "ip_reach c" "ip_mounted (fst c)" "fs \<noteq> []"
  shows "map (\<lambda>(n, u). (n, url_store (snd (ip_step (IpFileChange fs) c)) u))
           (snd (ip_previews (fst (ip_step (IpFileChange fs) c)))) =
         map (\<lambda>f. (file_name f, Some (file_data f))) fs \<and>
         distinct (map snd (snd (ip_previews (fst (ip_step (IpFileChange fs) c))))) \<and>
         (\<forall>u \<in> ip_urls (fst c). url_store (snd (ip_step (IpFileChange fs) c)) u = None)"
proof (cases c)
  case (Pair s r)
  obtain xs r1 where m: "ip_mint_previews fs r = (xs, r1)" by fastforce
  from assms Pair have wf: "registry_wf r" and urls: "ip_urls s \<subseteq> {..<url_next r}"
    and eff: "ip_effect s = ip_deps s"
    using ip_reach_invD by auto
  have st: "ip_step (IpFileChange fs) c =
    (s\<lparr>ip_selected := fs, ip_previews := (ip_next_array s, xs), ip_next_array := Suc (ip_next_array s),
        ip_pdf := None, ip_error := None, ip_effect := ((ip_next_array s, xs), None)\<rparr>,
     ip_cleanup (ip_effect s) r1)"
    using ip_file_change_step [of s r fs xs r1] assms Pair m by simp
  from ip_mint_previews_contents [OF m] have
    cont: "map (\<lambda>(n, u). (n, url_store r1 u)) xs = map (\<lambda>f. (file_name f, Some (file_data f))) fs"
    and dist: "distinct (map snd xs)" by simp_all
  have fresh: "url_store (ip_cleanup (ip_effect s) r1) u = url_store r1 u" if "(n, u) \<in> set xs" for n u
  proof (rule ip_cleanup_store)
    from that ip_mint_previews_registry [OF m wf] have "url_next r \<le> u" by force
    with urls eff show "u \<notin> ip_deps_urls (ip_effect s)" by (auto simp: ip_urls_def)
  qed
  have "map (\<lambda>(n, u). (n, url_store (ip_cleanup (ip_effect s) r1) u)) xs =
        map (\<lambda>(n, u). (n, url_store r1 u)) xs"
    by (rule map_cong) (auto simp: fresh)
  moreover have "url_store (ip_cleanup (ip_effect s) r1) u = None" if "u \<in> ip_urls s" for u
    using that eff by (simp add: ip_urls_def ip_cleanup_revokes)
  ultimately show ?thesis using st cont dist Pair by simp
qed

theorem ip_previews_follow_files_witness:
  "map (\<lambda>(n, u). (n, url_store (snd (ip_step (IpFileChange [ip_demo_b]) ip_demo_selected)) u))
     (snd (ip_previews (fst (ip_step (IpFileChange [ip_demo_b]) ip_demo_selected)))) = [(''b.jpg'', Some ''B'')]"
proof -
  have h: "ip_mounted (fst ip_demo_selected)" "[ip_demo_b] \<noteq> []" by (simp_all add: ip_eval)
  show ?thesis using ip_previews_follow_files [OF ip_demo_reach(1) h] by (simp add: ip_demo_b_def)
qed

text \<open>
  C32. A conversion is shown for files the user has since replaced: if other files are
  selected while a conversion runs, its PDF is offered for download under the new previews.
  Nothing ties the answer to the selection it was made from.
\<close>

theorem ip_stale_pdf_shown:
  assumes "ip_reach c" "ip_mounted (fst c)" "ip_inflight (fst c) = [fs]" "gs \<noteq> []"
  shows "ip_selected (fst (ip_step (IpSettle 0 (HttpOk b)) (ip_step (IpFileChange gs) c))) = gs \<and>
         (\<exists>u. iq_download (ip_view (fst (ip_step (IpSettle 0 (HttpOk b)) (ip_step (IpFileChange gs) c)))) =
                Some (u, ''converted_document.pdf'') \<and>
              url_store (snd (ip_step (IpSettle 0 (HttpOk b)) (ip_step (IpFileChange gs) c))) u = Some b)"
proof (cases c)
  case (Pair s r)
  obtain xs r1 where m: "ip_mint_previews gs r = (xs, r1)" by fastforce
  from assms Pair have h: "ip_reach (s, r)" "ip_mounted s" by simp_all
  let ?s1 = "s\<lparr>ip_selected := gs, ip_previews := (ip_next_array s, xs), ip_next_array := Suc (ip_next_array s),
        ip_pdf := None, ip_error := None, ip_effect := ((ip_next_array s, xs), None)\<rparr>"
  let ?r1 = "ip_cleanup (ip_effect s) r1"
  have st1: "ip_step (IpFileChange gs) (s, r) = (?s1, ?r1)" by (rule ip_file_change_step [OF h assms(4) m])
  have reach1: "ip_reach (?s1, ?r1)"
    using ip_reach.step [OF h(1), of "IpFileChange gs"] h(2) st1 by simp
  have h1: "ip_mounted ?s1" "ip_inflight ?s1 = [fs]" using assms Pair by simp_all
  have "length xs = length gs" using ip_mint_previews_closed [of gs r] m by simp
  with assms(4) have ne: "xs \<noteq> []" by auto
  have wf: "registry_wf r" by (rule ip_reach_invD(1) [OF h(1)])
  from ip_mint_previews_registry [OF m wf] have nx: "url_next r1 \<notin> ip_deps_urls ((ip_next_array s, xs), None)"
    by (simp add: ip_deps_urls_def)
  show ?thesis unfolding Pair st1 ip_settle_ok_step [OF reach1 h1]
    using ne by (simp add: ip_cleanup_store [OF nx])
qed

theorem ip_stale_pdf_shown_witness:
  "ip_selected (fst (ip_step (IpSettle 0 (HttpOk ''PDF'')) (ip_step (IpFileChange [ip_demo_b]) ip_demo_submitted)))
     = [ip_demo_b]"
proof -
  have h: "ip_mounted (fst ip_demo_submitted)" "ip_inflight (fst ip_demo_submitted) = [[ip_demo_a, ip_demo_b]]"
    "[ip_demo_b] \<noteq> []" by (simp_all add: ip_eval)
  show ?thesis using ip_stale_pdf_shown [OF ip_demo_reach(2) h, of "''PDF''"] by simp
qed

text \<open>
  Cancelling the file dialog (an empty selection) changes nothing: the form keeps its
  files, previews and PDF, and no URL is minted or revoked.
\<close>

theorem ip_empty_selection_noop:
  "ip_reach c \<Longrightarrow> ip_mounted (fst c) \<Longrightarrow> ip_step (IpFileChange []) c = c"
  using ip_reach_invD(5) [of "fst c" "snd c"] by (cases c) simp

theorem ip_empty_selection_noop_witness:
  "ip_step (IpFileChange []) ip_demo_selected = ip_demo_selected"
proof -
  have m: "ip_mounted (fst ip_demo_selected)" by (simp add: ip_eval)
  show ?thesis by (rule ip_empty_selection_noop [OF ip_demo_reach(1) m])
qed

end
