(* ===== verification/Refinement.thy ===== *)
theory Refinement
  imports Session Image_Converter Image_To_Pdf
begin

text \<open>
  The forms that convert one submission at a time refine the session machine of
  \<open>Session\<close>. \<open>ic_abs\<close> and \<open>ip_abs\<close> read the session state off the single-image
  and the images-to-PDF forms' state; \<open>ic_labels\<close> and \<open>ip_labels\<close> name the
  abstract transitions each concrete event performs (a successful single-result conversion
  is \<open>onRemoteSuccess\<close> followed by the trivial decode). The events outside the
  simulation are those \<open>ic_session_ok\<close> and \<open>ip_session_ok\<close> exclude: unmounting, which
  the spec has no event for, and a new selection while a conversion is pending, after which
  the spec discards the pending response and the code does not (C4, C32).
\<close>

definition ic_abs :: "ic_state \<Rightarrow> sess_state" where
  "ic_abs s =
     (if ic_loading s then Submitting
      else if ic_converted s \<noteq> None then Ready
      else if ic_error s \<noteq> None \<and> ic_selected s \<noteq> None then Failed
      else if ic_selected s \<noteq> None then Staged
      else Idle)"

fun ic_labels :: "ic_event \<Rightarrow> sess_label list" where
  "ic_labels (IcFileChange None) = []"
| "ic_labels (IcFileChange (Some f)) = [SelectInputs]"
| "ic_labels (IcFormatChange v) = []"
| "ic_labels IcSubmit = [Submit]"
| "ic_labels (IcSettle i rep) =
     (case fetch_result ''Image conversion failed.'' rep of
        Inl msg \<Rightarrow> [RemoteFailure]
      | Inr b \<Rightarrow> [RemoteSuccess, DecodeDone])"
| "ic_labels IcUnmount = [Reset]"

text \<open>The events the simulation covers: not an unmount, not a new file while loading.\<close>

fun ic_session_ok :: "ic_event \<Rightarrow> ic_conf \<Rightarrow> bool" where
  "ic_session_ok (IcFileChange (Some f)) c = (\<not> ic_loading (fst c))"
| "ic_session_ok IcUnmount c = False"
| "ic_session_ok e c = True"

definition ip_abs :: "ip_state \<Rightarrow> sess_state" where
  "ip_abs s =
     (if ip_loading s then Submitting
      else if ip_pdf s \<noteq> None then Ready
      else if ip_error s \<noteq> None \<and> ip_selected s \<noteq> [] then Failed
      else if ip_selected s \<noteq> [] then Staged
      else Idle)"

fun ip_labels :: "ip_event \<Rightarrow> sess_label list" where
  "ip_labels (IpFileChange []) = []"
| "ip_labels (IpFileChange (f # fs)) = [SelectInputs]"
| "ip_labels IpSubmit = [Submit]"
| "ip_labels (IpSettle i rep) =
     (case fetch_result ''PDF conversion failed.'' rep of
        Inl msg \<Rightarrow> [RemoteFailure]
      | Inr b \<Rightarrow> [RemoteSuccess, DecodeDone])"
| "ip_labels IpUnmount = [Reset]"

fun ip_session_ok :: "ip_event \<Rightarrow> ip_conf \<Rightarrow> bool" where
  "ip_session_ok (IpFileChange (f # fs)) c = (\<not> ip_loading (fst c))"
| "ip_session_ok IpUnmount c = False"
| "ip_session_ok e c = True"

lemma ic_commit_fst_fields:
  "ic_loading (fst (ic_commit c)) = ic_loading (fst c)"
  "ic_converted (fst (ic_commit c)) = ic_converted (fst c)"
  "ic_error (fst (ic_commit c)) = ic_error (fst c)"
  "ic_selected (fst (ic_commit c)) = ic_selected (fst c)"
  "ic_mounted (fst (ic_commit c)) = ic_mounted (fst c)"
  by (cases c; simp split: prod.split)+

lemma ic_abs_commit: "ic_abs (fst (ic_commit c)) = ic_abs (fst c)"
  by (simp add: ic_abs_def ic_commit_fst_fields)

lemma ic_handle_file_change_fields:
  "ic_loading (fst (ic_handle_file_change fo c)) = ic_loading (fst c)"
  "ic_mounted (fst (ic_handle_file_change fo c)) = ic_mounted (fst c)"
  "ic_selected (fst (ic_handle_file_change fo c)) = (case fo of None \<Rightarrow> ic_selected (fst c) | Some f \<Rightarrow> Some f)"
  by (cases fo; cases c; simp split: prod.split)+

lemma ic_step_loading_selected:
  "(ic_loading (fst c) \<longrightarrow> ic_selected (fst c) \<noteq> None) \<Longrightarrow>
   ic_loading (fst (ic_step e c)) \<longrightarrow> ic_selected (fst (ic_step e c)) \<noteq> None"
  by (cases c; cases e rule: ic_event.exhaust)
     (auto simp: ic_commit_fst_fields ic_handle_file_change_fields ic_set_def Let_def
           split: option.split sum.split prod.split)

lemma ic_reach_loading_selected:
  "ic_reach c \<Longrightarrow> ic_loading (fst c) \<Longrightarrow> ic_selected (fst c) \<noteq> None"
proof (induction rule: ic_reach.induct)
  case init
  then show ?case by (simp add: ic_init_def)
next
  case (step c e)
  then show ?case using ic_step_loading_selected [of c e] by blast
qed

lemma ic_step_mounted:
  "e \<noteq> IcUnmount \<Longrightarrow> ic_mounted (fst (ic_step e c)) = ic_mounted (fst c)"
  by (cases c; cases e rule: ic_event.exhaust)
     (auto simp: ic_commit_fst_fields ic_handle_file_change_fields ic_set_def Let_def split: option.split sum.split prod.split)

lemma ic_session_step:
  assumes "ic_reach c" "ic_mounted (fst c)" "ic_enabled e (fst c)" "ic_session_ok e c"
  shows "sess_path (ic_abs (fst c)) (ic_labels e) (ic_abs (fst (ic_step e c)))"
proof (cases c)
  case (Pair s r)
  from assms Pair have fl: "ic_flow s" using ic_reach_invD(5) by auto
  show ?thesis
  proof (cases e)
    case (IcFileChange fo)
    have st: "ic_abs (fst (ic_step e c)) = ic_abs (fst (ic_handle_file_change fo c))"
      using IcFileChange by (simp only: ic_step.simps ic_abs_commit)
    show ?thesis unfolding st using assms Pair IcFileChange
      by (cases fo) (auto simp: ic_abs_def sess_path_Cons sess_path_Nil sess_step_simps)
  next
    case (IcFormatChange v)
    have st: "ic_abs (fst (ic_step e c)) = ic_abs (fst (ic_handle_format_change v c))"
      using IcFormatChange by (simp only: ic_step.simps ic_abs_commit)
    show ?thesis unfolding st using Pair IcFormatChange by (simp add: ic_abs_def sess_path_Nil)
  next
    case IcSubmit
    have st: "ic_abs (fst (ic_step e c)) = ic_abs (fst (ic_handle_submit c))"
      using IcSubmit by (simp only: ic_step.simps ic_abs_commit)
    show ?thesis unfolding st using assms Pair fl IcSubmit
      by (auto simp: ic_abs_def sess_path_Cons sess_path_Nil sess_step_simps ic_flow_def)
  next
    case (IcSettle i rep)
    have st: "ic_abs (fst (ic_step e c)) = ic_abs (fst (ic_settle i rep c))"
      using IcSettle by (simp only: ic_step.simps ic_abs_commit)
    from assms Pair fl IcSettle have rm: "remove_nth i (ic_inflight s) = []" and ld: "ic_loading s"
      by (auto simp: ic_flow_settle ic_flow_def)
    from assms Pair ld have sel: "ic_selected s \<noteq> None" "ic_converted s = None"
      using fl by (auto dest: ic_reach_loading_selected simp: ic_flow_def)
    show ?thesis unfolding st using IcSettle assms Pair rm ld sel
      by (cases "fetch_result ''Image conversion failed.'' rep")
         (auto simp: ic_abs_def ic_set_def Let_def sess_path_Cons sess_path_Nil sess_step_simps)
  next
    case IcUnmount
    with assms show ?thesis by simp
  qed
qed

lemma ip_commit_fst_fields:
  "ip_loading (fst (ip_commit c)) = ip_loading (fst c)"
  "ip_pdf (fst (ip_commit c)) = ip_pdf (fst c)"
  "ip_error (fst (ip_commit c)) = ip_error (fst c)"
  "ip_selected (fst (ip_commit c)) = ip_selected (fst c)"
  "ip_mounted (fst (ip_commit c)) = ip_mounted (fst c)"
  by (cases c; simp split: prod.split)+

lemma ip_abs_commit: "ip_abs (fst (ip_commit c)) = ip_abs (fst c)"
  by (simp add: ip_abs_def ip_commit_fst_fields)

lemma ip_handle_file_change_fields:
  "ip_loading (fst (ip_handle_file_change fs c)) = ip_loading (fst c)"
  "ip_mounted (fst (ip_handle_file_change fs c)) = ip_mounted (fst c)"
  "fs \<noteq> [] \<Longrightarrow> ip_selected (fst (ip_handle_file_change fs c)) = fs"
  "fs \<noteq> [] \<Longrightarrow> ip_pdf (fst (ip_handle_file_change fs c)) = None"
  "fs \<noteq> [] \<Longrightarrow> ip_error (fst (ip_handle_file_change fs c)) = None"
  "ip_handle_file_change [] c = c"
  by (cases c; simp split: prod.split)+

lemma ip_step_mounted:
  "e \<noteq> IpUnmount \<Longrightarrow> ip_mounted (fst (ip_step e c)) = ip_mounted (fst c)"
  by (cases c; cases e rule: ip_event.exhaust)
     (auto simp: ip_commit_fst_fields ip_handle_file_change_fields ip_set_def Let_def
           split: option.split sum.split prod.split)

lemma ip_session_step:
  assumes "ip_reach c" "ip_mounted (fst c)" "ip_enabled e (fst c)" "ip_session_ok e c"
  shows "sess_path (ip_abs (fst c)) (ip_labels e) (ip_abs (fst (ip_step e c)))"
proof (cases c)
  case (Pair s r)
  from assms Pair have fl: "ip_flow s" using ip_reach_invD(7) by auto
  show ?thesis
  proof (cases e)
    case (IpFileChange fs)
    have st: "ip_abs (fst (ip_step e c)) = ip_abs (fst (ip_handle_file_change fs c))"
      using IpFileChange by (simp only: ip_step.simps ip_abs_commit)
    show ?thesis
    proof (cases fs)
      case Nil
      then show ?thesis unfolding st using IpFileChange by (simp add: ip_handle_file_change_fields sess_path_Nil)
    next
      case (Cons f fs')
      then show ?thesis unfolding st using assms Cons IpFileChange
        by (simp add: ip_abs_def ip_handle_file_change_fields sess_path_Cons sess_path_Nil sess_step_simps)
    qed
  next
    case IpSubmit
    have st: "ip_abs (fst (ip_step e c)) = ip_abs (fst (ip_handle_submit c))"
      using IpSubmit by (simp only: ip_step.simps ip_abs_commit)
    show ?thesis unfolding st using assms Pair IpSubmit
      by (auto simp: ip_abs_def sess_path_Cons sess_path_Nil sess_step_simps)
  next
    case (IpSettle i rep)
    have st: "ip_abs (fst (ip_step e c)) = ip_abs (fst (ip_settle i rep c))"
      using IpSettle by (simp only: ip_step.simps ip_abs_commit)
    from assms Pair fl IpSettle have rm: "remove_nth i (ip_inflight s) = []" and ld: "ip_loading s"
      by (auto simp: ip_flow_settle ip_flow_def)
    from fl ld have sel: "ip_selected s \<noteq> []" "ip_pdf s = None" by (simp_all add: ip_flow_def)
    show ?thesis unfolding st using IpSettle assms Pair rm ld sel
      by (cases "fetch_result ''PDF conversion failed.'' rep")
         (auto simp: ip_abs_def ip_set_def Let_def sess_path_Cons sess_path_Nil sess_step_simps)
  next
    case IpUnmount
    with assms show ?thesis by simp
  qed
qed

text \<open>
  C33. The single-image form refines the spec's conversion session over whole runs: from
  a reachable configuration of the mounted form, any sequence of events in which no event
  the form performs is an unmount or a new file picked while a conversion is pending moves
  the abstract session state along a path of transitions the spec allows, labelled by the
  abstract labels of the events performed (a trace inclusion).
\<close>

theorem ic_run_refines_session:
  assumes "ic_reach c" "ic_mounted (fst c)"
    and "guarded_ok (\<lambda>e c. ic_enabled e (fst c)) ic_step ic_session_ok es c"
  shows "sess_path (ic_abs (fst c)) (guarded_labels (\<lambda>e c. ic_enabled e (fst c)) ic_step ic_labels es c)
           (ic_abs (fst (ic_run es c)))"
proof (rule guarded_run_sim [where R = "\<lambda>c. ic_reach c \<and> ic_mounted (fst c)" and ab = "\<lambda>c. ic_abs (fst c)"])
  fix c e
  assume r: "ic_reach c \<and> ic_mounted (fst c)" and en: "ic_enabled e (fst c)" and ok: "ic_session_ok e c"
  from ok have "e \<noteq> IcUnmount" by auto
  with r en show "(ic_reach (ic_step e c) \<and> ic_mounted (fst (ic_step e c))) \<and>
      sess_path (ic_abs (fst c)) (ic_labels e) (ic_abs (fst (ic_step e c)))"
    using ic_session_step [of c e] ok by (simp add: ic_reach.step ic_step_mounted)
qed (use assms in auto)

theorem ic_run_refines_session_witness:
  "sess_path (ic_abs (fst ic_init))
     (guarded_labels (\<lambda>e c. ic_enabled e (fst c)) ic_step ic_labels
        [IcFileChange (Some ic_demo_file), IcSubmit, IcSettle 0 (HttpOk ''JPEG'')] ic_init)
     (ic_abs (fst (ic_run [IcFileChange (Some ic_demo_file), IcSubmit, IcSettle 0 (HttpOk ''JPEG'')] ic_init))) \<and>
   ic_abs (fst ic_init) = Idle \<and>
   guarded_labels (\<lambda>e c. ic_enabled e (fst c)) ic_step ic_labels
     [IcFileChange (Some ic_demo_file), IcSubmit, IcSettle 0 (HttpOk ''JPEG'')] ic_init =
     [SelectInputs, Submit, RemoteSuccess, DecodeDone] \<and>
   ic_abs (fst (ic_run [IcFileChange (Some ic_demo_file), IcSubmit, IcSettle 0 (HttpOk ''JPEG'')] ic_init)) = Ready"
proof -
  let ?es = "[IcFileChange (Some ic_demo_file), IcSubmit, IcSettle 0 (HttpOk ''JPEG'')]"
  have m: "ic_mounted (fst ic_init)" by (simp add: ic_init_def)
  have ok: "guarded_ok (\<lambda>e c. ic_enabled e (fst c)) ic_step ic_session_ok ?es ic_init"
    by (simp add: ic_eval)
  have l: "guarded_labels (\<lambda>e c. ic_enabled e (fst c)) ic_step ic_labels ?es ic_init =
      [SelectInputs, Submit, RemoteSuccess, DecodeDone]"
    by (simp add: ic_eval)
  have a: "ic_abs (fst ic_init) = Idle" "ic_abs (fst (ic_run ?es ic_init)) = Ready"
    by (simp_all add: ic_eval ic_abs_def)
  show ?thesis using ic_run_refines_session [OF ic_reach.init m ok] l a by simp
qed

text \<open>
  C34. The images-to-PDF form refines the same session machine over whole runs: from a
  reachable configuration of the mounted form, any sequence of events in which no event
  performed is an unmount or a non-empty selection while a conversion is pending moves the
  abstract state along a path of the spec's transitions, labelled by the events performed.
\<close>

theorem ip_run_refines_session:
  assumes "ip_reach c" "ip_mounted (fst c)"
    and "guarded_ok (\<lambda>e c. ip_enabled e (fst c)) ip_step ip_session_ok es c"
  shows "sess_path (ip_abs (fst c)) (guarded_labels (\<lambda>e c. ip_enabled e (fst c)) ip_step ip_labels es c)
           (ip_abs (fst (ip_run es c)))"
proof (rule guarded_run_sim [where R = "\<lambda>c. ip_reach c \<and> ip_mounted (fst c)" and ab = "\<lambda>c. ip_abs (fst c)"])
  fix c e
  assume r: "ip_reach c \<and> ip_mounted (fst c)" and en: "ip_enabled e (fst c)" and ok: "ip_session_ok e c"
  from ok have "e \<noteq> IpUnmount" by auto
  with r en show "(ip_reach (ip_step e c) \<and> ip_mounted (fst (ip_step e c))) \<and>
      sess_path (ip_abs (fst c)) (ip_labels e) (ip_abs (fst (ip_step e c)))"
    using ip_session_step [of c e] ok by (simp add: ip_reach.step ip_step_mounted)
qed (use assms in auto)

theorem ip_run_refines_session_witness:
  "sess_path (ip_abs (fst ip_init))
     (guarded_labels (\<lambda>e c. ip_enabled e (fst c)) ip_step ip_labels
        [IpFileChange [ip_demo_a, ip_demo_b], IpSubmit, IpSettle 0 (HttpError ''busy'')] ip_init)
     (ip_abs (fst (ip_run [IpFileChange [ip_demo_a, ip_demo_b], IpSubmit, IpSettle 0 (HttpError ''busy'')] ip_init))) \<and>
   ip_abs (fst ip_init) = Idle \<and>
   guarded_labels (\<lambda>e c. ip_enabled e (fst c)) ip_step ip_labels
     [IpFileChange [ip_demo_a, ip_demo_b], IpSubmit, IpSettle 0 (HttpError ''busy'')] ip_init =
     [SelectInputs, Submit, RemoteFailure] \<and>
   ip_abs (fst (ip_run [IpFileChange [ip_demo_a, ip_demo_b], IpSubmit, IpSettle 0 (HttpError ''busy'')] ip_init)) = Failed"
proof -
  let ?es = "[IpFileChange [ip_demo_a, ip_demo_b], IpSubmit, IpSettle 0 (HttpError ''busy'')]"
  have m: "ip_mounted (fst ip_init)" by (simp add: ip_init_def)
  have ok: "guarded_ok (\<lambda>e c. ip_enabled e (fst c)) ip_step ip_session_ok ?es ip_init"
    by (simp add: ip_eval)
  have l: "guarded_labels (\<lambda>e c. ip_enabled e (fst c)) ip_step ip_labels ?es ip_init =
      [SelectInputs, Submit, RemoteFailure]"
    by (simp add: ip_eval)
  have a: "ip_abs (fst ip_init) = Idle" "ip_abs (fst (ip_run ?es ip_init)) = Failed"
    by (simp_all add: ip_eval ip_abs_def)
  show ?thesis using ip_run_refines_session [OF ip_reach.init m ok] l a by simp
qed

end
