(* ===== verification/Pdf_To_Image.thy ===== *)
theory Pdf_To_Image
  imports Effect_Hook Remote_Client
begin

text \<open>
  The PDF-to-images form, \<open>src/my-tools-io/src/components/PdfToImageConverter.jsx\<close>,
  with the archive decoding it does through JSZip. State (lines 6 to 11) is the record
  \<open>pi_state\<close>. The array \<open>convertedImages\<close> is compared by identity in the effect's
  dependency list, so it is stored with its identity (\<open>pi_images\<close>), and every array
  literal the code passes to \<open>setConvertedImages\<close> takes a fresh one (\<open>pi_new_array\<close>).
  The submit handler has three suspension points that matter: after \<open>fetch\<close> settles
  the ZIP's URL is stored and rendered (\<open>pi_fetch_settle\<close>), and only after JSZip has
  read the archive and inflated every entry does the second part run
  (\<open>pi_unzip_settle\<close>); a submission in flight is a \<open>pi_job\<close> in one of the two
  stages. The archive is the environment's: the outcome of \<open>JSZip.loadAsync\<close> is either a
  message (malformed archive) or the entries in directory order, each a directory or a file
  whose inflation yields a blob or fails with a message.

  The render (lines 89 to 130) is \<open>pi_view\<close>; it reads \<open>selectedFile.name\<close> to name
  the ZIP whenever the result section and the ZIP link are shown, and throws when no file is
  selected. A render that throws unmounts the application (there is no error boundary):
  the commit then runs the installed cleanup and the form is gone.
\<close>

datatype zip_entry = ZipEntry (ze_name: string) (ze_dir: bool) (ze_content: "string + blob")

type_synonym zip_listing = "string + zip_entry list"

datatype pi_job = PiFetching js_file string | PiUnzipping js_file string

type_synonym pi_images = "nat \<times> (string \<times> url) list"

record pi_state =
  pi_selected :: "js_file option"
  pi_format :: string
  pi_images :: pi_images
  pi_zip :: "url option"
  pi_loading :: bool
  pi_error :: "string option"
  pi_effect :: "pi_images \<times> url option"
  pi_mounted :: bool
  pi_next_array :: nat
  pi_jobs :: "pi_job list"

type_synonym pi_conf = "pi_state \<times> blob url_registry"

definition pi_init :: pi_conf where
  "pi_init =
     (\<lparr>pi_selected = None, pi_format = ''png'', pi_images = (0, []), pi_zip = None,
       pi_loading = False, pi_error = None, pi_effect = ((0, []), None), pi_mounted = True,
       pi_next_array = 1, pi_jobs = []\<rparr>, empty_registry)"

definition pi_new_array :: "(string \<times> url) list \<Rightarrow> pi_state \<Rightarrow> pi_state" where
  "pi_new_array xs s = s\<lparr>pi_images := (pi_next_array s, xs), pi_next_array := Suc (pi_next_array s)\<rparr>"

section \<open>The cleanup effect\<close>

definition pi_deps :: "pi_state \<Rightarrow> pi_images \<times> url option" where
  "pi_deps s = (pi_images s, pi_zip s)"

definition pi_deps_urls :: "pi_images \<times> url option \<Rightarrow> url set" where
  "pi_deps_urls d = snd ` set (snd (fst d)) \<union> set_option (snd d)"

text \<open>Lines 16 and 17, on the values the effect captured.\<close>

definition pi_cleanup :: "pi_images \<times> url option \<Rightarrow> blob url_registry \<Rightarrow> blob url_registry" where
  "pi_cleanup d r = revoke_if_set (snd d) (revoke_each (map snd (snd (fst d))) r)"

definition pi_set :: "(pi_state \<Rightarrow> pi_state) \<Rightarrow> pi_state \<Rightarrow> pi_state" where
  "pi_set f s = (if pi_mounted s then f s else s)"

section \<open>The render\<close>

text \<open>\<open>selectedFile.name.replace('.pdf', '.zip')\<close>, line 123.\<close>

definition pi_zip_name :: "js_file \<Rightarrow> string" where
  "pi_zip_name f = replace_first ''.pdf'' ''.zip'' (file_name f)"

record pi_screen =
  ps_button_disabled :: bool
  ps_error_banner :: "string option"
  ps_results :: bool
  ps_page_count :: nat
  ps_zip_link :: "(url \<times> string) option"
  ps_processing :: bool
  ps_pages :: "(string \<times> url) list"

text \<open>
  Lines 109 to 130: \<open>None\<close> when the render throws, which happens when the results
  section and the ZIP link are both rendered with no file selected.
\<close>

definition pi_view :: "pi_state \<Rightarrow> pi_screen option" where
  "pi_view s =
     (let results = (pi_loading s \<or> snd (pi_images s) \<noteq> []) in
      if results \<and> pi_zip s \<noteq> None \<and> pi_selected s = None then None
      else Some
        \<lparr>ps_button_disabled = (pi_loading s \<or> pi_selected s = None),
         ps_error_banner = (case pi_error s of Some e \<Rightarrow> if e = [] then None else Some e | None \<Rightarrow> None),
         ps_results = results,
         ps_page_count = length (snd (pi_images s)),
         ps_zip_link =
           (if results then
              (case (pi_zip s, pi_selected s) of (Some z, Some f) \<Rightarrow> Some (z, pi_zip_name f) | _ \<Rightarrow> None)
            else None),
         ps_processing = (results \<and> pi_loading s),
         ps_pages = (if results then snd (pi_images s) else [])\<rparr>)"

text \<open>Lines 131 to 212: the guide and feature sections, static content.\<close>

definition pi_guide :: guide where
  \<open>pi_guide =
     \<lparr>guide_title = ''How to Convert PDF to Images?'',
      guide_steps =
        [(''Upload PDF'',
          ''Select the PDF file you want to convert from your device.''),
         (''Convert to Images'',
          ''Choose your desired output format (PNG or JPEG) and click the "Convert" button.''),
         (''Download ZIP'',
          ''Your converted images will be bundled into a single ZIP file, ready for you to download.'')],
      guide_features_title = ''Key Features'',
      guide_features =
        [(''Full PDF Conversion'',
          ''Converts every page of your PDF document into a separate, high-quality image file.''),
         (''Convenient ZIP Archive'',
          ''All generated images are conveniently packaged into a single ZIP file for easy downloading.''),
         (''High-Resolution Output'',
          ''Images are rendered at 300 DPI to ensure they are crisp and clear for any use case.''),
         (''Secure & Private'',
          ''Your files are processed securely and are immediately deleted from our servers after conversion.'')]\<rparr>\<close>

text \<open>
  Render and commit after a handler: a render that throws unmounts the tree, running the
  installed cleanup; otherwise the effect is committed as usual.
\<close>

fun pi_commit :: "pi_conf \<Rightarrow> pi_conf" where
  "pi_commit (s, r) =
     (if \<not> pi_mounted s then (s, r)
      else (case pi_view s of
              None \<Rightarrow> (s\<lparr>pi_mounted := False\<rparr>, pi_cleanup (pi_effect s) r)
            | Some v \<Rightarrow>
                (case effect_commit pi_cleanup (pi_effect s) (pi_deps s) r of
                   (d, r') \<Rightarrow> (s\<lparr>pi_effect := d\<rparr>, r'))))"

section \<open>Handlers\<close>

fun pi_handle_file_change :: "js_file option \<Rightarrow> pi_conf \<Rightarrow> pi_conf" where
  "pi_handle_file_change fo (s, r) =
     (case fo of
        Some f \<Rightarrow>
          if file_type f = ''application/pdf'' then
            (pi_new_array [] (s\<lparr>pi_selected := Some f, pi_zip := None, pi_error := None\<rparr>), r)
          else (s\<lparr>pi_selected := None, pi_error := Some ''Please select a valid PDF file.''\<rparr>, r)
      | None \<Rightarrow> (s\<lparr>pi_selected := None, pi_error := Some ''Please select a valid PDF file.''\<rparr>, r))"

fun pi_handle_format_change :: "string \<Rightarrow> pi_conf \<Rightarrow> pi_conf" where
  "pi_handle_format_change v (s, r) = (s\<lparr>pi_format := v\<rparr>, r)"

fun pi_handle_submit :: "pi_conf \<Rightarrow> pi_conf" where
  "pi_handle_submit (s, r) =
     (case pi_selected s of
        None \<Rightarrow> (s\<lparr>pi_error := Some ''Please select a PDF file first.''\<rparr>, r)
      | Some f \<Rightarrow>
          (pi_new_array [] (s\<lparr>pi_loading := True, pi_error := None, pi_zip := None,
             pi_jobs := pi_jobs s @ [PiFetching f (pi_format s)]\<rparr>), r))"

text \<open>Lines 52 to 63 and 81 to 86: \<open>fetch\<close> settles.\<close>

fun pi_fetch_settle :: "nat \<Rightarrow> reply \<Rightarrow> pi_conf \<Rightarrow> pi_conf" where
  "pi_fetch_settle i rep (s, r) =
     (if i < length (pi_jobs s) then
        (case pi_jobs s ! i of
           PiFetching f fmt \<Rightarrow>
             (case fetch_result ''PDF to Image conversion failed.'' rep of
                Inl msg \<Rightarrow>
                  (pi_set (\<lambda>t. t\<lparr>pi_error := Some msg, pi_loading := False\<rparr>)
                     (s\<lparr>pi_jobs := remove_nth i (pi_jobs s)\<rparr>), r)
              | Inr b \<Rightarrow>
                  (case create_object_url b r of
                     (u, r') \<Rightarrow>
                       (pi_set (\<lambda>t. t\<lparr>pi_zip := Some u\<rparr>)
                          (s\<lparr>pi_jobs := (pi_jobs s)[i := PiUnzipping f fmt]\<rparr>), r')))
         | PiUnzipping f fmt \<Rightarrow> (s, r))
      else (s, r))"

text \<open>
  Lines 67 to 76: every file entry's promise mints a URL for its blob when it inflates;
  \<open>Promise.all\<close> then rejects with a failing entry's error if there is one.
\<close>

fun pi_mint_entries :: "zip_entry list \<Rightarrow> blob url_registry \<Rightarrow> (string \<times> url) list \<times> blob url_registry" where
  "pi_mint_entries [] r = ([], r)"
| "pi_mint_entries (e # es) r =
     (if ze_dir e then pi_mint_entries es r
      else (case ze_content e of
              Inl msg \<Rightarrow> pi_mint_entries es r
            | Inr b \<Rightarrow>
                (case create_object_url b r of
                   (u, r') \<Rightarrow>
                     (case pi_mint_entries es r' of (xs, r'') \<Rightarrow> ((ze_name e, u) # xs, r'')))))"

fun pi_entry_failure :: "zip_entry list \<Rightarrow> string option" where
  "pi_entry_failure [] = None"
| "pi_entry_failure (e # es) =
     (if \<not> ze_dir e \<and> (case ze_content e of Inl msg \<Rightarrow> True | Inr b \<Rightarrow> False)
      then (case ze_content e of Inl msg \<Rightarrow> Some msg | Inr b \<Rightarrow> None)
      else pi_entry_failure es)"

text \<open>Lines 66 to 86 after the archive is read: the second part of the continuation.\<close>

fun pi_unzip_settle :: "nat \<Rightarrow> zip_listing \<Rightarrow> pi_conf \<Rightarrow> pi_conf" where
  "pi_unzip_settle i dec (s, r) =
     (if i < length (pi_jobs s) \<and> (case pi_jobs s ! i of PiUnzipping f fmt \<Rightarrow> True | _ \<Rightarrow> False) then
        (let s1 = s\<lparr>pi_jobs := remove_nth i (pi_jobs s)\<rparr> in
         case dec of
           Inl msg \<Rightarrow> (pi_set (\<lambda>t. t\<lparr>pi_error := Some msg, pi_loading := False\<rparr>) s1, r)
         | Inr es \<Rightarrow>
             (case pi_mint_entries es r of
                (imgs, r') \<Rightarrow>
                  (case pi_entry_failure es of
                     Some msg \<Rightarrow> (pi_set (\<lambda>t. t\<lparr>pi_error := Some msg, pi_loading := False\<rparr>) s1, r')
                   | None \<Rightarrow> (pi_set (\<lambda>t. (pi_new_array imgs t)\<lparr>pi_loading := False\<rparr>) s1, r'))))
      else (s, r))"

fun pi_unmount :: "pi_conf \<Rightarrow> pi_conf" where
  "pi_unmount (s, r) = (s\<lparr>pi_mounted := False\<rparr>, pi_cleanup (pi_effect s) r)"

section \<open>Events, runs and reachable configurations\<close>

datatype pi_event =
    PiFileChange "js_file option"
  | PiFormatChange string
  | PiSubmit
  | PiFetchSettle nat reply
  | PiUnzipSettle nat zip_listing
  | PiUnmount

text \<open>Lines 104 and 105: the values the format \<open><select>\<close> offers, the only ones it reports.\<close>

definition pi_formats :: "string list" where
  "pi_formats = [''png'', ''jpeg'']"

fun pi_job_format :: "pi_job \<Rightarrow> string" where
  "pi_job_format (PiFetching f fmt) = fmt"
| "pi_job_format (PiUnzipping f fmt) = fmt"

fun pi_enabled :: "pi_event \<Rightarrow> pi_state \<Rightarrow> bool" where
  "pi_enabled (PiFileChange f) s = pi_mounted s"
| "pi_enabled (PiFormatChange v) s = (pi_mounted s \<and> v \<in> set pi_formats)"
| "pi_enabled PiSubmit s = (pi_mounted s \<and> \<not> pi_loading s \<and> pi_selected s \<noteq> None)"
| "pi_enabled (PiFetchSettle i rep) s =
     (i < length (pi_jobs s) \<and> (case pi_jobs s ! i of PiFetching f fmt \<Rightarrow> True | _ \<Rightarrow> False))"
| "pi_enabled (PiUnzipSettle i dec) s =
     (i < length (pi_jobs s) \<and> (case pi_jobs s ! i of PiUnzipping f fmt \<Rightarrow> True | _ \<Rightarrow> False))"
| "pi_enabled PiUnmount s = pi_mounted s"

fun pi_step :: "pi_event \<Rightarrow> pi_conf \<Rightarrow> pi_conf" where
  "pi_step (PiFileChange f) c = pi_commit (pi_handle_file_change f c)"
| "pi_step (PiFormatChange v) c = pi_commit (pi_handle_format_change v c)"
| "pi_step PiSubmit c = pi_commit (pi_handle_submit c)"
| "pi_step (PiFetchSettle i rep) c = pi_commit (pi_fetch_settle i rep c)"
| "pi_step (PiUnzipSettle i dec) c = pi_commit (pi_unzip_settle i dec c)"
| "pi_step PiUnmount c = pi_unmount c"

text \<open>
  Reachable configurations under an environment \<open>env\<close> that says which answers the
  server and the archive may give: \<open>\<lambda>_. True\<close> for all of them, \<open>pi_sound_event\<close> for
  archives whose every file entry inflates.
\<close>

inductive pi_reach :: "(pi_event \<Rightarrow> bool) \<Rightarrow> pi_conf \<Rightarrow> bool" for env where
  init: "pi_reach env pi_init"
| step: "pi_reach env c \<Longrightarrow> pi_enabled e (fst c) \<Longrightarrow> env e \<Longrightarrow> pi_reach env (pi_step e c)"

fun pi_sound_event :: "pi_event \<Rightarrow> bool" where
  "pi_sound_event (PiUnzipSettle i (Inr es)) = (pi_entry_failure es = None)"
| "pi_sound_event e = True"

abbreviation pi_run :: "pi_event list \<Rightarrow> pi_conf \<Rightarrow> pi_conf" where
  "pi_run \<equiv> guarded_run (\<lambda>e c. pi_enabled e (fst c)) pi_step"

section \<open>The decoder's contract and the invariants\<close>

text \<open>
  What the archive decoder promises the form: the file entries that inflate, as pairs of
  name and content, in directory order (directories and failing entries dropped).
\<close>

fun pi_decoded :: "zip_entry list \<Rightarrow> (string \<times> blob) list" where
  "pi_decoded [] = []"
| "pi_decoded (e # es) =
     (if ze_dir e then pi_decoded es
      else (case ze_content e of Inl msg \<Rightarrow> pi_decoded es | Inr b \<Rightarrow> (ze_name e, b) # pi_decoded es))"

text \<open>
  The invariant \<open>pi_inv\<close>: the ledger is well-formed, the state names only minted URLs,
  array identities are fresh, and while mounted the installed effect captured the current
  dependencies and at most one submission is in flight (\<open>pi_flow\<close>). \<open>pi_pre\<close> is
  what holds between a handler and its commit. \<open>pi_tidy\<close>, no leak while mounted, needs
  archives whose entries all inflate.
\<close>

definition pi_urls :: "pi_state \<Rightarrow> url set" where
  "pi_urls s = pi_deps_urls (pi_deps s)"

definition pi_flow :: "pi_state \<Rightarrow> bool" where
  "pi_flow s \<longleftrightarrow>
     (pi_loading s \<longleftrightarrow> pi_jobs s \<noteq> []) \<and> length (pi_jobs s) \<le> 1 \<and>
     (pi_loading s \<longrightarrow> snd (pi_images s) = [])"

fun pi_inv :: "pi_conf \<Rightarrow> bool" where
  "pi_inv (s, r) \<longleftrightarrow>
     registry_wf r \<and> pi_urls s \<subseteq> {..<url_next r} \<and> fst (pi_images s) < pi_next_array s \<and>
     (pi_mounted s \<longrightarrow> pi_effect s = pi_deps s \<and> pi_flow s)"

fun pi_pre :: "pi_conf \<Rightarrow> bool" where
  "pi_pre (s, r) \<longleftrightarrow>
     registry_wf r \<and> pi_urls s \<subseteq> {..<url_next r} \<and> fst (pi_images s) < pi_next_array s \<and>
     (pi_mounted s \<longrightarrow> pi_deps_urls (pi_effect s) \<subseteq> {..<url_next r} \<and> pi_flow s)"

fun pi_tidy :: "pi_conf \<Rightarrow> bool" where
  "pi_tidy (s, r) \<longleftrightarrow> (pi_mounted s \<longrightarrow> live_urls r \<subseteq> pi_urls s)"

fun pi_tidy_pre :: "pi_conf \<Rightarrow> bool" where
  "pi_tidy_pre (s, r) \<longleftrightarrow> (pi_mounted s \<longrightarrow> live_urls r \<subseteq> pi_deps_urls (pi_effect s) \<union> pi_urls s)"


text \<open>
  A URL is orphaned when it is live but neither the state nor the installed effect holds
  it: no cleanup the component runs can revoke it.
\<close>

definition pi_orphan :: "url \<Rightarrow> pi_conf \<Rightarrow> bool" where
  "pi_orphan u c \<longleftrightarrow>
     u \<in> live_urls (snd c) \<and> u \<notin> pi_urls (fst c) \<and> u \<notin> pi_deps_urls (pi_effect (fst c))"

section \<open>Demonstration inputs\<close>

definition pi_demo_pdf :: js_file where
  "pi_demo_pdf = \<lparr>file_name = ''report.pdf'', file_type = ''application/pdf'', file_data = ''PDF''\<rparr>"

definition pi_demo_png :: js_file where
  "pi_demo_png = \<lparr>file_name = ''photo.png'', file_type = ''image/png'', file_data = ''PNG''\<rparr>"

definition pi_demo_other :: js_file where
  "pi_demo_other = \<lparr>file_name = ''notes.pdf'', file_type = ''application/pdf'', file_data = ''PDF2''\<rparr>"

definition pi_demo_pages :: "zip_entry list" where
  "pi_demo_pages = [ZipEntry ''pages/'' True (Inr []), ZipEntry ''page1.png'' False (Inr ''P1''),
                    ZipEntry ''page2.png'' False (Inr ''P2'')]"


definition pi_demo_fetched :: pi_conf where
  "pi_demo_fetched =
     pi_run [PiFileChange (Some pi_demo_pdf), PiSubmit, PiFetchSettle 0 (HttpOk ''ZIP'')] pi_init"

definition pi_demo_decoded :: pi_conf where
  "pi_demo_decoded = pi_run [PiUnzipSettle 0 (Inr pi_demo_pages)] pi_demo_fetched"

definition pi_demo_orphan :: pi_conf where
  "pi_demo_orphan =
     pi_run [PiUnzipSettle 0 (Inr [ZipEntry ''page1.png'' False (Inr ''P1''),
                                   ZipEntry ''page2.png'' False (Inl ''invalid data'')])] pi_demo_fetched"

section \<open>Evaluation rules and the commit\<close>

lemma pi_cleanup_simps [simp]:
  "live_urls (pi_cleanup d r) = live_urls r - pi_deps_urls d"
  "url_next (pi_cleanup d r) = url_next r"
  by (auto simp: pi_cleanup_def pi_deps_urls_def)

lemma pi_cleanup_wf:
  "registry_wf r \<Longrightarrow> pi_deps_urls d \<subseteq> {..<url_next r} \<Longrightarrow> registry_wf (pi_cleanup d r)"
  unfolding pi_cleanup_def pi_deps_urls_def
  by (intro registry_wf_revoke_if_set registry_wf_revoke_each) auto

lemma pi_new_array_simps [simp]:
  "pi_images (pi_new_array xs s) = (pi_next_array s, xs)"
  "pi_next_array (pi_new_array xs s) = Suc (pi_next_array s)"
  "pi_mounted (pi_new_array xs s) = pi_mounted s"
  "pi_effect (pi_new_array xs s) = pi_effect s" "pi_zip (pi_new_array xs s) = pi_zip s"
  "pi_loading (pi_new_array xs s) = pi_loading s" "pi_jobs (pi_new_array xs s) = pi_jobs s"
  "pi_selected (pi_new_array xs s) = pi_selected s" "pi_error (pi_new_array xs s) = pi_error s"
  by (simp_all add: pi_new_array_def)

lemmas pi_inv_simps = pi_urls_def pi_deps_def pi_deps_urls_def pi_flow_def pi_set_def

lemma pi_inv_pre: "pi_inv c \<Longrightarrow> pi_pre c"
  by (cases c) (auto simp: pi_urls_def)

lemma pi_tidy_pre: "pi_inv c \<Longrightarrow> pi_tidy c \<Longrightarrow> pi_tidy_pre c"
  by (cases c) (auto simp: pi_urls_def)

lemma pi_cleanup_store:
  "u \<notin> pi_deps_urls d \<Longrightarrow> url_store (pi_cleanup d r) u = url_store r u"
  by (auto simp: pi_cleanup_def pi_deps_urls_def url_store_revoke_each)

lemma pi_cleanup_revokes:
  "u \<in> pi_deps_urls d \<Longrightarrow> url_store (pi_cleanup d r) u = None"
  by (auto simp: pi_cleanup_def pi_deps_urls_def url_store_revoke_each)

lemma pi_view_effect [simp]: "pi_view (s\<lparr>pi_effect := d\<rparr>) = pi_view s"
  by (simp add: pi_view_def Let_def)

lemma pi_commit_fst:
  "pi_mounted s \<Longrightarrow> pi_view s = Some v \<Longrightarrow> fst (pi_commit (s, r)) = s\<lparr>pi_effect := pi_deps s\<rparr>"
  by (auto simp: effect_commit_def)

lemma pi_commit_images: "pi_images (fst (pi_commit c)) = pi_images (fst c)"
  by (cases c) (auto simp: effect_commit_def split: option.splits prod.splits)

lemma pi_commit_zip: "pi_zip (fst (pi_commit c)) = pi_zip (fst c)"
  by (cases c) (auto simp: effect_commit_def split: option.splits prod.splits)

lemma pi_commit_store:
  "u \<notin> pi_deps_urls (pi_effect s) \<Longrightarrow> url_store (snd (pi_commit (s, r))) u = url_store r u"
  by (auto simp: effect_commit_def pi_cleanup_store split: option.splits)

lemma pi_commit_changed:
  "pi_mounted s \<Longrightarrow> pi_deps s \<noteq> pi_effect s \<Longrightarrow> snd (pi_commit (s, r)) = pi_cleanup (pi_effect s) r"
  by (auto split: option.splits)

lemma pi_commit_inv: "pi_pre c \<Longrightarrow> pi_inv (pi_commit c) \<and> (pi_tidy_pre c \<longrightarrow> pi_tidy (pi_commit c))"
proof (cases c)
  case (Pair s r)
  assume pre: "pi_pre c"
  show ?thesis
  proof (cases "pi_mounted s \<and> pi_view s \<noteq> None")
    case True
    let ?e = "effect_commit pi_cleanup (pi_effect s) (pi_deps s) r"
    from pre Pair True have wf: "registry_wf (snd ?e)"
      by (auto intro: effect_commit_wf pi_cleanup_wf)
    have live: "pi_tidy_pre c \<Longrightarrow> live_urls (snd ?e) \<subseteq> pi_deps_urls (pi_deps s)"
      using Pair True by (intro effect_commit_live) (auto simp: pi_urls_def)
    have nxt: "url_next (snd ?e) = url_next r"
      by (rule effect_commit_next) simp
    have fst: "fst ?e = pi_deps s" by (rule effect_commit_installs)
    obtain d r' where e: "?e = (d, r')" by fastforce
    from True obtain v where "pi_view s = Some v" by auto
    with True e Pair have "pi_commit c = (s\<lparr>pi_effect := d\<rparr>, r')" by simp
    with pre Pair True wf live nxt fst e show ?thesis
      by (simp add: pi_urls_def pi_deps_def pi_flow_def)
  next
    case False
    with pre Pair show ?thesis by (auto intro: pi_cleanup_wf simp: pi_urls_def pi_deps_def)
  qed
qed

section \<open>The invariant is inductive\<close>

lemma pi_file_change_pre:
  "pi_inv c \<Longrightarrow> pi_pre (pi_handle_file_change f c) \<and>
   (pi_tidy c \<longrightarrow> pi_tidy_pre (pi_handle_file_change f c))"
  by (cases c) (auto simp: pi_inv_simps split: option.split)

lemma pi_format_change_pre:
  "pi_inv c \<Longrightarrow> pi_pre (pi_handle_format_change v c) \<and>
   (pi_tidy c \<longrightarrow> pi_tidy_pre (pi_handle_format_change v c))"
  by (cases c) (auto simp: pi_inv_simps)

lemma pi_submit_pre:
  "pi_inv c \<Longrightarrow> \<not> pi_loading (fst c) \<Longrightarrow> pi_pre (pi_handle_submit c) \<and>
   (pi_tidy c \<longrightarrow> pi_tidy_pre (pi_handle_submit c))"
  by (cases c) (auto simp: pi_inv_simps split: option.split)

lemma pi_flow_single:
  "pi_flow s \<Longrightarrow> i < length (pi_jobs s) \<Longrightarrow> i = 0 \<and> pi_jobs s = [pi_jobs s ! 0]"
  by (cases "pi_jobs s") (auto simp: pi_flow_def)

lemma pi_flow_remove:
  "pi_flow s \<Longrightarrow> i < length (pi_jobs s) \<Longrightarrow> remove_nth i (pi_jobs s) = []"
  by (metis pi_flow_single remove_nth_single)

lemma pi_fetch_settle_pre:
  "pi_inv c \<Longrightarrow> pi_pre (pi_fetch_settle i rep c) \<and>
   (pi_tidy c \<longrightarrow> pi_tidy_pre (pi_fetch_settle i rep c))"
proof (cases c)
  case (Pair s r)
  assume inv: "pi_inv c"
  show ?thesis
  proof (cases "i < length (pi_jobs s)")
    case True
    then obtain j where j: "pi_jobs s ! i = j" by simp
    show ?thesis
    proof (cases "pi_mounted s")
      case True
      with inv Pair have fl: "pi_flow s" by simp
      with \<open>i < length (pi_jobs s)\<close> have single: "i = 0" "pi_jobs s = [j]"
        using pi_flow_single j by auto
      with inv Pair True j show ?thesis
        by (cases j; cases "fetch_result ''PDF to Image conversion failed.'' rep")
           (auto simp: pi_inv_simps remove_nth_def)
    next
      case False
      with inv Pair j show ?thesis
        by (cases j; cases "fetch_result ''PDF to Image conversion failed.'' rep")
           (auto simp: pi_inv_simps)
    qed
  next
    case False
    from inv have "pi_pre c" by (rule pi_inv_pre)
    moreover from inv have "pi_tidy c \<Longrightarrow> pi_tidy_pre c" by (rule pi_tidy_pre)
    ultimately show ?thesis using Pair False by simp
  qed
qed

text \<open>Minting the previews refines the decoder's contract.\<close>

lemma pi_mint_entries_registry:
  assumes "pi_mint_entries es r = (imgs, r')" "registry_wf r"
  shows "registry_wf r' \<and> url_next r \<le> url_next r' \<and> url_revoked r' = url_revoked r \<and>
         live_urls r' = live_urls r \<union> snd ` set imgs \<and> snd ` set imgs \<subseteq> {url_next r..<url_next r'} \<and>
         (\<forall>u < url_next r. url_store r' u = url_store r u)"
  using assms
proof (induction es r arbitrary: imgs r' rule: pi_mint_entries.induct)
  case (1 r)
  then show ?case by simp
next
  case (2 e es r)
  show ?case
  proof (cases "ze_dir e")
    case True
    with "2.IH"(1) "2.prems" show ?thesis by simp
  next
    case False
    show ?thesis
    proof (cases "ze_content e")
      case (Inl msg)
      with False "2.IH"(2) "2.prems" show ?thesis by simp
    next
      case (Inr b)
      let ?r1 = "snd (create_object_url b r)"
      obtain xs r2 where rest: "pi_mint_entries es ?r1 = (xs, r2)" by fastforce
      with "2.prems" False Inr have imgs: "imgs = (ze_name e, url_next r) # xs" and r2: "r' = r2"
        by simp_all
      have wf1: "registry_wf ?r1" using "2.prems"(2) by blast
      have cr: "(url_next r, ?r1) = create_object_url b r" by (simp add: create_object_url_def)
      from "2.IH"(3) [OF False Inr cr rest wf1] have ih:
        "registry_wf r2 \<and> url_next ?r1 \<le> url_next r2 \<and> url_revoked r2 = url_revoked ?r1 \<and>
         live_urls r2 = live_urls ?r1 \<union> snd ` set xs \<and> snd ` set xs \<subseteq> {url_next ?r1..<url_next r2} \<and>
         (\<forall>u < url_next ?r1. url_store r2 u = url_store ?r1 u)"
        by simp
      then show ?thesis using imgs r2 by auto
    qed
  qed
qed

lemma pi_mint_entries_decoded:
  assumes "pi_mint_entries es r = (imgs, r')" "registry_wf r"
  shows "map (\<lambda>(n, u). (n, url_store r' u)) imgs = map (\<lambda>(n, b). (n, Some b)) (pi_decoded es)"
  using assms
proof (induction es r arbitrary: imgs r' rule: pi_mint_entries.induct)
  case (1 r)
  then show ?case by simp
next
  case (2 e es r)
  show ?case
  proof (cases "ze_dir e")
    case True
    with "2.IH"(1) "2.prems" show ?thesis by simp
  next
    case False
    show ?thesis
    proof (cases "ze_content e")
      case (Inl msg)
      with False "2.IH"(2) "2.prems" show ?thesis by simp
    next
      case (Inr b)
      let ?r1 = "snd (create_object_url b r)"
      obtain xs r2 where rest: "pi_mint_entries es ?r1 = (xs, r2)" by fastforce
      with "2.prems" False Inr have imgs: "imgs = (ze_name e, url_next r) # xs" and r2: "r' = r2"
        by simp_all
      have wf1: "registry_wf ?r1" using "2.prems"(2) by blast
      have cr: "(url_next r, ?r1) = create_object_url b r" by (simp add: create_object_url_def)
      have ih: "map (\<lambda>(n, u). (n, url_store r2 u)) xs = map (\<lambda>(n, b). (n, Some b)) (pi_decoded es)"
        by (rule "2.IH"(3) [OF False Inr cr rest wf1])
      have "url_store r2 (url_next r) = Some b"
        using pi_mint_entries_registry [OF rest wf1] by simp
      with ih imgs r2 False Inr show ?thesis by simp
    qed
  qed
qed

lemma pi_urls_simps [simp]:
  "pi_urls (s\<lparr>pi_jobs := js\<rparr>) = pi_urls s" "pi_urls (s\<lparr>pi_error := e\<rparr>) = pi_urls s"
  "pi_urls (s\<lparr>pi_loading := b\<rparr>) = pi_urls s" "pi_urls (s\<lparr>pi_effect := d\<rparr>) = pi_urls s"
  "pi_urls (s\<lparr>pi_mounted := b\<rparr>) = pi_urls s"
  by (simp_all add: pi_urls_def pi_deps_def)

lemma pi_pre_grow:
  "pi_pre (s, r) \<Longrightarrow> registry_wf r' \<Longrightarrow> url_next r \<le> url_next r' \<Longrightarrow> pi_pre (s, r')"
  by (auto simp del: lessThan_subset_iff intro: order_trans)

lemma pi_pre_jobs_unmounted:
  "\<not> pi_mounted s \<Longrightarrow> pi_pre (s, r) \<Longrightarrow> pi_pre (s\<lparr>pi_jobs := js\<rparr>, r)"
  by (simp add: pi_urls_def pi_deps_def)

lemma pi_pre_finish_error:
  "pi_mounted s \<Longrightarrow> pi_pre (s, r) \<Longrightarrow>
   pi_pre (s\<lparr>pi_jobs := [], pi_error := e, pi_loading := False\<rparr>, r)"
  by (simp add: pi_urls_def pi_deps_def pi_flow_def)

lemma pi_pre_finish_pages:
  "pi_mounted s \<Longrightarrow> pi_pre (s, r) \<Longrightarrow> snd ` set imgs \<subseteq> {..<url_next r} \<Longrightarrow>
   pi_pre ((pi_new_array imgs (s\<lparr>pi_jobs := []\<rparr>))\<lparr>pi_loading := False\<rparr>, r)"
  by (simp add: pi_urls_def pi_deps_def pi_deps_urls_def pi_flow_def)

lemma pi_tidy_pre_same_urls:
  "pi_inv (s, r) \<Longrightarrow> pi_tidy (s, r) \<Longrightarrow> pi_mounted s' = pi_mounted s \<Longrightarrow>
   pi_effect s' = pi_effect s \<Longrightarrow> pi_urls s' = pi_urls s \<Longrightarrow> pi_tidy_pre (s', r)"
  by (simp add: pi_urls_def)

lemma pi_tidy_pre_finish_pages:
  "pi_inv (s, r) \<Longrightarrow> pi_tidy (s, r) \<Longrightarrow> live_urls r' = live_urls r \<union> snd ` set imgs \<Longrightarrow>
   pi_tidy_pre ((pi_new_array imgs (s\<lparr>pi_jobs := []\<rparr>))\<lparr>pi_loading := False\<rparr>, r')"
  by (auto simp: pi_urls_def pi_deps_def pi_deps_urls_def)

lemma pi_unzip_settle_pre:
  assumes inv: "pi_inv c"
  shows "pi_pre (pi_unzip_settle i dec c) \<and>
         (pi_tidy c \<longrightarrow> pi_sound_event (PiUnzipSettle i dec) \<longrightarrow> pi_tidy_pre (pi_unzip_settle i dec c))"
proof (cases c)
  case (Pair s r)
  have pre: "pi_pre (s, r)" using pi_inv_pre [OF inv] unfolding Pair .
  show ?thesis
  proof (cases "i < length (pi_jobs s) \<and> (case pi_jobs s ! i of PiUnzipping f fmt \<Rightarrow> True | _ \<Rightarrow> False)")
    case True
    have len: "i < length (pi_jobs s)" using True by simp
    have rm: "pi_mounted s \<Longrightarrow> remove_nth i (pi_jobs s) = []"
      using inv Pair pi_flow_remove [OF _ len] by simp
    let ?s1 = "s\<lparr>pi_jobs := remove_nth i (pi_jobs s)\<rparr>"
    have fail: "pi_pre (pi_set (\<lambda>t. t\<lparr>pi_error := Some msg, pi_loading := False\<rparr>) ?s1, r)" for msg
    proof (cases "pi_mounted s")
      case True
      with pre rm show ?thesis using pi_pre_finish_error [of s r "Some msg"] by (simp add: pi_set_def)
    qed (use pre pi_pre_jobs_unmounted in \<open>simp add: pi_set_def\<close>)
    show ?thesis
    proof (cases dec)
      case (Inl msg)
      have res: "pi_unzip_settle i dec c = (pi_set (\<lambda>t. t\<lparr>pi_error := Some msg, pi_loading := False\<rparr>) ?s1, r)"
        using Pair True Inl by simp
      have "pi_tidy c \<Longrightarrow> pi_tidy_pre (pi_set (\<lambda>t. t\<lparr>pi_error := Some msg, pi_loading := False\<rparr>) ?s1, r)"
        using inv Pair by (intro pi_tidy_pre_same_urls [of s r]) (auto simp: pi_set_def pi_urls_def pi_deps_def)
      with fail res show ?thesis by simp
    next
      case (Inr es)
      obtain imgs r' where mint: "pi_mint_entries es r = (imgs, r')" by fastforce
      from inv Pair have wf: "registry_wf r" by simp
      from pi_mint_entries_registry [OF mint wf] have wf': "registry_wf r'"
        and nxt: "url_next r \<le> url_next r'" and live: "live_urls r' = live_urls r \<union> snd ` set imgs"
        and new: "snd ` set imgs \<subseteq> {url_next r..<url_next r'}"
        by simp_all
      show ?thesis
      proof (cases "pi_entry_failure es")
        case None
        let ?s2 = "pi_set (\<lambda>t. (pi_new_array imgs t)\<lparr>pi_loading := False\<rparr>) ?s1"
        have res: "pi_unzip_settle i dec c = (?s2, r')"
          using Pair True Inr mint None by simp
        have "pi_pre (?s2, r') \<and> (pi_tidy c \<longrightarrow> pi_tidy_pre (?s2, r'))"
        proof (cases "pi_mounted s")
          case True
          from pre wf' nxt have "pi_pre (s, r')" by (rule pi_pre_grow)
          with True new have "pi_pre ((pi_new_array imgs (s\<lparr>pi_jobs := []\<rparr>))\<lparr>pi_loading := False\<rparr>, r')"
            by (intro pi_pre_finish_pages) auto
          moreover have "pi_tidy c \<Longrightarrow>
              pi_tidy_pre ((pi_new_array imgs (s\<lparr>pi_jobs := []\<rparr>))\<lparr>pi_loading := False\<rparr>, r')"
            using inv Pair live by (intro pi_tidy_pre_finish_pages) simp_all
          ultimately show ?thesis using True rm by (simp add: pi_set_def)
        next
          case False
          from pre wf' nxt have "pi_pre (s, r')" by (rule pi_pre_grow)
          with False show ?thesis by (simp add: pi_set_def pi_pre_jobs_unmounted)
        qed
        with res show ?thesis by simp
      next
        case (Some msg)
        have res: "pi_unzip_settle i dec c =
            (pi_set (\<lambda>t. t\<lparr>pi_error := Some msg, pi_loading := False\<rparr>) ?s1, r')"
          using Pair True Inr mint Some by simp
        have "pi_pre (pi_set (\<lambda>t. t\<lparr>pi_error := Some msg, pi_loading := False\<rparr>) ?s1, r')"
          by (rule pi_pre_grow [OF fail wf' nxt])
        with res Inr Some show ?thesis by simp
      qed
    qed
  next
    case False
    from Pair have "pi_unzip_settle i dec c = c"
      by (simp only: pi_unzip_settle.simps if_not_P [OF False])
    moreover from inv have "pi_pre c" by (rule pi_inv_pre)
    moreover from inv have "pi_tidy c \<Longrightarrow> pi_tidy_pre c" by (rule pi_tidy_pre)
    ultimately show ?thesis by simp
  qed
qed

lemma pi_unmount_inv:
  "pi_inv c \<Longrightarrow> pi_mounted (fst c) \<Longrightarrow> pi_inv (pi_unmount c) \<and> pi_tidy (pi_unmount c)"
  by (cases c) (auto simp: pi_urls_def pi_deps_def intro!: pi_cleanup_wf)

lemma pi_step_inv:
  assumes "pi_inv c" "pi_enabled e (fst c)"
  shows "pi_inv (pi_step e c) \<and> (pi_tidy c \<longrightarrow> pi_sound_event e \<longrightarrow> pi_tidy (pi_step e c))"
proof (cases e)
  case (PiFileChange f)
  with assms pi_file_change_pre [of c f] show ?thesis by (simp add: pi_commit_inv)
next
  case (PiFormatChange v)
  with assms pi_format_change_pre [of c v] show ?thesis by (simp add: pi_commit_inv)
next
  case PiSubmit
  with assms pi_submit_pre [of c] show ?thesis by (simp add: pi_commit_inv)
next
  case (PiFetchSettle i rep)
  with assms pi_fetch_settle_pre [of c i rep] show ?thesis by (simp add: pi_commit_inv)
next
  case (PiUnzipSettle i dec)
  with assms pi_unzip_settle_pre [of c i dec] show ?thesis by (simp add: pi_commit_inv)
next
  case PiUnmount
  with assms show ?thesis by (simp add: pi_unmount_inv)
qed

lemma pi_reach_inv: "pi_reach env c \<Longrightarrow> pi_inv c"
proof (induction rule: pi_reach.induct)
  case init
  show ?case by (simp add: pi_init_def pi_inv_simps)
next
  case (step c e)
  with pi_step_inv show ?case by blast
qed

lemma pi_reach_tidy: "pi_reach pi_sound_event c \<Longrightarrow> pi_tidy c"
proof (induction rule: pi_reach.induct)
  case init
  show ?case by (simp add: pi_init_def)
next
  case (step c e)
  from step.hyps(1) have "pi_inv c" by (rule pi_reach_inv)
  with step pi_step_inv show ?case by blast
qed

lemma pi_reach_invD:
  assumes "pi_reach env (s, r)"
  shows "registry_wf r" "pi_urls s \<subseteq> {..<url_next r}" "fst (pi_images s) < pi_next_array s"
    and "pi_mounted s \<Longrightarrow> pi_effect s = pi_deps s" "pi_mounted s \<Longrightarrow> pi_flow s"
  using pi_reach_inv [OF assms] by auto

lemma pi_step_formats:
  assumes "pi_format (fst c) \<in> set pi_formats" "\<forall>j \<in> set (pi_jobs (fst c)). pi_job_format j \<in> set pi_formats"
    and "pi_enabled e (fst c)"
  shows "pi_format (fst (pi_step e c)) \<in> set pi_formats \<and>
         (\<forall>j \<in> set (pi_jobs (fst (pi_step e c))). pi_job_format j \<in> set pi_formats)"
proof -
  have c: "pi_format (fst (pi_commit d)) = pi_format (fst d)" "pi_jobs (fst (pi_commit d)) = pi_jobs (fst d)" for d
    by (cases d; auto simp: effect_commit_def split: option.split prod.split)+
  have u: "pi_format (fst (pi_unmount d)) = pi_format (fst d)" "pi_jobs (fst (pi_unmount d)) = pi_jobs (fst d)" for d
    by (cases d; simp)+
  have upd: "pi_job_format j \<in> set pi_formats"
    if "j \<in> set (xs[i := PiUnzipping f fmt])" "i < length xs" "xs ! i = PiFetching f fmt"
      "\<forall>j \<in> set xs. pi_job_format j \<in> set pi_formats" for j xs i f fmt
  proof -
    from that(2) have "xs ! i \<in> set xs" by simp
    with that(3,4) have "fmt \<in> set pi_formats" by force
    with that(1,4) show ?thesis using set_update_subset_insert [of xs i "PiUnzipping f fmt"] by auto
  qed
  show ?thesis
    using assms
    by (cases c; cases e rule: pi_event.exhaust)
       (auto simp: c u pi_set_def pi_new_array_def Let_def
             split: option.split sum.split prod.split pi_job.split
             dest: set_remove_nth_subset [THEN subsetD] intro: upd)
qed

lemma pi_reach_formats:
  "pi_reach env c \<Longrightarrow> pi_format (fst c) \<in> set pi_formats \<and>
     (\<forall>j \<in> set (pi_jobs (fst c)). pi_job_format j \<in> set pi_formats)"
proof (induction rule: pi_reach.induct)
  case init
  then show ?case by (simp add: pi_init_def pi_formats_def)
next
  case (step c e)
  then show ?case using pi_step_formats [of c e] by blast
qed

lemma pi_reach_run: "pi_reach env c \<Longrightarrow> list_all env es \<Longrightarrow> pi_reach env (pi_run es c)"
  by (rule guarded_run_closed [where Q = env]) (simp_all add: pi_reach.step)

lemma pi_unzip_success:
  assumes "pi_mounted s" "pi_jobs s = [PiUnzipping f fmt]" "pi_entry_failure es = None"
    and "pi_mint_entries es r = (imgs, r')"
  shows "pi_unzip_settle 0 (Inr es) (s, r) = ((pi_new_array imgs (s\<lparr>pi_jobs := []\<rparr>))\<lparr>pi_loading := False\<rparr>, r')"
  using assms by (simp add: pi_set_def remove_nth_def)

lemma pi_mint_entries_Nil:
  "pi_mint_entries es r = (imgs, r') \<Longrightarrow> registry_wf r \<Longrightarrow> pi_decoded es = [] \<Longrightarrow> imgs = []"
  using pi_mint_entries_decoded [of es r imgs r'] by simp

lemma map_fst_mint_entries:
  "pi_mint_entries es r = (imgs, r') \<Longrightarrow> registry_wf r \<Longrightarrow> map fst imgs = map fst (pi_decoded es)"
  using arg_cong [OF pi_mint_entries_decoded, of es r imgs r' "map fst"] by (simp add: case_prod_beta comp_def)

section \<open>Orphaned URLs and finished submissions\<close>

lemma pi_commit_orphan:
  assumes "pi_orphan u c"
  shows "pi_orphan u (pi_commit c) \<and> url_store (snd (pi_commit c)) u = url_store (snd c) u"
proof (cases c)
  case (Pair s r)
  with assms have st: "url_store (snd (pi_commit c)) u = url_store r u"
    using pi_commit_store [of u s r] by (simp add: pi_orphan_def del: pi_commit.simps)
  have "pi_urls (fst (pi_commit c)) = pi_urls s"
    using Pair pi_commit_images [of c] pi_commit_zip [of c] by (simp add: pi_urls_def pi_deps_def del: pi_commit.simps)
  moreover have "pi_effect (fst (pi_commit c)) \<in> {pi_effect s, pi_deps s}"
    using Pair by (auto simp: effect_commit_def split: option.splits)
  ultimately show ?thesis using assms Pair st
    by (auto simp: live_urls_def pi_urls_def pi_orphan_def simp del: pi_commit.simps)
qed

lemma pi_handlers_orphan:
  assumes "pi_orphan u c"
  shows "pi_orphan u (pi_handle_file_change fo c) \<and> snd (pi_handle_file_change fo c) = snd c"
    "pi_orphan u (pi_handle_format_change v c) \<and> snd (pi_handle_format_change v c) = snd c"
    "pi_orphan u (pi_handle_submit c) \<and> snd (pi_handle_submit c) = snd c"
  using assms by (cases c; auto simp: pi_orphan_def pi_inv_simps split: option.splits)+

lemma pi_orphan_lt: "pi_inv c \<Longrightarrow> pi_orphan u c \<Longrightarrow> u < url_next (snd c)"
  by (cases c) (auto simp: pi_orphan_def registry_wf_def)

lemma pi_fetch_settle_orphan:
  assumes "pi_inv c" "pi_orphan u c"
  shows "pi_orphan u (pi_fetch_settle i rep c) \<and>
         url_store (snd (pi_fetch_settle i rep c)) u = url_store (snd c) u"
proof (cases c)
  case (Pair s r)
  from assms Pair have "u < url_next r" using pi_orphan_lt by fastforce
  with assms Pair show ?thesis
    by (auto simp: pi_orphan_def pi_inv_simps live_urls_def split: pi_job.split sum.split)
qed

lemma pi_unzip_settle_orphan:
  assumes "pi_inv c" "pi_orphan u c"
  shows "pi_orphan u (pi_unzip_settle i dec c) \<and>
         url_store (snd (pi_unzip_settle i dec c)) u = url_store (snd c) u"
proof (cases c)
  case (Pair s r)
  from assms Pair have wf: "registry_wf r" and lt: "u < url_next r"
    using pi_orphan_lt by fastforce+
  show ?thesis
  proof (cases dec)
    case (Inl msg)
    with assms Pair show ?thesis by (auto simp: pi_orphan_def pi_inv_simps Let_def)
  next
    case (Inr es)
    obtain imgs r' where mint: "pi_mint_entries es r = (imgs, r')" by fastforce
    from pi_mint_entries_registry [OF mint wf] lt have st: "url_store r' u = url_store r u"
      and fresh: "u \<notin> snd ` set imgs" by auto
    from st have live: "u \<in> live_urls r' \<longleftrightarrow> u \<in> live_urls r" by (simp add: live_urls_def domIff)
    from assms Pair Inr mint st live fresh show ?thesis
      by (auto simp: pi_orphan_def pi_inv_simps Let_def split: option.split)
  qed
qed

lemma pi_step_orphan:
  assumes "pi_inv c" "pi_orphan u c"
  shows "pi_orphan u (pi_step e c) \<and> url_store (snd (pi_step e c)) u = url_store (snd c) u"
proof (cases e)
  case PiUnmount
  with assms show ?thesis
    by (cases c) (auto simp: pi_orphan_def pi_cleanup_store live_urls_def pi_urls_def pi_deps_def)
qed (use assms pi_commit_orphan pi_handlers_orphan pi_fetch_settle_orphan pi_unzip_settle_orphan
     in \<open>(simp del: pi_commit.simps; metis)+\<close>)

lemma pi_run_orphan:
  "pi_inv c \<Longrightarrow> pi_orphan u c \<Longrightarrow>
   pi_orphan u (pi_run es c) \<and> url_store (snd (pi_run es c)) u = url_store (snd c) u"
proof (induction es arbitrary: c)
  case Nil
  then show ?case by simp
next
  case (Cons e es)
  show ?case
  proof (cases "pi_enabled e (fst c)")
    case True
    with Cons.prems have "pi_inv (pi_step e c)" using pi_step_inv by blast
    with Cons True pi_step_orphan [OF Cons.prems] show ?thesis by simp
  next
    case False
    with Cons show ?thesis by simp
  qed
qed

lemma pi_commit_progress:
  "pi_jobs (fst (pi_commit c)) = pi_jobs (fst c)" "pi_loading (fst (pi_commit c)) = pi_loading (fst c)"
  "pi_mounted (fst (pi_commit c)) \<Longrightarrow> pi_mounted (fst c)"
  by (cases c; auto simp: effect_commit_def split: option.splits prod.splits if_splits)+

lemma pi_unzip_settle_done:
  assumes "pi_jobs (fst c) = [PiUnzipping f fmt]"
  shows "pi_jobs (fst (pi_step (PiUnzipSettle 0 dec) c)) = [] \<and>
         (pi_mounted (fst (pi_step (PiUnzipSettle 0 dec) c)) \<longrightarrow> \<not> pi_loading (fst (pi_step (PiUnzipSettle 0 dec) c)))"
proof (cases c)
  case (Pair s r)
  have "pi_jobs (fst (pi_unzip_settle 0 dec c)) = [] \<and>
        (pi_mounted (fst (pi_unzip_settle 0 dec c)) \<longrightarrow> \<not> pi_loading (fst (pi_unzip_settle 0 dec c)))"
    using assms Pair
    by (auto simp: pi_set_def remove_nth_def Let_def split: sum.split option.split prod.split)
  then show ?thesis using pi_commit_progress [of "pi_unzip_settle 0 dec c"] by simp
qed

lemma pi_fetch_settle_done:
  assumes "pi_jobs (fst c) = [PiFetching f fmt]" "pi_mounted (fst c)"
  shows "(pi_jobs (fst (pi_step (PiFetchSettle 0 rep) c)) = [] \<and>
          (pi_mounted (fst (pi_step (PiFetchSettle 0 rep) c)) \<longrightarrow> \<not> pi_loading (fst (pi_step (PiFetchSettle 0 rep) c)))) \<or>
         pi_jobs (fst (pi_step (PiFetchSettle 0 rep) c)) = [PiUnzipping f fmt]"
proof (cases c)
  case (Pair s r)
  have "(pi_jobs (fst (pi_fetch_settle 0 rep c)) = [] \<and> \<not> pi_loading (fst (pi_fetch_settle 0 rep c))) \<or>
        pi_jobs (fst (pi_fetch_settle 0 rep c)) = [PiUnzipping f fmt]"
    using assms Pair
    by (auto simp: pi_set_def remove_nth_def split: sum.split prod.split)
  then show ?thesis using pi_commit_progress [of "pi_fetch_settle 0 rep c"] by auto
qed

lemmas pi_eval = pi_init_def pi_deps_def pi_cleanup_def pi_set_def pi_new_array_def Let_def
  remove_nth_def pi_view_def pi_demo_pdf_def pi_demo_png_def pi_demo_pages_def revoke_each_def
  pi_demo_fetched_def pi_demo_decoded_def pi_demo_orphan_def pi_demo_other_def

lemma pi_demo_reach:
  "pi_reach pi_sound_event pi_demo_fetched" "pi_reach pi_sound_event pi_demo_decoded"
proof -
  show f: "pi_reach pi_sound_event pi_demo_fetched"
    unfolding pi_demo_fetched_def by (rule pi_reach_run [OF pi_reach.init]) simp
  show "pi_reach pi_sound_event pi_demo_decoded"
    unfolding pi_demo_decoded_def by (rule pi_reach_run [OF f]) (simp add: pi_demo_pages_def)
qed

section \<open>Properties of the PDF-to-images session\<close>

text \<open>
  C19. On archives whose every file entry inflates, no object URL leaks while the form is
  mounted: every live URL is the ZIP's URL or one of the page previews the state holds.
\<close>

theorem pi_no_leak_while_mounted:
  "pi_reach pi_sound_event c \<Longrightarrow> pi_mounted (fst c) \<Longrightarrow>
   live_urls (snd c) \<subseteq> snd ` set (snd (pi_images (fst c))) \<union> set_option (pi_zip (fst c))"
  using pi_reach_tidy [of c] by (cases c) (auto simp: pi_urls_def pi_deps_def pi_deps_urls_def)

theorem pi_no_leak_while_mounted_witness:
  "pi_mounted (fst pi_demo_decoded) \<and> live_urls (snd pi_demo_decoded) \<subseteq> {0, 1, 2}"
proof -
  have m: "pi_mounted (fst pi_demo_decoded)" by (simp add: pi_eval)
  have i: "snd ` set (snd (pi_images (fst pi_demo_decoded))) \<union> set_option (pi_zip (fst pi_demo_decoded))
             = {0, 1, 2}"
    by (simp add: pi_eval insert_commute numeral_2_eq_2)
  show ?thesis using pi_no_leak_while_mounted [OF pi_demo_reach(2) m] m i by simp
qed

text \<open>
  C20. A successful decode revokes the ZIP's URL while the form still links to it: storing
  the page previews changes the effect's dependencies, so the cleanup of the previous effect
  revokes the ZIP URL it captured, and the "Download All as ZIP" link points to a dead URL.
\<close>

theorem pi_zip_revoked_after_decode:
  assumes "pi_reach env c" "pi_mounted (fst c)" "pi_jobs (fst c) = [PiUnzipping f fmt]"
    and "pi_zip (fst c) = Some z" "pi_entry_failure es = None"
  shows "pi_zip (fst (pi_step (PiUnzipSettle 0 (Inr es)) c)) = Some z \<and>
         url_store (snd (pi_step (PiUnzipSettle 0 (Inr es)) c)) z = None"
proof (cases c)
  case (Pair s r)
  from assms Pair have eff: "pi_effect s = pi_deps s"
    and ids: "fst (pi_images s) < pi_next_array s"
    using pi_reach_invD by auto
  obtain imgs r' where mint: "pi_mint_entries es r = (imgs, r')" by fastforce
  let ?s1 = "(pi_new_array imgs (s\<lparr>pi_jobs := []\<rparr>))\<lparr>pi_loading := False\<rparr>"
  from assms Pair mint have st: "pi_step (PiUnzipSettle 0 (Inr es)) c = pi_commit (?s1, r')"
    using pi_unzip_success by simp
  have "(pi_next_array s, imgs) \<noteq> pi_images s" using ids by (metis fst_conv less_irrefl)
  with eff have neq: "pi_deps ?s1 \<noteq> pi_effect ?s1" by (simp add: pi_deps_def)
  have m: "pi_mounted ?s1" using assms Pair by simp
  have zin: "z \<in> pi_deps_urls (pi_effect ?s1)"
    using eff assms Pair by (simp add: pi_deps_def pi_deps_urls_def)
  show ?thesis
    using st pi_commit_changed [OF m neq, of r'] pi_commit_zip [of "(?s1, r')"]
      pi_cleanup_revokes [OF zin] assms Pair
    by simp
qed

theorem pi_zip_revoked_after_decode_witness:
  "pi_zip (fst (pi_step (PiUnzipSettle 0 (Inr pi_demo_pages)) pi_demo_fetched)) = Some 0 \<and>
   url_store (snd (pi_step (PiUnzipSettle 0 (Inr pi_demo_pages)) pi_demo_fetched)) 0 = None"
proof -
  have h: "pi_mounted (fst pi_demo_fetched)"
    "pi_jobs (fst pi_demo_fetched) = [PiUnzipping pi_demo_pdf ''png'']"
    "pi_zip (fst pi_demo_fetched) = Some 0" "pi_entry_failure pi_demo_pages = None"
    by (simp_all add: pi_eval)
  show ?thesis using pi_zip_revoked_after_decode [OF pi_demo_reach(1) h] by simp
qed

text \<open>
  C21. When one entry of the archive fails to inflate, the pages that did inflate are
  orphaned for good: from every reachable mounted state waiting for the archive, the decode
  reports the failing entry's message, and after it, whatever events follow (another file,
  another conversion, unmount), every URL minted for an inflated entry still resolves to its
  content and no state holds it: \<open>Promise.all\<close> rejects after the URLs were minted and
  no cleanup can reach them.
\<close>

theorem pi_entry_failure_orphans:
  assumes "pi_reach env c" "pi_mounted (fst c)" "pi_jobs (fst c) = [PiUnzipping f fmt]"
    and "pi_entry_failure es = Some msg" "pi_mint_entries es (snd c) = (imgs, r')"
  shows "pi_mounted (fst (pi_step (PiUnzipSettle 0 (Inr es)) c)) \<and>
         pi_error (fst (pi_step (PiUnzipSettle 0 (Inr es)) c)) = Some msg \<and>
         map (\<lambda>(n, u). (n, url_store (snd (pi_run later (pi_step (PiUnzipSettle 0 (Inr es)) c))) u)) imgs =
           map (\<lambda>(n, b). (n, Some b)) (pi_decoded es) \<and>
         snd ` set imgs \<inter> pi_urls (fst (pi_run later (pi_step (PiUnzipSettle 0 (Inr es)) c))) = {}"
proof (cases c)
  case (Pair s r)
  from assms Pair have inv: "pi_inv c" and wf: "registry_wf r" and urls: "pi_urls s \<subseteq> {..<url_next r}"
    and eff: "pi_effect s = pi_deps s" and fl: "pi_flow s"
    using pi_reach_inv pi_reach_invD by auto
  from fl assms Pair have noimg: "snd (pi_images s) = []" by (simp add: pi_flow_def)
  let ?s1 = "s\<lparr>pi_jobs := [], pi_error := Some msg, pi_loading := False\<rparr>"
  have u1: "pi_unzip_settle 0 (Inr es) c = (?s1, r')"
    using assms Pair by (simp add: pi_set_def remove_nth_def)
  have v: "pi_view ?s1 \<noteq> None" using noimg by (simp add: pi_view_def)
  then have m: "pi_mounted (fst (pi_commit (?s1, r')))" "pi_error (fst (pi_commit (?s1, r'))) = Some msg"
    using assms Pair by (auto simp: effect_commit_def split: option.splits prod.splits)
  have st: "pi_step (PiUnzipSettle 0 (Inr es)) c = pi_commit (?s1, r')" using u1 by simp
  from pi_mint_entries_registry [OF assms(5) [unfolded Pair snd_conv] wf]
  have reg: "snd ` set imgs \<subseteq> live_urls r' \<inter> {url_next r..<url_next r'}" by auto
  have inv1: "pi_inv (pi_step (PiUnzipSettle 0 (Inr es)) c)"
  proof -
    have "pi_enabled (PiUnzipSettle 0 (Inr es)) (fst c)" using assms by simp
    from pi_step_inv [OF inv this] show ?thesis by blast
  qed
  have orph: "pi_orphan u (pi_step (PiUnzipSettle 0 (Inr es)) c) \<and>
              url_store (snd (pi_step (PiUnzipSettle 0 (Inr es)) c)) u = url_store r' u"
    if "u \<in> snd ` set imgs" for u
  proof -
    from that reg have "url_next r \<le> u" "u \<in> live_urls r'" by auto
    with urls have "u \<notin> pi_urls s" by auto
    with eff \<open>u \<in> live_urls r'\<close> have "pi_orphan u (?s1, r')"
      by (simp add: pi_orphan_def pi_urls_def pi_deps_def)
    with st show ?thesis using pi_commit_orphan [of u "(?s1, r')"] by (simp del: pi_commit.simps)
  qed
  have fin: "pi_orphan u (pi_run later (pi_step (PiUnzipSettle 0 (Inr es)) c)) \<and>
             url_store (snd (pi_run later (pi_step (PiUnzipSettle 0 (Inr es)) c))) u = url_store r' u"
    if "u \<in> snd ` set imgs" for u
    using pi_run_orphan [OF inv1, of u later] orph [OF that] by simp
  have "map (\<lambda>(n, u). (n, url_store (snd (pi_run later (pi_step (PiUnzipSettle 0 (Inr es)) c))) u)) imgs =
        map (\<lambda>(n, u). (n, url_store r' u)) imgs"
  proof (rule map_cong [OF refl])
    fix x assume "x \<in> set imgs"
    then have "snd x \<in> snd ` set imgs" by simp
    from fin [OF this] show "(case x of (n, u) \<Rightarrow> (n, url_store (snd (pi_run later (pi_step (PiUnzipSettle 0 (Inr es)) c))) u)) =
        (case x of (n, u) \<Rightarrow> (n, url_store r' u))"
      by (cases x) (simp del: pi_step.simps)
  qed
  also have "\<dots> = map (\<lambda>(n, b). (n, Some b)) (pi_decoded es)"
    using pi_mint_entries_decoded [OF assms(5) [unfolded Pair snd_conv] wf] .
  finally show ?thesis using m st fin by (auto simp: pi_orphan_def simp del: pi_step.simps pi_commit.simps)
qed

theorem pi_entry_failure_orphans_witness:
  "url_store (snd (pi_run [PiFileChange (Some pi_demo_other), PiUnmount] pi_demo_orphan)) 1 = Some ''P1'' \<and>
   1 \<notin> pi_urls (fst (pi_run [PiFileChange (Some pi_demo_other), PiUnmount] pi_demo_orphan))"
proof -
  let ?es = "[ZipEntry ''page1.png'' False (Inr ''P1''), ZipEntry ''page2.png'' False (Inl ''invalid data'')]"
  let ?X = "pi_run [PiFileChange (Some pi_demo_other), PiUnmount]
              (pi_step (PiUnzipSettle 0 (Inr ?es)) pi_demo_fetched)"
  have h: "pi_mounted (fst pi_demo_fetched)" "pi_jobs (fst pi_demo_fetched) = [PiUnzipping pi_demo_pdf ''png'']"
    "pi_entry_failure ?es = Some ''invalid data''"
    "pi_mint_entries ?es (snd pi_demo_fetched) = ([(''page1.png'', 1)], snd (pi_mint_entries ?es (snd pi_demo_fetched)))"
    by (simp_all add: pi_eval)
  have o: "pi_demo_orphan = pi_step (PiUnzipSettle 0 (Inr ?es)) pi_demo_fetched"
    using h(1,2) by (simp add: pi_demo_orphan_def)
  from pi_entry_failure_orphans [OF pi_demo_reach(1) h, of "[PiFileChange (Some pi_demo_other), PiUnmount]"]
  have A: "map (\<lambda>(n, u). (n, url_store (snd ?X) u)) [(''page1.png'', 1)] =
           map (\<lambda>(n, b). (n, Some b)) (pi_decoded ?es)"
    and B: "snd ` set [(''page1.png'', 1::nat)] \<inter> pi_urls (fst ?X) = {}"
    by blast+
  have D: "pi_decoded ?es = [(''page1.png'', ''P1'')]" by simp
  from A D have "url_store (snd ?X) 1 = Some ''P1''"
    by (simp only: list.map prod.case list.inject prod.inject simp_thms)
  moreover from B have "1 \<notin> pi_urls (fst ?X)" by (simp only: list.set image_insert image_empty snd_conv) blast
  ultimately show ?thesis unfolding o by blast
qed

text \<open>
  C22. Choosing a file that is not a PDF, or cancelling the file dialog, once pages are shown
  crashes the form: the handler clears \<open>selectedFile\<close> but keeps the pages and the ZIP URL,
  so the render reads \<open>selectedFile.name\<close> of \<open>null\<close> and the tree unmounts.
\<close>

theorem pi_invalid_file_crashes:
  assumes "pi_mounted s" "snd (pi_images s) \<noteq> []" "pi_zip s \<noteq> None"
    and "case fo of None \<Rightarrow> True | Some f \<Rightarrow> file_type f \<noteq> ''application/pdf''"
  shows "\<not> pi_mounted (fst (pi_step (PiFileChange fo) (s, r)))"
  using assms by (cases fo) (auto simp: pi_view_def Let_def)

theorem pi_invalid_file_crashes_witness:
  "\<not> pi_mounted (fst (pi_step (PiFileChange (Some pi_demo_png))
      (fst pi_demo_decoded, snd pi_demo_decoded)))"
proof -
  have h: "pi_mounted (fst pi_demo_decoded)" "snd (pi_images (fst pi_demo_decoded)) \<noteq> []"
    "pi_zip (fst pi_demo_decoded) \<noteq> None"
    "case Some pi_demo_png of None \<Rightarrow> True | Some f \<Rightarrow> file_type f \<noteq> ''application/pdf''"
    by (simp_all add: pi_eval)
  show ?thesis by (rule pi_invalid_file_crashes [OF h])
qed

text \<open>
  C23. The pages shown after a successful decode are exactly the archive's file entries, in
  directory order, each named as in the archive and resolving to its inflated content
  (\<open>pi_decoded\<close>, the decoder's contract): minting the previews refines the contract, and
  the commit that follows revokes none of them.
\<close>

theorem pi_pages_follow_archive:
  assumes "pi_reach env c" "pi_mounted (fst c)" "pi_jobs (fst c) = [PiUnzipping f fmt]"
    and "pi_entry_failure es = None"
  shows "map (\<lambda>(n, u). (n, url_store (snd (pi_step (PiUnzipSettle 0 (Inr es)) c)) u))
           (snd (pi_images (fst (pi_step (PiUnzipSettle 0 (Inr es)) c)))) =
         map (\<lambda>(n, b). (n, Some b)) (pi_decoded es)"
proof (cases c)
  case (Pair s r)
  from assms Pair have wf: "registry_wf r" and urls: "pi_urls s \<subseteq> {..<url_next r}"
    and eff: "pi_effect s = pi_deps s"
    using pi_reach_invD by auto
  obtain imgs r' where mint: "pi_mint_entries es r = (imgs, r')" by fastforce
  let ?s1 = "(pi_new_array imgs (s\<lparr>pi_jobs := []\<rparr>))\<lparr>pi_loading := False\<rparr>"
  from assms Pair mint have st: "pi_step (PiUnzipSettle 0 (Inr es)) c = pi_commit (?s1, r')"
    using pi_unzip_success by simp
  have store: "url_store (snd (pi_commit (?s1, r'))) u = url_store r' u" if "(n, u) \<in> set imgs" for n u
  proof (rule pi_commit_store)
    from that pi_mint_entries_registry [OF mint wf] have "url_next r \<le> u" by force
    with urls eff show "u \<notin> pi_deps_urls (pi_effect ?s1)" by (auto simp: pi_urls_def)
  qed
  have "map (\<lambda>(n, u). (n, url_store (snd (pi_commit (?s1, r'))) u)) imgs =
        map (\<lambda>(n, u). (n, url_store r' u)) imgs"
    by (rule map_cong) (auto simp del: pi_commit.simps simp: store)
  also have "\<dots> = map (\<lambda>(n, b). (n, Some b)) (pi_decoded es)"
    by (rule pi_mint_entries_decoded [OF mint wf])
  finally show ?thesis using st pi_commit_images [of "(?s1, r')"] by simp
qed

theorem pi_pages_follow_archive_witness:
  "map (\<lambda>(n, u). (n, url_store (snd (pi_step (PiUnzipSettle 0 (Inr pi_demo_pages)) pi_demo_fetched)) u))
     (snd (pi_images (fst (pi_step (PiUnzipSettle 0 (Inr pi_demo_pages)) pi_demo_fetched)))) =
   [(''page1.png'', Some ''P1''), (''page2.png'', Some ''P2'')]"
proof -
  have h: "pi_mounted (fst pi_demo_fetched)"
    "pi_jobs (fst pi_demo_fetched) = [PiUnzipping pi_demo_pdf ''png'']"
    "pi_entry_failure pi_demo_pages = None"
    by (simp_all add: pi_eval)
  show ?thesis using pi_pages_follow_archive [OF pi_demo_reach(1) h] by (simp add: pi_demo_pages_def)
qed

text \<open>
  C24. An archive with no file entry is a silent success: the decode clears the loading flag
  and stores no page, so the results section, and with it the ZIP link, is not rendered, and
  no error is shown, although the server answered with an archive whose URL the state holds.
\<close>

theorem pi_empty_archive_hidden:
  assumes "pi_reach env c" "pi_mounted (fst c)" "pi_jobs (fst c) = [PiUnzipping f fmt]"
    and "pi_zip (fst c) = Some z" "pi_error (fst c) = None"
    and "pi_entry_failure es = None" "pi_decoded es = []"
  shows "pi_mounted (fst (pi_step (PiUnzipSettle 0 (Inr es)) c)) \<and>
         pi_zip (fst (pi_step (PiUnzipSettle 0 (Inr es)) c)) = Some z \<and>
         (\<exists>v. pi_view (fst (pi_step (PiUnzipSettle 0 (Inr es)) c)) = Some v \<and>
              \<not> ps_results v \<and> ps_zip_link v = None \<and> ps_pages v = [] \<and> ps_error_banner v = None)"
proof (cases c)
  case (Pair s r)
  from assms Pair have wf: "registry_wf r" using pi_reach_invD by auto
  obtain imgs r' where mint: "pi_mint_entries es r = (imgs, r')" by fastforce
  with wf assms have nil: "imgs = []" by (intro pi_mint_entries_Nil)
  let ?s1 = "(pi_new_array imgs (s\<lparr>pi_jobs := []\<rparr>))\<lparr>pi_loading := False\<rparr>"
  from assms Pair mint have st: "pi_step (PiUnzipSettle 0 (Inr es)) c = pi_commit (?s1, r')"
    using pi_unzip_success by simp
  from assms Pair nil obtain v where v: "pi_view ?s1 = Some v" and
    "\<not> ps_results v \<and> ps_zip_link v = None \<and> ps_pages v = [] \<and> ps_error_banner v = None"
    by (simp add: pi_view_def)
  moreover from assms Pair have "pi_mounted ?s1" by simp
  ultimately show ?thesis
    using pi_commit_fst [of ?s1 v r'] st assms Pair by simp
qed

theorem pi_empty_archive_hidden_witness:
  "pi_mounted (fst (pi_step (PiUnzipSettle 0 (Inr [ZipEntry ''pages/'' True (Inr [])])) pi_demo_fetched)) \<and>
   pi_zip (fst (pi_step (PiUnzipSettle 0 (Inr [ZipEntry ''pages/'' True (Inr [])])) pi_demo_fetched)) = Some 0"
proof -
  have h: "pi_mounted (fst pi_demo_fetched)"
    "pi_jobs (fst pi_demo_fetched) = [PiUnzipping pi_demo_pdf ''png'']"
    "pi_zip (fst pi_demo_fetched) = Some 0" "pi_error (fst pi_demo_fetched) = None"
    "pi_entry_failure [ZipEntry ''pages/'' True (Inr [])] = None"
    "pi_decoded [ZipEntry ''pages/'' True (Inr [])] = []"
    by (simp_all add: pi_eval)
  show ?thesis using pi_empty_archive_hidden [OF pi_demo_reach(1) h] by simp
qed

text \<open>
  C25. An archive JSZip cannot read is reported with JSZip's message: loading stops, the
  submission is over, and no object URL is minted or revoked.
\<close>

theorem pi_malformed_archive:
  assumes "pi_reach env c" "pi_mounted (fst c)" "i < length (pi_jobs (fst c))"
    and "pi_jobs (fst c) ! i = PiUnzipping f fmt"
  shows "pi_error (fst (pi_step (PiUnzipSettle i (Inl msg)) c)) = Some msg \<and>
         \<not> pi_loading (fst (pi_step (PiUnzipSettle i (Inl msg)) c)) \<and>
         pi_jobs (fst (pi_step (PiUnzipSettle i (Inl msg)) c)) = [] \<and>
         snd (pi_step (PiUnzipSettle i (Inl msg)) c) = snd c"
proof (cases c)
  case (Pair s r)
  from assms Pair have eff: "pi_effect s = pi_deps s" and fl: "pi_flow s"
    using pi_reach_invD by auto
  from fl assms Pair have rm: "remove_nth i (pi_jobs s) = []" and im: "snd (pi_images s) = []"
    using pi_flow_remove by (auto simp: pi_flow_def)
  from assms Pair eff rm im show ?thesis
    by (simp add: pi_set_def pi_view_def pi_deps_def Let_def)
qed

theorem pi_malformed_archive_witness:
  "pi_error (fst (pi_step (PiUnzipSettle 0 (Inl ''corrupted zip'')) pi_demo_fetched)) = Some ''corrupted zip'' \<and>
   \<not> pi_loading (fst (pi_step (PiUnzipSettle 0 (Inl ''corrupted zip'')) pi_demo_fetched))"
proof -
  have h: "pi_mounted (fst pi_demo_fetched)" "0 < length (pi_jobs (fst pi_demo_fetched))"
    "pi_jobs (fst pi_demo_fetched) ! 0 = PiUnzipping pi_demo_pdf ''png''"
    by (simp_all add: pi_eval)
  show ?thesis using pi_malformed_archive [OF pi_demo_reach(1) h] by simp
qed

text \<open>
  The ZIP's download name replaces the first \<open>.pdf\<close> of the file name only, wherever
  it is: a name with an earlier \<open>.pdf\<close> keeps its extension.
\<close>

theorem pi_zip_name_first_only:
  "\<not> sublist ''.pdf'' (base @ ''.pd'') \<Longrightarrow> file_name f = base @ ''.pdf'' @ rest \<Longrightarrow>
   pi_zip_name f = base @ ''.zip'' @ rest"
  using replace_first_first [of "''.pdf''" base "''.zip''" rest] by (simp add: pi_zip_name_def)

theorem pi_zip_name_first_only_witness:
  "pi_zip_name \<lparr>file_name = ''a.pdf.pdf'', file_type = ''application/pdf'', file_data = ''PDF''\<rparr> =
   ''a.zip.pdf''"
proof -
  have h: "\<not> sublist ''.pdf'' (''a'' @ ''.pd'')" by (simp add: sublist_code)
  have n: "file_name \<lparr>file_name = ''a.pdf.pdf'', file_type = ''application/pdf'', file_data = ''PDF''\<rparr> =
      ''a'' @ ''.pdf'' @ ''.pdf''" by simp
  show ?thesis using pi_zip_name_first_only [OF h n] by simp
qed

text \<open>
  A file name without the lower-case \<open>.pdf\<close> is the download name unchanged: an
  upper-case \<open>.PDF\<close> file downloads its ZIP archive under the PDF's name.
\<close>

theorem pi_zip_name_no_pdf:
  "\<not> sublist ''.pdf'' (file_name f) \<Longrightarrow> pi_zip_name f = file_name f"
  by (simp add: pi_zip_name_def replace_first_absent)

theorem pi_zip_name_no_pdf_witness:
  "pi_zip_name \<lparr>file_name = ''SCAN.PDF'', file_type = ''application/pdf'', file_data = ''PDF''\<rparr> =
   ''SCAN.PDF''"
proof -
  have h: "\<not> sublist ''.pdf'' (file_name \<lparr>file_name = ''SCAN.PDF'', file_type = ''application/pdf'',
      file_data = ''PDF''\<rparr>)" by (simp add: sublist_code)
  show ?thesis using pi_zip_name_no_pdf [OF h] by simp
qed

text \<open>
  At most one conversion is in flight while the form is mounted, and the loading flag
  is set exactly when one is.
\<close>

theorem pi_single_request_in_flight:
  "pi_reach env c \<Longrightarrow> pi_mounted (fst c) \<Longrightarrow>
   length (pi_jobs (fst c)) \<le> 1 \<and> (pi_loading (fst c) \<longleftrightarrow> pi_jobs (fst c) \<noteq> [])"
  using pi_reach_invD(5) [of env "fst c" "snd c"] by (simp add: pi_flow_def)

theorem pi_single_request_in_flight_witness:
  "length (pi_jobs (fst pi_demo_fetched)) \<le> 1 \<and> pi_loading (fst pi_demo_fetched)"
proof -
  have m: "pi_mounted (fst pi_demo_fetched)" by (simp add: pi_eval)
  have j: "pi_jobs (fst pi_demo_fetched) \<noteq> []" by (simp add: pi_eval)
  show ?thesis using pi_single_request_in_flight [OF pi_demo_reach(1) m] j by simp
qed

text \<open>
  C28. The stale-response guard of the spec is missing here too: if the user picks another
  PDF while the archive of the first is being decoded, the first file's pages are shown
  under the new selection, and the ZIP link offers the first file's archive under the new
  file's name.
\<close>

theorem pi_stale_pages_shown:
  assumes "pi_reach env c" "pi_mounted (fst c)" "pi_jobs (fst c) = [PiUnzipping f fmt]"
    and "pi_selected (fst c) = Some g" "pi_zip (fst c) = Some z"
    and "pi_entry_failure es = None" "pi_decoded es \<noteq> []"
  shows "pi_selected (fst (pi_step (PiUnzipSettle 0 (Inr es)) c)) = Some g \<and>
         (\<exists>v. pi_view (fst (pi_step (PiUnzipSettle 0 (Inr es)) c)) = Some v \<and>
              map fst (ps_pages v) = map fst (pi_decoded es) \<and> ps_zip_link v = Some (z, pi_zip_name g))"
proof (cases c)
  case (Pair s r)
  from assms Pair have wf: "registry_wf r" using pi_reach_invD by auto
  obtain imgs r' where mint: "pi_mint_entries es r = (imgs, r')" by fastforce
  let ?s1 = "(pi_new_array imgs (s\<lparr>pi_jobs := []\<rparr>))\<lparr>pi_loading := False\<rparr>"
  from assms Pair mint have st: "pi_step (PiUnzipSettle 0 (Inr es)) c = pi_commit (?s1, r')"
    using pi_unzip_success by simp
  have names: "map fst imgs = map fst (pi_decoded es)" by (rule map_fst_mint_entries [OF mint wf])
  with assms(7) have ne: "imgs \<noteq> []" by auto
  obtain v where v: "pi_view ?s1 = Some v" and pages: "ps_pages v = imgs"
    and link: "ps_zip_link v = Some (z, pi_zip_name g)"
    using assms Pair ne by (simp add: pi_view_def pi_new_array_def Let_def)
  have "pi_mounted ?s1" using assms Pair by (simp add: pi_new_array_def)
  then have "fst (pi_commit (?s1, r')) = ?s1\<lparr>pi_effect := pi_deps ?s1\<rparr>"
    using v by (rule pi_commit_fst)
  then show ?thesis using st v pages link names assms Pair by (simp add: pi_new_array_def)
qed

theorem pi_stale_pages_shown_witness:
  "pi_selected (fst (pi_step (PiUnzipSettle 0 (Inr pi_demo_pages))
      (pi_run [PiFileChange (Some pi_demo_pdf), PiSubmit, PiFileChange (Some pi_demo_other),
               PiFetchSettle 0 (HttpOk ''ZIP'')] pi_init))) = Some pi_demo_other \<and>
   (\<exists>v. pi_view (fst (pi_step (PiUnzipSettle 0 (Inr pi_demo_pages))
      (pi_run [PiFileChange (Some pi_demo_pdf), PiSubmit, PiFileChange (Some pi_demo_other),
               PiFetchSettle 0 (HttpOk ''ZIP'')] pi_init))) = Some v \<and>
        map fst (ps_pages v) = [''page1.png'', ''page2.png''] \<and> ps_zip_link v = Some (0, ''notes.zip''))"
proof -
  let ?c = "pi_run [PiFileChange (Some pi_demo_pdf), PiSubmit, PiFileChange (Some pi_demo_other),
               PiFetchSettle 0 (HttpOk ''ZIP'')] pi_init"
  have r: "pi_reach pi_sound_event ?c" by (rule pi_reach_run [OF pi_reach.init]) simp
  have h: "pi_mounted (fst ?c)" "pi_jobs (fst ?c) = [PiUnzipping pi_demo_pdf ''png'']"
    "pi_selected (fst ?c) = Some pi_demo_other" "pi_zip (fst ?c) = Some 0"
    "pi_entry_failure pi_demo_pages = None" "pi_decoded pi_demo_pages \<noteq> []"
    by (simp_all add: pi_eval)
  have d: "map fst (pi_decoded pi_demo_pages) = [''page1.png'', ''page2.png'']"
    by (simp add: pi_demo_pages_def)
  have n: "pi_zip_name pi_demo_other = ''notes.zip''" by code_simp
  show ?thesis using pi_stale_pages_shown [OF r h] d n by simp
qed


text \<open>
  C27. Every submission terminates: from every reachable mounted state, the pending
  submission's two continuations (after \<open>fetch\<close>, after JSZip), whatever the server
  and the archive answer, leave nothing in flight and, if the form is still mounted, end
  loading; the \<open>finally\<close> on line 84 and the early returns cover every branch.
\<close>

theorem pi_submission_settles:
  assumes "pi_reach env c" "pi_mounted (fst c)"
  shows "pi_jobs (fst (pi_run [PiFetchSettle 0 rep, PiUnzipSettle 0 dec] c)) = [] \<and>
         (pi_mounted (fst (pi_run [PiFetchSettle 0 rep, PiUnzipSettle 0 dec] c)) \<longrightarrow>
          \<not> pi_loading (fst (pi_run [PiFetchSettle 0 rep, PiUnzipSettle 0 dec] c)))"
proof -
  from assms have fl: "pi_flow (fst c)" using pi_reach_invD [of env "fst c" "snd c"] by simp
  consider "pi_jobs (fst c) = []" | f fmt where "pi_jobs (fst c) = [PiFetching f fmt]"
    | f fmt where "pi_jobs (fst c) = [PiUnzipping f fmt]"
    using fl by (cases "pi_jobs (fst c)" rule: list.exhaust; cases "hd (pi_jobs (fst c))")
       (auto simp: pi_flow_def)
  then show ?thesis
  proof cases
    case 1
    with fl show ?thesis by (simp add: pi_flow_def)
  next
    case (2 f fmt)
    let ?c1 = "pi_step (PiFetchSettle 0 rep) c"
    from pi_fetch_settle_done [OF 2 assms(2), of rep] show ?thesis
    proof
      assume d: "pi_jobs (fst ?c1) = [] \<and> (pi_mounted (fst ?c1) \<longrightarrow> \<not> pi_loading (fst ?c1))"
      then show ?thesis using 2 by simp
    next
      assume u: "pi_jobs (fst ?c1) = [PiUnzipping f fmt]"
      from pi_unzip_settle_done [OF u, of dec] u 2 show ?thesis by simp
    qed
  next
    case (3 f fmt)
    from pi_unzip_settle_done [OF 3, of dec] 3 show ?thesis by simp
  qed
qed


theorem pi_submission_settles_witness:
  "pi_loading (fst pi_demo_fetched) \<and>
   pi_jobs (fst (pi_run [PiFetchSettle 0 (HttpOk ''ZIP''), PiUnzipSettle 0 (Inl ''Corrupted zip'')]
     pi_demo_fetched)) = [] \<and>
   \<not> pi_loading (fst (pi_run [PiFetchSettle 0 (HttpOk ''ZIP''), PiUnzipSettle 0 (Inl ''Corrupted zip'')]
      pi_demo_fetched))"
proof -
  let ?X = "pi_run [PiFetchSettle 0 (HttpOk ''ZIP''), PiUnzipSettle 0 (Inl ''Corrupted zip'')] pi_demo_fetched"
  have h: "pi_mounted (fst pi_demo_fetched)" "pi_loading (fst pi_demo_fetched)" by (simp_all add: pi_eval)
  have m: "pi_mounted (fst ?X)" by (simp add: pi_eval)
  from pi_submission_settles [OF pi_demo_reach(1) h(1), of "HttpOk ''ZIP''" "Inl ''Corrupted zip''"] h m
  show ?thesis by blast
qed

text \<open>
  C38. The ZIP is offered under the PDF's name with only the first lower-case \<open>.pdf\<close>
  replaced (line 123): whenever pages are shown with the archive's URL, the link is named
  \<open>base.zip rest\<close> for a file \<open>base.pdf rest\<close> with no earlier \<open>.pdf\<close>, and keeps
  the PDF's own name when it has no lower-case \<open>.pdf\<close>, so that \<open>SCAN.PDF\<close>
  downloads its ZIP archive as \<open>SCAN.PDF\<close>.
\<close>

theorem pi_zip_link_name:
  assumes "pi_view s = Some v" "snd (pi_images s) \<noteq> []" "pi_zip s = Some z" "pi_selected s = Some f"
  shows "(\<not> sublist ''.pdf'' (file_name f) \<longrightarrow> ps_zip_link v = Some (z, file_name f)) \<and>
         (file_name f = base @ ''.pdf'' @ rest \<longrightarrow> \<not> sublist ''.pdf'' (base @ ''.pd'') \<longrightarrow>
          ps_zip_link v = Some (z, base @ ''.zip'' @ rest))"
proof -
  from assms have "ps_zip_link v = Some (z, pi_zip_name f)" by (auto simp: pi_view_def Let_def)
  then show ?thesis using pi_zip_name_no_pdf [of f] pi_zip_name_first_only [of base f rest] by simp
qed

theorem pi_zip_link_name_witness:
  "\<exists>v. pi_view (fst pi_demo_decoded) = Some v \<and> ps_zip_link v = Some (0, ''report.zip'')"
proof -
  have h: "pi_view (fst pi_demo_decoded) \<noteq> None" "snd (pi_images (fst pi_demo_decoded)) \<noteq> []"
    "pi_zip (fst pi_demo_decoded) = Some 0" "pi_selected (fst pi_demo_decoded) = Some pi_demo_pdf"
    by (simp_all add: pi_eval)
  from h(1) obtain v where v: "pi_view (fst pi_demo_decoded) = Some v" by blast
  have n: "file_name pi_demo_pdf = ''report'' @ ''.pdf'' @ []" "\<not> sublist ''.pdf'' (''report'' @ ''.pd'')"
    by (simp_all add: pi_demo_pdf_def sublist_code)
  from pi_zip_link_name [OF v h(2,3,4), of "''report''" "[]"] n v show ?thesis by auto
qed

end
