(* ===== verification/Refinement_Pdf.thy ===== *)
theory Refinement_Pdf
  imports Session Pdf_To_Image
begin

text \<open>
  The PDF-to-images form refines the session machine of \<open>Session\<close>, and it is the form in
  which every abstract state is observable: \<open>Decoding\<close> is the stretch between the
  answer's arrival (the ZIP URL is set) and the end of the archive walk. \<open>pi_abs\<close> reads
  the session state off the form's state and \<open>pi_labels\<close> maps each event to the abstract
  transitions it performs, as a mediator function from concrete to abstract events.

  The simulation needs an invariant the form keeps only on the runs it covers,
  \<open>pi_sess_inv\<close>: with no file selected nothing is loading and no archive is held, and
  while loading no error is shown and the job in flight agrees with the archive URL
  (fetching without one, decoding with one). The runs covered (\<open>pi_session_ok\<close>) exclude
  unmounting, a new file while a conversion is pending (the stale-response defect, C28),
  and an invalid or cancelled selection, which clears the selected file and may crash the
  render (C22): the spec's \<open>Failed{noValidInput}\<close> has no counterpart in this form.
\<close>

definition pi_abs :: "pi_state \<Rightarrow> sess_state" where
  "pi_abs s =
     (if pi_loading s then (if pi_zip s = None then Submitting else Decoding)
      else if pi_error s \<noteq> None \<and> pi_selected s \<noteq> None then Failed
      else if pi_zip s \<noteq> None then Ready
      else if pi_selected s \<noteq> None then Staged
      else Idle)"

fun pi_labels :: "pi_event \<Rightarrow> sess_label list" where
  "pi_labels (PiFileChange f) = [SelectInputs]"
| "pi_labels (PiFormatChange v) = []"
| "pi_labels PiSubmit = [Submit]"
| "pi_labels (PiFetchSettle i rep) =
     (case fetch_result ''PDF to Image conversion failed.'' rep of
        Inl msg \<Rightarrow> [RemoteFailure]
      | Inr b \<Rightarrow> [RemoteSuccess])"
| "pi_labels (PiUnzipSettle i (Inl msg)) = [DecodeFailure]"
| "pi_labels (PiUnzipSettle i (Inr es)) =
     (case pi_entry_failure es of Some msg \<Rightarrow> [DecodeFailure] | None \<Rightarrow> [DecodeDone])"
| "pi_labels PiUnmount = [Reset]"

fun pi_session_ok :: "pi_event \<Rightarrow> pi_conf \<Rightarrow> bool" where
  "pi_session_ok (PiFileChange (Some f)) c = (\<not> pi_loading (fst c) \<and> file_type f = ''application/pdf'')"
| "pi_session_ok (PiFileChange None) c = False"
| "pi_session_ok PiUnmount c = False"
| "pi_session_ok e c = True"

fun pi_fetching :: "pi_job \<Rightarrow> bool" where
  "pi_fetching (PiFetching f fmt) = True"
| "pi_fetching (PiUnzipping f fmt) = False"

definition pi_sess_inv :: "pi_state \<Rightarrow> bool" where
  "pi_sess_inv s \<longleftrightarrow>
     (pi_selected s = None \<longrightarrow> pi_zip s = None \<and> \<not> pi_loading s) \<and>
     (pi_loading s \<longrightarrow> pi_error s = None \<and> (\<forall>j \<in> set (pi_jobs s). pi_fetching j \<longleftrightarrow> pi_zip s = None))"

lemma pi_sess_inv_view: "pi_sess_inv s \<Longrightarrow> \<exists>v. pi_view s = Some v"
  by (auto simp: pi_sess_inv_def pi_view_def Let_def)

lemma pi_session_effect [simp]:
  "pi_sess_inv (s\<lparr>pi_effect := d\<rparr>) = pi_sess_inv s" "pi_abs (s\<lparr>pi_effect := d\<rparr>) = pi_abs s"
  by (simp_all add: pi_sess_inv_def pi_abs_def)

lemma pi_commit_session:
  assumes "pi_mounted s" "pi_sess_inv s"
  shows "pi_mounted (fst (pi_commit (s, r))) \<and> pi_sess_inv (fst (pi_commit (s, r))) \<and>
         pi_abs (fst (pi_commit (s, r))) = pi_abs s"
proof -
  obtain v where "pi_view s = Some v" using pi_sess_inv_view [OF assms(2)] by blast
  with assms(1) have "fst (pi_commit (s, r)) = s\<lparr>pi_effect := pi_deps s\<rparr>" by (rule pi_commit_fst)
  with assms show ?thesis by (simp del: pi_commit.simps)
qed

lemma pi_step_commit_session:
  assumes "pi_step e c = pi_commit c'" "pi_mounted (fst c')" "pi_sess_inv (fst c')"
    and "sess_path (pi_abs (fst c)) (pi_labels e) (pi_abs (fst c'))"
  shows "pi_mounted (fst (pi_step e c)) \<and> pi_sess_inv (fst (pi_step e c)) \<and>
         sess_path (pi_abs (fst c)) (pi_labels e) (pi_abs (fst (pi_step e c)))"
  using pi_commit_session [OF assms(2,3), of "snd c'"] assms(1,4) by simp

lemmas pi_session_simps = pi_sess_inv_def pi_abs_def pi_set_def pi_new_array_def remove_nth_def
  sess_path_Cons sess_path_Nil sess_step_simps

lemma pi_session_step:
  assumes "pi_reach env c" "pi_mounted (fst c)" "pi_sess_inv (fst c)"
    and "pi_enabled e (fst c)" "pi_session_ok e c"
  shows "pi_mounted (fst (pi_step e c)) \<and> pi_sess_inv (fst (pi_step e c)) \<and>
         sess_path (pi_abs (fst c)) (pi_labels e) (pi_abs (fst (pi_step e c)))"
proof (cases c)
  case (Pair s r)
  from assms Pair have fl: "pi_flow s" using pi_reach_invD(5) by auto
  show ?thesis
  proof (cases e)
    case (PiFileChange fo)
    with assms Pair obtain f where f: "fo = Some f" "file_type f = ''application/pdf''" "\<not> pi_loading s"
      by (cases fo) auto
    show ?thesis
      by (rule pi_step_commit_session [where c' = "pi_handle_file_change fo c"])
         (use PiFileChange Pair f assms in \<open>auto simp: pi_session_simps\<close>)
  next
    case (PiFormatChange v)
    show ?thesis
      by (rule pi_step_commit_session [where c' = "pi_handle_format_change v c"])
         (use PiFormatChange Pair assms in \<open>auto simp: pi_session_simps\<close>)
  next
    case PiSubmit
    from assms Pair PiSubmit fl have "pi_jobs s = []" by (simp add: pi_flow_def)
    then show ?thesis
      by (intro pi_step_commit_session [where c' = "pi_handle_submit c"])
         (use PiSubmit Pair assms in \<open>auto simp: pi_session_simps\<close>)
  next
    case (PiFetchSettle i rep)
    from assms Pair PiFetchSettle fl obtain f fmt where j: "pi_jobs s = [PiFetching f fmt]" "i = 0"
      by (cases "pi_jobs s") (auto simp: pi_flow_def split: pi_job.splits)
    show ?thesis
      by (rule pi_step_commit_session [where c' = "pi_fetch_settle i rep c"])
         (use PiFetchSettle Pair assms fl j in \<open>auto simp: pi_session_simps pi_flow_def split: sum.split prod.split\<close>)
  next
    case (PiUnzipSettle i dec)
    from assms Pair PiUnzipSettle fl obtain f fmt where j: "pi_jobs s = [PiUnzipping f fmt]" "i = 0"
      by (cases "pi_jobs s") (auto simp: pi_flow_def split: pi_job.splits)
    show ?thesis
    proof (cases dec)
      case (Inl msg)
      show ?thesis
        by (rule pi_step_commit_session [where c' = "pi_unzip_settle i dec c"])
           (use PiUnzipSettle Inl Pair assms fl j in \<open>auto simp: pi_session_simps pi_flow_def Let_def\<close>)
    next
      case (Inr es)
      obtain imgs r' where mint: "pi_mint_entries es r = (imgs, r')" by fastforce
      show ?thesis
        by (rule pi_step_commit_session [where c' = "pi_unzip_settle i dec c"])
           (use PiUnzipSettle Inr mint Pair assms fl j in
             \<open>auto simp: pi_session_simps pi_flow_def Let_def split: option.split\<close>)
    qed
  next
    case PiUnmount
    with assms show ?thesis by simp
  qed
qed

text \<open>
  C10. The PDF-to-images form refines the spec's session machine over whole runs, through
  all six states: from a reachable configuration of the mounted form that satisfies the
  session invariant, any run whose performed events are neither an unmount, nor a new
  file while a conversion is pending, nor an invalid or cancelled selection, moves the
  abstract state along a path of the spec's transitions labelled by the events performed,
  with \<open>Decoding\<close> between the answer and the end of the archive walk.
\<close>

theorem pi_run_refines_session:
  assumes "pi_reach (\<lambda>_. True) c" "pi_mounted (fst c)" "pi_sess_inv (fst c)"
    and "guarded_ok (\<lambda>e c. pi_enabled e (fst c)) pi_step pi_session_ok es c"
  shows "sess_path (pi_abs (fst c)) (guarded_labels (\<lambda>e c. pi_enabled e (fst c)) pi_step pi_labels es c)
           (pi_abs (fst (pi_run es c)))"
proof (rule guarded_run_sim
    [where R = "\<lambda>c. pi_reach (\<lambda>_. True) c \<and> pi_mounted (fst c) \<and> pi_sess_inv (fst c)"
       and ab = "\<lambda>c. pi_abs (fst c)"])
  fix c e
  assume r: "pi_reach (\<lambda>_. True) c \<and> pi_mounted (fst c) \<and> pi_sess_inv (fst c)"
    and en: "pi_enabled e (fst c)" and ok: "pi_session_ok e c"
  from r en have "pi_reach (\<lambda>_. True) (pi_step e c)" by (simp add: pi_reach.step)
  with pi_session_step [of "\<lambda>_. True" c e] r en ok
  show "(pi_reach (\<lambda>_. True) (pi_step e c) \<and> pi_mounted (fst (pi_step e c)) \<and> pi_sess_inv (fst (pi_step e c))) \<and>
      sess_path (pi_abs (fst c)) (pi_labels e) (pi_abs (fst (pi_step e c)))" by simp
qed (use assms in auto)

theorem pi_run_refines_session_witness:
  "sess_path (pi_abs (fst pi_init))
     (guarded_labels (\<lambda>e c. pi_enabled e (fst c)) pi_step pi_labels
        [PiFileChange (Some pi_demo_pdf), PiSubmit, PiFetchSettle 0 (HttpOk ''ZIP''),
         PiUnzipSettle 0 (Inr pi_demo_pages)] pi_init)
     (pi_abs (fst (pi_run [PiFileChange (Some pi_demo_pdf), PiSubmit, PiFetchSettle 0 (HttpOk ''ZIP''),
                           PiUnzipSettle 0 (Inr pi_demo_pages)] pi_init))) \<and>
   pi_abs (fst pi_init) = Idle \<and> pi_abs (fst pi_demo_fetched) = Decoding \<and>
   guarded_labels (\<lambda>e c. pi_enabled e (fst c)) pi_step pi_labels
     [PiFileChange (Some pi_demo_pdf), PiSubmit, PiFetchSettle 0 (HttpOk ''ZIP''),
      PiUnzipSettle 0 (Inr pi_demo_pages)] pi_init =
     [SelectInputs, Submit, RemoteSuccess, DecodeDone] \<and>
   pi_abs (fst (pi_run [PiFileChange (Some pi_demo_pdf), PiSubmit, PiFetchSettle 0 (HttpOk ''ZIP''),
                        PiUnzipSettle 0 (Inr pi_demo_pages)] pi_init)) = Ready"
proof -
  let ?es = "[PiFileChange (Some pi_demo_pdf), PiSubmit, PiFetchSettle 0 (HttpOk ''ZIP''),
              PiUnzipSettle 0 (Inr pi_demo_pages)]"
  have m: "pi_mounted (fst pi_init)" "pi_sess_inv (fst pi_init)" by (simp_all add: pi_init_def pi_sess_inv_def)
  have ok: "guarded_ok (\<lambda>e c. pi_enabled e (fst c)) pi_step pi_session_ok ?es pi_init"
    by (simp add: pi_eval)
  have l: "guarded_labels (\<lambda>e c. pi_enabled e (fst c)) pi_step pi_labels ?es pi_init =
      [SelectInputs, Submit, RemoteSuccess, DecodeDone]"
    by (simp add: pi_eval)
  have a: "pi_abs (fst pi_init) = Idle" "pi_abs (fst pi_demo_fetched) = Decoding"
    "pi_abs (fst (pi_run ?es pi_init)) = Ready"
    by (simp_all add: pi_eval pi_abs_def)
  show ?thesis using pi_run_refines_session [OF pi_reach.init m ok] l a by simp
qed

end
