(* ===== verification/Js_Json.thy ===== *)
theory Js_Json
  imports Prelude
begin

text \<open>
  The JavaScript semantics the image generator's response handling relies on
  (\<open>src/my-tools-io/src/components/ImageGenerator.jsx\<close>, lines 50 to 64): the values
  \<open>response.json()\<close> yields, property access on them, truthiness, the comparison
  \<open>x > 0\<close> and the conversion of a value to a string in a template literal or in
  \<open>new Error(x)\<close>. A parsed JSON value is a \<open>json\<close>; \<open>undefined\<close> is \<open>None\<close>.

  Scope. JSON numbers are integers here. Strings are Latin-1 (a \<open>char\<close> is a byte), so
  \<open>length\<close> counts characters as UTF-16 does for Latin-1 text. Property access is
  modelled for the keys the code reads (\<open>error\<close>, \<open>message\<close>, \<open>predictions\<close>,
  \<open>length\<close>, \<open>0\<close>, \<open>bytesBase64Encoded\<close>): none of them is inherited from a
  prototype. \<open>Number(s)\<close> of a string is modelled for decimal integer literals; other
  numeric literals (fractions, exponents, hexadecimal) are \<open>NaN\<close> here. The messages of
  the \<open>TypeError\<close> a property read on \<open>null\<close> or \<open>undefined\<close> throws are V8's.
\<close>

datatype json =
    JNull
  | JBool bool
  | JNum int
  | JStr string
  | JArr "json list"
  | JObj "(string \<times> json) list"

text \<open>\<open>JSON.parse\<close> keeps the last of duplicate keys.\<close>

definition obj_lookup :: "(string \<times> json) list \<Rightarrow> string \<Rightarrow> json option" where
  "obj_lookup kvs k = map_of (rev kvs) k"

definition is_digit :: "char \<Rightarrow> bool" where
  "is_digit c \<longleftrightarrow> (48 :: nat) \<le> of_char c \<and> of_char c \<le> (57 :: nat)"

definition digit_val :: "char \<Rightarrow> nat" where
  "digit_val c = of_char c - 48"

definition dec_value :: "string \<Rightarrow> nat" where
  "dec_value s = foldl (\<lambda>a c. 10 * a + digit_val c) 0 s"

text \<open>An array index key: a canonical decimal numeral.\<close>

definition index_key :: "string \<Rightarrow> nat option" where
  "index_key k =
     (if k \<noteq> [] \<and> list_all is_digit k \<and> (k = ''0'' \<or> hd k \<noteq> CHR ''0'') then Some (dec_value k) else None)"

definition js_quote :: "string \<Rightarrow> string" where
  "js_quote k = CHR 0x27 # k @ [CHR 0x27]"

text \<open>\<open>v[k]\<close>: a \<open>TypeError\<close> on \<open>null\<close> and \<open>undefined\<close>, otherwise the property or \<open>undefined\<close>.\<close>

fun js_prop :: "json option \<Rightarrow> string \<Rightarrow> string + json option" where
  "js_prop None k = Inl (''Cannot read properties of undefined (reading '' @ js_quote k @ '')'')"
| "js_prop (Some JNull) k = Inl (''Cannot read properties of null (reading '' @ js_quote k @ '')'')"
| "js_prop (Some (JObj kvs)) k = Inr (obj_lookup kvs k)"
| "js_prop (Some (JArr xs)) k =
     Inr (if k = ''length'' then Some (JNum (int (length xs)))
          else (case index_key k of Some i \<Rightarrow> if i < length xs then Some (xs ! i) else None | None \<Rightarrow> None))"
| "js_prop (Some (JStr s)) k =
     Inr (if k = ''length'' then Some (JNum (int (length s)))
          else (case index_key k of Some i \<Rightarrow> if i < length s then Some (JStr [s ! i]) else None | None \<Rightarrow> None))"
| "js_prop (Some (JNum n)) k = Inr None"
| "js_prop (Some (JBool b)) k = Inr None"

text \<open>\<open>v?.k\<close>: \<open>undefined\<close> on \<open>null\<close> and \<open>undefined\<close>, otherwise \<open>v.k\<close>.\<close>

fun js_opt_prop :: "json option \<Rightarrow> string \<Rightarrow> json option" where
  "js_opt_prop None k = None"
| "js_opt_prop (Some JNull) k = None"
| "js_opt_prop v k = (case js_prop v k of Inr w \<Rightarrow> w | Inl e \<Rightarrow> None)"

fun js_truthy :: "json option \<Rightarrow> bool" where
  "js_truthy None = False"
| "js_truthy (Some JNull) = False"
| "js_truthy (Some (JBool b)) = b"
| "js_truthy (Some (JNum n)) = (n \<noteq> 0)"
| "js_truthy (Some (JStr s)) = (s \<noteq> [])"
| "js_truthy (Some (JArr xs)) = True"
| "js_truthy (Some (JObj kvs)) = True"

text \<open>Decimal numerals, \<open>String(n)\<close> for an integer.\<close>

fun nat_dec :: "nat \<Rightarrow> string" where
  "nat_dec n = (if n < 10 then [char_of (48 + n)] else nat_dec (n div 10) @ [char_of (48 + n mod 10)])"

definition int_dec :: "int \<Rightarrow> string" where
  "int_dec i = (if i < 0 then CHR ''-'' # nat_dec (nat (- i)) else nat_dec (nat i))"

text \<open>\<open>String(v)\<close>; inside an array \<open>null\<close> becomes the empty string (\<open>Array.prototype.join\<close>).\<close>

fun js_string_of :: "json \<Rightarrow> string" where
  "js_string_of JNull = ''null''"
| "js_string_of (JBool b) = (if b then ''true'' else ''false'')"
| "js_string_of (JNum n) = int_dec n"
| "js_string_of (JStr s) = s"
| "js_string_of (JArr xs) = join_with '','' (map (\<lambda>x. if x = JNull then [] else js_string_of x) xs)"
| "js_string_of (JObj kvs) = ''[object Object]''"

text \<open>\<open>Number(v)\<close>, with \<open>NaN\<close> as \<open>None\<close>; whitespace is that of \<open>String.prototype.trim\<close>.\<close>

definition js_ws :: "char \<Rightarrow> bool" where
  "js_ws c \<longleftrightarrow> of_char c \<in> {9, 10, 11, 12, 13, 32, 160 :: nat}"

definition js_trim :: "string \<Rightarrow> string" where
  "js_trim s = rev (dropWhile js_ws (rev (dropWhile js_ws s)))"

definition str_to_int :: "string \<Rightarrow> int option" where
  "str_to_int s =
     (let t = js_trim s in
      if t = [] then Some 0
      else if list_all is_digit t then Some (int (dec_value t))
      else if hd t = CHR ''-'' \<and> tl t \<noteq> [] \<and> list_all is_digit (tl t) then Some (- int (dec_value (tl t)))
      else if hd t = CHR ''+'' \<and> tl t \<noteq> [] \<and> list_all is_digit (tl t) then Some (int (dec_value (tl t)))
      else None)"

fun js_number :: "json \<Rightarrow> int option" where
  "js_number JNull = Some 0"
| "js_number (JBool b) = Some (if b then 1 else 0)"
| "js_number (JNum n) = Some n"
| "js_number (JStr s) = str_to_int s"
| "js_number (JArr xs) = str_to_int (js_string_of (JArr xs))"
| "js_number (JObj kvs) = None"

text \<open>\<open>v > 0\<close>; \<open>undefined > 0\<close> and \<open>NaN > 0\<close> are false.\<close>

fun js_gt0 :: "json option \<Rightarrow> bool" where
  "js_gt0 None = False"
| "js_gt0 (Some v) = (case js_number v of Some n \<Rightarrow> 0 < n | None \<Rightarrow> False)"

end
