(* ===== verification/Image_Generator.thy ===== *)
theory Image_Generator
  imports Js_Json
begin

text \<open>
  The text-to-image form, \<open>src/my-tools-io/src/components/ImageGenerator.jsx\<close>. State
  (lines 19 to 22) is the record \<open>ig_state\<close>, with \<open>ig_mounted\<close> and the prompts of the
  requests in flight (\<open>ig_inflight\<close>) as in the other forms. The form holds no object URL:
  the image is a \<open>data:\<close> URL built from the answer's base64 text, so there is no
  cleanup effect and a configuration is just the state.

  \<open>handleGenerateImage\<close> (lines 24 to 68) is the guard and the synchronous updates,
  \<open>ig_generate\<close>, and the continuation after \<open>fetch\<close>, \<open>ig_settle\<close>, whose argument
  is the service's answer, a \<open>gen_reply\<close>: the request fails in transit, or the service
  answers with a status that is or is not 2xx and a body that \<open>response.json()\<close> parses to
  a \<open>json\<close> value or rejects with a \<open>SyntaxError\<close>. The answer's classification
  \<open>gen_result\<close> follows lines 50 to 63 exactly, property reads and their \<open>TypeError\<close>s
  included. \<open>getDownloadFileName\<close> (lines 71 to 75) is \<open>ig_download_name\<close>.
\<close>

datatype gen_reply =
    GenNetworkError string
  | GenAnswer bool "string + json"

text \<open>Lines 50 to 53: a non-2xx answer's message.\<close>

fun gen_http_error :: "string + json \<Rightarrow> string" where
  "gen_http_error (Inl msg) = msg"
| "gen_http_error (Inr j) =
     (case js_prop (Some j) ''error'' of
        Inl te \<Rightarrow> te
      | Inr e \<Rightarrow>
          (case js_opt_prop e ''message'' of
             Some m \<Rightarrow> if js_truthy (Some m) then js_string_of m else ''The API returned an error.''
           | None \<Rightarrow> ''The API returned an error.''))"

text \<open>Lines 55 to 61: a 2xx answer's body, to the image's URL or the error's message.\<close>

definition gen_image :: "json \<Rightarrow> string + string" where
  "gen_image j =
     (case js_prop (Some j) ''predictions'' of
        Inl te \<Rightarrow> Inl te
      | Inr p \<Rightarrow>
          if \<not> js_truthy p then Inl ''API did not return a valid image.''
          else (case js_prop p ''length'' of
                  Inl te \<Rightarrow> Inl te
                | Inr l \<Rightarrow>
                    if \<not> js_gt0 l then Inl ''API did not return a valid image.''
                    else (case js_prop p ''0'' of
                            Inl te \<Rightarrow> Inl te
                          | Inr p0 \<Rightarrow>
                              (case js_prop p0 ''bytesBase64Encoded'' of
                                 Inl te \<Rightarrow> Inl te
                               | Inr (Some b) \<Rightarrow>
                                   if js_truthy (Some b) then Inr (''data:image/png;base64,'' @ js_string_of b)
                                   else Inl ''API did not return a valid image.''
                               | Inr None \<Rightarrow> Inl ''API did not return a valid image.''))))"

fun gen_result :: "gen_reply \<Rightarrow> string + string" where
  "gen_result (GenNetworkError msg) = Inl msg"
| "gen_result (GenAnswer False body) = Inl (gen_http_error body)"
| "gen_result (GenAnswer True (Inl msg)) = Inl msg"
| "gen_result (GenAnswer True (Inr j)) = gen_image j"

record ig_state =
  ig_prompt :: string
  ig_image :: "string option"
  ig_loading :: bool
  ig_error :: "string option"
  ig_mounted :: bool
  ig_inflight :: "string list"

definition ig_init :: ig_state where
  "ig_init =
     \<lparr>ig_prompt = [], ig_image = None, ig_loading = False, ig_error = None, ig_mounted = True,
      ig_inflight = []\<rparr>"

definition ig_set :: "(ig_state \<Rightarrow> ig_state) \<Rightarrow> ig_state \<Rightarrow> ig_state" where
  "ig_set f s = (if ig_mounted s then f s else s)"

section \<open>Handlers\<close>

text \<open>Line 89: \<open>onChange={(e) => setPrompt(e.target.value)}\<close>.\<close>

definition ig_set_prompt :: "string \<Rightarrow> ig_state \<Rightarrow> ig_state" where
  "ig_set_prompt v s = s\<lparr>ig_prompt := v\<rparr>"

text \<open>Lines 24 to 33, up to the \<open>await\<close>.\<close>

definition ig_generate :: "ig_state \<Rightarrow> ig_state" where
  "ig_generate s =
     (if js_trim (ig_prompt s) = [] then s\<lparr>ig_error := Some ''Please enter a prompt to generate an image.''\<rparr>
      else s\<lparr>ig_loading := True, ig_error := None, ig_image := None,
               ig_inflight := ig_inflight s @ [ig_prompt s]\<rparr>)"

text \<open>Lines 44 to 67: request \<open>i\<close> settles with the answer \<open>rep\<close>.\<close>

definition ig_settle :: "nat \<Rightarrow> gen_reply \<Rightarrow> ig_state \<Rightarrow> ig_state" where
  "ig_settle i rep s =
     (if i < length (ig_inflight s) then
        (let s1 = s\<lparr>ig_inflight := remove_nth i (ig_inflight s)\<rparr> in
         case gen_result rep of
           Inl msg \<Rightarrow> ig_set (\<lambda>t. t\<lparr>ig_error := Some (''Failed to generate image: '' @ msg),
                                    ig_loading := False\<rparr>) s1
         | Inr u \<Rightarrow> ig_set (\<lambda>t. t\<lparr>ig_image := Some u, ig_loading := False\<rparr>) s1)
      else s)"

section \<open>Events, runs and reachable states\<close>

datatype ig_event =
    IgPrompt string
  | IgGenerate
  | IgSettle nat gen_reply
  | IgUnmount

text \<open>
  The textarea is disabled while loading (line 92) and the button while loading or with a
  blank prompt (line 97); the form is submitted only by the button.
\<close>

fun ig_enabled :: "ig_event \<Rightarrow> ig_state \<Rightarrow> bool" where
  "ig_enabled (IgPrompt v) s = (ig_mounted s \<and> \<not> ig_loading s)"
| "ig_enabled IgGenerate s = (ig_mounted s \<and> \<not> ig_loading s \<and> js_trim (ig_prompt s) \<noteq> [])"
| "ig_enabled (IgSettle i rep) s = (i < length (ig_inflight s))"
| "ig_enabled IgUnmount s = ig_mounted s"

fun ig_step :: "ig_event \<Rightarrow> ig_state \<Rightarrow> ig_state" where
  "ig_step (IgPrompt v) s = ig_set_prompt v s"
| "ig_step IgGenerate s = ig_generate s"
| "ig_step (IgSettle i rep) s = ig_settle i rep s"
| "ig_step IgUnmount s = s\<lparr>ig_mounted := False\<rparr>"

inductive ig_reach :: "ig_state \<Rightarrow> bool" where
  init: "ig_reach ig_init"
| step: "ig_reach s \<Longrightarrow> ig_enabled e s \<Longrightarrow> ig_reach (ig_step e s)"

abbreviation ig_run :: "ig_event list \<Rightarrow> ig_state \<Rightarrow> ig_state" where
  "ig_run \<equiv> guarded_run ig_enabled ig_step"

section \<open>Download name\<close>

text \<open>\<open>toLowerCase\<close> on Latin-1: the capitals A to Z and 0xC0 to 0xDE except 0xD7.\<close>

definition js_lower :: "char \<Rightarrow> char" where
  "js_lower c =
     (let n = (of_char c :: nat) in
      if (65 \<le> n \<and> n \<le> 90) \<or> (192 \<le> n \<and> n \<le> 222 \<and> n \<noteq> 215) then char_of (n + 32) else c)"

text \<open>The characters \<open>/[^a-z0-9\s-]/g\<close> keeps.\<close>

definition ig_keep :: "char \<Rightarrow> bool" where
  "ig_keep c \<longleftrightarrow> (97 \<le> (of_char c :: nat) \<and> (of_char c :: nat) \<le> 122) \<or> is_digit c \<or> js_ws c \<or> c = CHR ''-''"

text \<open>\<open>replace(/\s+/g, '-')\<close>: each maximal run of whitespace becomes one hyphen.\<close>

function (domintros) collapse_ws :: "string \<Rightarrow> string" where
  "collapse_ws [] = []"
| "collapse_ws (c # cs) =
     (if js_ws c then CHR ''-'' # collapse_ws (dropWhile js_ws cs) else c # collapse_ws cs)"
  by pat_completeness auto
termination
  by (relation "measure length") (auto simp: le_imp_less_Suc length_dropWhile_le)

definition ig_download_name :: "string \<Rightarrow> string" where
  "ig_download_name p =
     (if p = [] then ''ai-generated-image.png''
      else take 50 (collapse_ws (filter ig_keep (map js_lower p))) @ ''.png'')"

section \<open>The rendered view\<close>

text \<open>Lines 95 to 145: button, error banner, the image panel's three children, the link.\<close>

record ig_screen =
  gv_button_disabled :: bool
  gv_textarea_disabled :: bool
  gv_error_banner :: "string option"
  gv_spinner :: bool
  gv_image :: "string option"
  gv_placeholder :: bool
  gv_download :: "(string \<times> string) option"

definition ig_view :: "ig_state \<Rightarrow> ig_screen" where
  "ig_view s =
     (let err = (case ig_error s of Some e \<Rightarrow> e \<noteq> [] | None \<Rightarrow> False);
          img = (case ig_image s of Some u \<Rightarrow> u \<noteq> [] | None \<Rightarrow> False) in
      \<lparr>gv_button_disabled = (ig_loading s \<or> js_trim (ig_prompt s) = []),
       gv_textarea_disabled = ig_loading s,
       gv_error_banner = (if err then ig_error s else None),
       gv_spinner = ig_loading s,
       gv_image = (if \<not> ig_loading s \<and> \<not> err \<and> img then ig_image s else None),
       gv_placeholder = (\<not> ig_loading s \<and> \<not> err \<and> \<not> img),
       gv_download =
         (if img \<and> \<not> ig_loading s then map_option (\<lambda>u. (u, ig_download_name (ig_prompt s))) (ig_image s)
          else None)\<rparr>)"

section \<open>The invariant\<close>

text \<open>
  While mounted, the loading flag is set exactly while a request is in flight, there is at
  most one, nothing is shown while loading, and an image and an error are never held
  together.
\<close>

definition ig_inv :: "ig_state \<Rightarrow> bool" where
  "ig_inv s \<longleftrightarrow>
     (ig_mounted s \<longrightarrow>
        (ig_loading s \<longleftrightarrow> ig_inflight s \<noteq> []) \<and> length (ig_inflight s) \<le> 1 \<and>
        (ig_loading s \<longrightarrow> ig_image s = None \<and> ig_error s = None) \<and>
        (ig_image s \<noteq> None \<longrightarrow> ig_error s = None))"

text \<open>A sample run for the witnesses: a prompt typed and submitted.\<close>

definition ig_demo_done :: ig_state where
  "ig_demo_done = ig_run [IgPrompt ''A red fox'', IgGenerate] ig_init"

section \<open>Proofs\<close>

lemma ig_settle_cases:
  "i < length (ig_inflight s) \<Longrightarrow> ig_mounted s \<Longrightarrow> ig_inflight s = [p] \<Longrightarrow>
   ig_settle i rep s =
     (case gen_result rep of
        Inl msg \<Rightarrow> s\<lparr>ig_inflight := [], ig_error := Some (''Failed to generate image: '' @ msg), ig_loading := False\<rparr>
      | Inr u \<Rightarrow> s\<lparr>ig_inflight := [], ig_image := Some u, ig_loading := False\<rparr>)"
  by (simp add: ig_settle_def ig_set_def remove_nth_def split: sum.split)

lemma ig_step_inv: "ig_inv s \<Longrightarrow> ig_enabled e s \<Longrightarrow> ig_inv (ig_step e s)"
proof (cases e)
  case (IgSettle i rep)
  assume inv: "ig_inv s" and en: "ig_enabled e s"
  show ?thesis
  proof (cases "ig_mounted s")
    case True
    with inv en IgSettle obtain p where "ig_inflight s = [p]" "i = 0"
      by (cases "ig_inflight s") (auto simp: ig_inv_def)
    with inv en IgSettle True show ?thesis
      by (simp add: ig_settle_cases ig_inv_def split: sum.split)
  next
    case False
    with IgSettle show ?thesis by (simp add: ig_settle_def ig_set_def Let_def ig_inv_def split: sum.split)
  qed
qed (auto simp: ig_inv_def ig_set_prompt_def ig_generate_def)

lemma ig_reach_inv: "ig_reach s \<Longrightarrow> ig_inv s"
proof (induction rule: ig_reach.induct)
  case init
  show ?case by (simp add: ig_init_def ig_inv_def)
next
  case (step s e)
  from step.IH step.hyps(2) show ?case by (rule ig_step_inv)
qed

lemma ig_reach_run: "ig_reach s \<Longrightarrow> ig_reach (ig_run es s)"
  by (rule guarded_run_closed [where Q = "\<lambda>_. True"]) (simp_all add: ig_reach.step list_all_iff)

lemma gen_result_data_url:
  "gen_result rep = Inr u \<Longrightarrow> \<exists>b. u = ''data:image/png;base64,'' @ b"
  by (cases rep rule: gen_result.cases) (auto simp: gen_image_def split: sum.splits option.splits if_splits)

lemma ig_step_data_url:
  assumes "\<forall>u. ig_image s = Some u \<longrightarrow> (\<exists>b. u = ''data:image/png;base64,'' @ b)"
  shows "\<forall>u. ig_image (ig_step e s) = Some u \<longrightarrow> (\<exists>b. u = ''data:image/png;base64,'' @ b)"
  using assms gen_result_data_url
  by (cases e) (auto simp: ig_set_prompt_def ig_generate_def ig_settle_def ig_set_def Let_def split: sum.split)

lemma ig_reach_flow:
  "ig_reach s \<Longrightarrow> ig_mounted s \<Longrightarrow> i < length (ig_inflight s) \<Longrightarrow> \<exists>p. ig_inflight s = [p] \<and> i = 0"
  using ig_reach_inv [of s] by (cases "ig_inflight s") (auto simp: ig_inv_def)

lemma ig_step_inflight_prompt:
  assumes "ig_inv s" "ig_enabled e s" "ig_mounted (ig_step e s)"
    and "ig_mounted s \<longrightarrow> (\<forall>p \<in> set (ig_inflight s). p = ig_prompt s)"
  shows "\<forall>p \<in> set (ig_inflight (ig_step e s)). p = ig_prompt (ig_step e s)"
proof (cases e)
  case (IgPrompt v)
  with assms show ?thesis by (auto simp: ig_set_prompt_def ig_inv_def)
next
  case IgGenerate
  with assms show ?thesis by (auto simp: ig_generate_def)
next
  case (IgSettle i rep)
  with assms show ?thesis
    by (auto simp: ig_settle_def ig_set_def Let_def dest: set_remove_nth_subset [THEN subsetD] split: sum.split)
next
  case IgUnmount
  with assms show ?thesis by simp
qed

lemma ig_reach_inflight_prompt:
  "ig_reach s \<Longrightarrow> ig_mounted s \<longrightarrow> (\<forall>p \<in> set (ig_inflight s). p = ig_prompt s)"
proof (induction rule: ig_reach.induct)
  case init
  then show ?case by (simp add: ig_init_def)
next
  case (step s e)
  then show ?case using ig_step_inflight_prompt [OF ig_reach_inv [OF step.hyps(1)] step.hyps(2)] by blast
qed

lemma collapse_ws_dom_all: "collapse_ws_dom s"
proof (induction s rule: length_induct)
  case (1 s)
  show ?case
  proof (cases s)
    case Nil
    then show ?thesis by (simp add: collapse_ws.domintros)
  next
    case (Cons c cs)
    have "length (dropWhile js_ws cs) < length s"
      using Cons by (simp add: le_imp_less_Suc length_dropWhile_le)
    with 1 Cons show ?thesis by (auto intro: collapse_ws.domintros)
  qed
qed

lemma collapse_ws_set: "set (collapse_ws s) \<subseteq> (set s - Collect js_ws) \<union> {CHR ''-''}"
proof (induction s rule: collapse_ws.induct)
  case 1
  then show ?case by simp
next
  case (2 c cs)
  have "set (dropWhile js_ws cs) \<subseteq> set cs" by (rule set_dropWhileD [THEN subsetI])
  with 2 show ?case by auto
qed

lemma collapse_ws_length: "length (collapse_ws s) \<le> length s"
proof (induction s rule: collapse_ws.induct)
  case 1
  then show ?case by simp
next
  case (2 c cs)
  have "length (dropWhile js_ws cs) \<le> length cs" by (rule length_dropWhile_le)
  with 2 show ?case by auto
qed

lemma collapse_ws_no_ws: "(\<forall>c \<in> set s. \<not> js_ws c) \<Longrightarrow> collapse_ws s = s"
  by (induction s rule: collapse_ws.induct) auto

lemmas ig_eval = ig_init_def ig_demo_done_def ig_set_prompt_def ig_generate_def ig_settle_def ig_set_def
  Let_def remove_nth_def js_trim_def js_ws_def ig_view_def

section \<open>Properties of the generator\<close>

text \<open>
  A blank prompt (empty or only whitespace, as \<open>trim\<close> sees it) is rejected with the
  validation message and nothing else changes; the button is disabled for it anyway.
\<close>

theorem ig_blank_prompt_rejected:
  "js_trim (ig_prompt s) = [] \<Longrightarrow>
   ig_generate s = s\<lparr>ig_error := Some ''Please enter a prompt to generate an image.''\<rparr> \<and>
   \<not> ig_enabled IgGenerate s \<and> gv_button_disabled (ig_view s)"
  by (simp add: ig_generate_def ig_view_def Let_def)

theorem ig_blank_prompt_rejected_witness:
  "ig_generate (ig_init\<lparr>ig_prompt := '' \<newline>''\<rparr>) =
     ig_init\<lparr>ig_prompt := '' \<newline>'', ig_error := Some ''Please enter a prompt to generate an image.''\<rparr>"
proof -
  have h: "js_trim (ig_prompt (ig_init\<lparr>ig_prompt := '' \<newline>''\<rparr>)) = []" by code_simp
  show ?thesis using ig_blank_prompt_rejected [OF h] by simp
qed

text \<open>
  C35. An answer classified as an image is shown: the state holds its \<open>data:\<close> URL, with
  no error and no spinner, the image panel shows it and the download link offers it under
  the name derived from the prompt.
\<close>

theorem ig_success_shows_image:
  assumes "ig_reach s" "ig_mounted s" "i < length (ig_inflight s)" "gen_result rep = Inr u"
  shows "ig_image (ig_settle i rep s) = Some u \<and> ig_error (ig_settle i rep s) = None \<and>
         \<not> ig_loading (ig_settle i rep s) \<and>
         gv_image (ig_view (ig_settle i rep s)) = Some u \<and>
         gv_download (ig_view (ig_settle i rep s)) = Some (u, ig_download_name (ig_prompt s)) \<and>
         (\<exists>b. u = ''data:image/png;base64,'' @ b)"
proof -
  from ig_reach_flow [OF assms(1-3)] obtain p where p: "ig_inflight s = [p]" "i = 0" by blast
  from ig_reach_inv [OF assms(1)] assms(2) p have err: "ig_error s = None" by (simp add: ig_inv_def)
  have shape: "\<exists>b. u = ''data:image/png;base64,'' @ b" using assms(4) by (rule gen_result_data_url)
  with assms p err show ?thesis by (auto simp: ig_settle_cases ig_view_def Let_def)
qed

lemma ig_demo_reach: "ig_reach ig_demo_done"
  unfolding ig_demo_done_def by (rule ig_reach_run [OF ig_reach.init])

theorem ig_success_shows_image_witness:
  "ig_image (ig_settle 0 (GenAnswer True (Inr (JObj [(''predictions'',
      JArr [JObj [(''bytesBase64Encoded'', JStr ''QUJD'')]])]))) ig_demo_done) =
   Some ''data:image/png;base64,QUJD''"
proof -
  have h: "ig_mounted ig_demo_done" "0 < length (ig_inflight ig_demo_done)" by (simp_all add: ig_eval)
  have r: "gen_result (GenAnswer True (Inr (JObj [(''predictions'',
      JArr [JObj [(''bytesBase64Encoded'', JStr ''QUJD'')]])]))) = Inr ''data:image/png;base64,QUJD''"
    by code_simp
  show ?thesis using ig_success_shows_image [OF ig_demo_reach h r] by simp
qed

text \<open>
  C36. Every failure, in transit, in the service's answer or in reading it, is shown as
  \<open>Failed to generate image: \<close> followed by the classified message, with no image and no
  download link.
\<close>

theorem ig_failure_shows_message:
  assumes "ig_reach s" "ig_mounted s" "i < length (ig_inflight s)" "gen_result rep = Inl m"
  shows "ig_error (ig_settle i rep s) = Some (''Failed to generate image: '' @ m) \<and>
         ig_image (ig_settle i rep s) = None \<and> \<not> ig_loading (ig_settle i rep s) \<and>
         gv_error_banner (ig_view (ig_settle i rep s)) = Some (''Failed to generate image: '' @ m) \<and>
         gv_image (ig_view (ig_settle i rep s)) = None \<and> gv_download (ig_view (ig_settle i rep s)) = None"
proof -
  from ig_reach_flow [OF assms(1-3)] obtain p where p: "ig_inflight s = [p]" "i = 0" by blast
  from ig_reach_inv [OF assms(1)] assms(2) p have img: "ig_image s = None" by (simp add: ig_inv_def)
  with assms p show ?thesis by (simp add: ig_settle_cases ig_view_def Let_def)
qed

theorem ig_failure_shows_message_witness:
  "ig_error (ig_settle 0 (GenAnswer True (Inr JNull)) ig_demo_done) =
   Some ''Failed to generate image: Cannot read properties of null (reading 'predictions')''"
proof -
  have h: "ig_mounted ig_demo_done" "0 < length (ig_inflight ig_demo_done)" by (simp_all add: ig_eval)
  have r: "gen_result (GenAnswer True (Inr JNull)) =
      Inl ''Cannot read properties of null (reading 'predictions')''"
    by code_simp
  show ?thesis using ig_failure_shows_message [OF ig_demo_reach h r] by simp
qed

text \<open>
  C37. The download name is the default name or a stem of at most 50 characters drawn from
  lower-case letters, digits and hyphens, followed by \<open>.png\<close>.
\<close>

theorem ig_download_name_bounds:
  "ig_download_name p = ''ai-generated-image.png'' \<or>
   (\<exists>n. ig_download_name p = n @ ''.png'' \<and> length n \<le> 50 \<and> set n \<subseteq> {c. ig_keep c \<and> \<not> js_ws c})"
proof (cases "p = []")
  case True
  then show ?thesis by (simp add: ig_download_name_def)
next
  case False
  let ?n = "take 50 (collapse_ws (filter ig_keep (map js_lower p)))"
  have "set ?n \<subseteq> set (collapse_ws (filter ig_keep (map js_lower p)))" by (rule set_take_subset)
  also have "\<dots> \<subseteq> {c. ig_keep c \<and> \<not> js_ws c}"
    using collapse_ws_set [of "filter ig_keep (map js_lower p)"] by (auto simp: ig_keep_def js_ws_def)
  finally have "set ?n \<subseteq> {c. ig_keep c \<and> \<not> js_ws c}" .
  with False show ?thesis by (auto simp: ig_download_name_def)
qed

text \<open>
  A prompt with no letter, digit, space or hyphen (for example only punctuation, or
  only accented letters) gives the download name \<open>.png\<close>: a name with an empty stem.
\<close>

theorem ig_download_name_hidden:
  "p \<noteq> [] \<Longrightarrow> (\<forall>c \<in> set p. \<not> ig_keep (js_lower c)) \<Longrightarrow> ig_download_name p = ''.png''"
  by (simp add: ig_download_name_def filter_empty_conv)

theorem ig_download_name_hidden_witness: "ig_download_name ''?!'' = ''.png''"
proof -
  have h: "''?!'' \<noteq> []" "\<forall>c \<in> set ''?!''. \<not> ig_keep (js_lower c)" by code_simp+
  show ?thesis by (rule ig_download_name_hidden [OF h])
qed

text \<open>
  C14. The image the form holds is always a PNG \<open>data:\<close> URL: in every reachable state,
  mounted or not, \<open>generatedImage\<close> is \<open>null\<close> or the string
  \<open>data:image/png;base64,\<close> followed by the answer's base64 text, never an error
  text or another scheme.
\<close>

theorem ig_image_is_data_url:
  "ig_reach s \<Longrightarrow> ig_image s = Some u \<Longrightarrow> \<exists>b. u = ''data:image/png;base64,'' @ b"
proof (induction arbitrary: u rule: ig_reach.induct)
  case init
  then show ?case by (simp add: ig_init_def)
next
  case (step s e)
  then show ?case using ig_step_data_url [of s e] by blast
qed

theorem ig_image_is_data_url_witness:
  "ig_image (ig_step (IgSettle 0 (GenAnswer True (Inr (JObj [(''predictions'',
      JArr [JObj [(''bytesBase64Encoded'', JStr ''QUJD'')]])])))) ig_demo_done) =
     Some ''data:image/png;base64,QUJD'' \<and>
   (\<exists>b. ''data:image/png;base64,QUJD'' = ''data:image/png;base64,'' @ b)"
proof -
  let ?e = "IgSettle 0 (GenAnswer True (Inr (JObj [(''predictions'',
      JArr [JObj [(''bytesBase64Encoded'', JStr ''QUJD'')]])])))"
  have en: "ig_enabled ?e ig_demo_done" by (simp add: ig_eval)
  have r: "ig_reach (ig_step ?e ig_demo_done)" by (rule ig_reach.step [OF ig_demo_reach en])
  have g: "gen_result (GenAnswer True (Inr (JObj [(''predictions'',
      JArr [JObj [(''bytesBase64Encoded'', JStr ''QUJD'')]])]))) = Inr ''data:image/png;base64,QUJD''"
    by code_simp
  have i: "ig_image (ig_step ?e ig_demo_done) = Some ''data:image/png;base64,QUJD''"
    using g by (simp add: ig_eval)
  show ?thesis using ig_image_is_data_url [OF r i] i by simp
qed

text \<open>
  C6. The generator is immune to stale answers, as the spec's stale-response rule asks:
  while a request is in flight the prompt cannot be edited (the textarea is disabled), so
  the request in flight is always for the current prompt and its answer is shown with the
  prompt it was generated from.
\<close>

theorem ig_answer_matches_prompt:
  assumes "ig_reach s" "ig_mounted s" "i < length (ig_inflight s)"
  shows "ig_inflight s ! i = ig_prompt s \<and> ig_prompt (ig_step (IgSettle i rep) s) = ig_inflight s ! i \<and>
         \<not> ig_enabled (IgPrompt v) s"
proof -
  from assms have "ig_inflight s ! i = ig_prompt s" using ig_reach_inflight_prompt [OF assms(1)] by auto
  moreover from assms have "ig_loading s" using ig_reach_inv [OF assms(1)] by (auto simp: ig_inv_def)
  ultimately show ?thesis using assms by (simp add: ig_settle_def ig_set_def Let_def split: sum.split)
qed

theorem ig_answer_matches_prompt_witness:
  "ig_inflight ig_demo_done ! 0 = ''A red fox'' \<and> ig_prompt ig_demo_done = ''A red fox'' \<and>
   ig_prompt (ig_step (IgSettle 0 (GenNetworkError ''offline'')) ig_demo_done) = ''A red fox'' \<and>
   \<not> ig_enabled (IgPrompt ''A blue fox'') ig_demo_done"
proof -
  have h: "ig_mounted ig_demo_done" "0 < length (ig_inflight ig_demo_done)" by (simp_all add: ig_eval)
  have p: "ig_prompt ig_demo_done = ''A red fox''" by (simp add: ig_eval)
  show ?thesis using ig_answer_matches_prompt [OF ig_demo_reach h, of "GenNetworkError ''offline''" "''A blue fox''"] p
    by simp
qed

end
