(* ===== verification/App_Shell.thy ===== *)
theory App_Shell
  imports Image_To_Pdf Pdf_To_Image Image_Generator
begin

text \<open>
  The application shell, \<open>src/my-tools-io/src/App.jsx\<close>: a navigation bar
  (\<open>components/Navigation.jsx\<close>), the route table that picks the page, and a footer
  (\<open>components/Footer.jsx\<close>). The navigation bar's only state is the mobile menu's
  open flag, \<open>nav_state\<close>; its links are plain \<open><a href>\<close> elements, not router
  links, so following one loads a new document: the old page, its React tree and its
  object-URL store are discarded with it, and the new document starts from the initial
  state of the page its path selects (\<open>app_load\<close>).

  Route matching is react-router's \<open>matchPath\<close> for a static pattern with
  \<open>end: true\<close> and \<open>caseSensitive: false\<close> (the defaults of a \<open><Route path>\<close>): the
  pattern compiles to \<open>^pattern\/*$\<close> with the \<open>i\<close> flag, so a path matches when it
  is the pattern up to ASCII case followed by any number of slashes (\<open>route_matches\<close>).
  The library is not code of the repository; it is modelled from its documented behaviour.

  The composed application \<open>app_state\<close> holds the menu flag and the mounted page with
  its form's configuration; \<open>app_step\<close> dispatches an event to the menu, to the mounted
  form (whose own guard applies), or loads a new document. A form never unmounts inside a
  document, because no route change happens without a document load.
\<close>

section \<open>Navigation bar\<close>

record nav_state =
  nav_menu_open :: bool

text \<open>Line 6: \<open>useState(false)\<close>.\<close>

definition nav_init :: nav_state where
  "nav_init = \<lparr>nav_menu_open = False\<rparr>"

text \<open>Lines 8 to 12: the links as \<open>(href, text)\<close>.\<close>

definition nav_links :: "(string \<times> string) list" where
  "nav_links =
     [(''/image-to-pdf'', ''Image to PDF''), (''/pdf-to-image'', ''PDF to Image''),
      (''/image-generator'', ''AI Image Generation'')]"

text \<open>Line 42: \<open>onClick={() => setIsMenuOpen(!isMenuOpen)}\<close>.\<close>

definition nav_toggle :: "nav_state \<Rightarrow> nav_state" where
  "nav_toggle s = s\<lparr>nav_menu_open := \<not> nav_menu_open s\<rparr>"

text \<open>
  Lines 15 to 72: the title link, the desktop links, and the mobile menu, rendered only
  while open. Each rendered list is keyed by \<open>link.text\<close>.
\<close>

record nav_screen =
  nv_title :: "string \<times> string"
  nv_desktop :: "(string \<times> string) list"
  nv_mobile :: "(string \<times> string) list option"

definition nav_view :: "nav_state \<Rightarrow> nav_screen" where
  "nav_view s =
     \<lparr>nv_title = (''/'', ''PixelShift''), nv_desktop = nav_links,
      nv_mobile = (if nav_menu_open s then Some nav_links else None)\<rparr>"

section \<open>Routes\<close>

datatype page = PageHome | PageImageToPdf | PagePdfToImage | PageImageGenerator

text \<open>\<open>App.jsx\<close> lines 13 to 18, in the order of the \<open><Route>\<close> elements.\<close>

definition app_routes :: "(string \<times> page) list" where
  "app_routes =
     [(''/'', PageHome), (''/image-to-pdf'', PageImageToPdf), (''/pdf-to-image'', PagePdfToImage),
      (''/image-generator'', PageImageGenerator)]"

text \<open>
  One character of the \<open>i\<close>-flagged pattern: a pattern character matches itself and, for
  a lower-case ASCII letter, its upper case.
\<close>

definition char_ci :: "char \<Rightarrow> char \<Rightarrow> bool" where
  "char_ci p c \<longleftrightarrow> c = p \<or> c = ascii_upper p"

definition route_matches :: "string \<Rightarrow> string \<Rightarrow> bool" where
  "route_matches pat path \<longleftrightarrow>
     length pat \<le> length path \<and> list_all2 char_ci pat (take (length pat) path) \<and>
     list_all (\<lambda>c. c = CHR ''/'') (drop (length pat) path)"

definition app_match :: "string \<Rightarrow> page list" where
  "app_match path = map snd (filter (\<lambda>(pat, pg). route_matches pat path) app_routes)"

text \<open>\<open><Routes>\<close> renders the matching route's element, or nothing when none matches.\<close>

definition app_route :: "string \<Rightarrow> page option" where
  "app_route path = (case app_match path of [] \<Rightarrow> None | pg # _ \<Rightarrow> Some pg)"

text \<open>A path with its trailing slashes removed, and the characters route patterns use.\<close>

definition strip_slashes :: "string \<Rightarrow> string" where
  "strip_slashes s = rev (dropWhile (\<lambda>c. c = CHR ''/'') (rev s))"

definition pat_char :: "char \<Rightarrow> bool" where
  "pat_char p \<longleftrightarrow> (97 \<le> (of_char p :: nat) \<and> (of_char p :: nat) \<le> 122) \<or> p = CHR ''/'' \<or> p = CHR ''-''"

section \<open>Footer\<close>

record footer_screen =
  ft_copyright :: string
  ft_links :: "(string \<times> string) list"

text \<open>Lines 4 to 32, for the year \<open>new Date().getFullYear()\<close>; \<open>&copy;\<close> is the Latin-1 sign 0xA9.\<close>

definition footer_view :: "int \<Rightarrow> footer_screen" where
  "footer_view y =
     \<lparr>ft_copyright = CHR 0xA9 # CHR '' '' # int_dec y @ '' PixelShift. All Rights Reserved.'',
      ft_links = [(''Privacy Policy'', ''#''), (''Terms of Service'', ''#''), (''Contact'', ''#'')]\<rparr>"

section \<open>The composed application\<close>

datatype app_page =
    AHome
  | AImageToPdf ip_conf
  | APdfToImage pi_conf
  | AGenerator ig_state
  | ANoRoute

record app_state =
  app_nav :: nav_state
  app_page :: app_page

definition app_mount :: "page option \<Rightarrow> app_page" where
  "app_mount pg =
     (case pg of
        None \<Rightarrow> ANoRoute
      | Some PageHome \<Rightarrow> AHome
      | Some PageImageToPdf \<Rightarrow> AImageToPdf ip_init
      | Some PagePdfToImage \<Rightarrow> APdfToImage pi_init
      | Some PageImageGenerator \<Rightarrow> AGenerator ig_init)"

text \<open>A document load for \<open>path\<close>: \<open>App\<close> renders \<open>Navbar\<close>, the routed page and \<open>Footer\<close>.\<close>

definition app_load :: "string \<Rightarrow> app_state" where
  "app_load path = \<lparr>app_nav = nav_init, app_page = app_mount (app_route path)\<rparr>"

datatype app_event =
    AppLoad string
  | AppToggle
  | AppIp ip_event
  | AppPi pi_event
  | AppIg ig_event

text \<open>
  Which events can happen: any load, the menu toggle, and the mounted form's enabled
  events other than its unmount; \<open>env\<close> restricts the PDF form's answers as in
  \<open>pi_reach\<close>.
\<close>

fun app_enabled :: "(pi_event \<Rightarrow> bool) \<Rightarrow> app_event \<Rightarrow> app_page \<Rightarrow> bool" where
  "app_enabled env (AppIp e) (AImageToPdf c) = (ip_enabled e (fst c) \<and> e \<noteq> IpUnmount)"
| "app_enabled env (AppPi e) (APdfToImage c) = (pi_enabled e (fst c) \<and> e \<noteq> PiUnmount \<and> env e)"
| "app_enabled env (AppIg e) (AGenerator s) = (ig_enabled e s \<and> e \<noteq> IgUnmount)"
| "app_enabled env (AppLoad path) pg = True"
| "app_enabled env AppToggle pg = True"
| "app_enabled env e pg = False"

fun app_page_step :: "app_event \<Rightarrow> app_page \<Rightarrow> app_page" where
  "app_page_step (AppIp e) (AImageToPdf c) = AImageToPdf (ip_step e c)"
| "app_page_step (AppPi e) (APdfToImage c) = APdfToImage (pi_step e c)"
| "app_page_step (AppIg e) (AGenerator s) = AGenerator (ig_step e s)"
| "app_page_step e pg = pg"

fun app_step :: "app_event \<Rightarrow> app_state \<Rightarrow> app_state" where
  "app_step (AppLoad path) a = app_load path"
| "app_step AppToggle a = a\<lparr>app_nav := nav_toggle (app_nav a)\<rparr>"
| "app_step e a = a\<lparr>app_page := app_page_step e (app_page a)\<rparr>"

inductive app_reach :: "(pi_event \<Rightarrow> bool) \<Rightarrow> app_state \<Rightarrow> bool" for env where
  load: "app_reach env (app_load path)"
| step: "app_reach env a \<Longrightarrow> app_enabled env e (app_page a) \<Longrightarrow> app_reach env (app_step e a)"

text \<open>The forms a page holds are reachable configurations of that form.\<close>

fun app_forms_ok :: "(pi_event \<Rightarrow> bool) \<Rightarrow> app_page \<Rightarrow> bool" where
  "app_forms_ok env (AImageToPdf c) = ip_reach c"
| "app_forms_ok env (APdfToImage c) = pi_reach env c"
| "app_forms_ok env (AGenerator s) = ig_reach s"
| "app_forms_ok env pg = True"

section \<open>Route matching\<close>

lemma char_eq_of_char: "c = d \<longleftrightarrow> (of_char c :: nat) = of_char d"
  by (metis char_of_char)

lemma char_ci_js_lower: "pat_char p \<Longrightarrow> char_ci p c \<longleftrightarrow> js_lower c = p"
  unfolding char_ci_def js_lower_def ascii_upper_def pat_char_def Let_def
  by (simp only: char_eq_of_char) (auto simp: of_char_of)

lemma list_all2_char_ci:
  "list_all pat_char ps \<Longrightarrow> list_all2 char_ci ps cs \<longleftrightarrow> map js_lower cs = ps"
proof (induction ps arbitrary: cs)
  case Nil
  then show ?case by auto
next
  case (Cons p ps)
  then show ?case by (cases cs) (auto simp: char_ci_js_lower)
qed

lemma js_lower_slash: "js_lower c = CHR ''/'' \<longleftrightarrow> c = CHR ''/''"
  using char_ci_js_lower [of "CHR ''/''" c] by (simp add: pat_char_def char_ci_def ascii_upper_def)

lemma map_js_lower_slashes:
  "list_all (\<lambda>c. c = CHR ''/'') cs \<longleftrightarrow> map js_lower cs = replicate (length cs) (CHR ''/'')"
  by (induction cs) (auto simp: js_lower_slash)

lemma route_matches_lower:
  assumes "list_all pat_char pat"
  shows "route_matches pat path \<longleftrightarrow> (\<exists>k. map js_lower path = pat @ replicate k (CHR ''/''))"
proof
  assume m: "route_matches pat path"
  let ?n = "length pat"
  from m assms have a: "map js_lower (take ?n path) = pat"
    by (simp add: route_matches_def list_all2_char_ci)
  from m have b: "map js_lower (drop ?n path) = replicate (length (drop ?n path)) (CHR ''/'')"
    by (simp add: route_matches_def map_js_lower_slashes)
  have "map js_lower path = map js_lower (take ?n path) @ map js_lower (drop ?n path)"
    by (simp flip: map_append)
  with a b show "\<exists>k. map js_lower path = pat @ replicate k (CHR ''/'')" by auto
next
  assume "\<exists>k. map js_lower path = pat @ replicate k (CHR ''/'')"
  then obtain k where k: "map js_lower path = pat @ replicate k (CHR ''/'')" by blast
  let ?n = "length pat"
  from k have len: "?n \<le> length path" by (metis le_add1 length_append length_map)
  from k have "take ?n (map js_lower path) = pat" and "drop ?n (map js_lower path) = replicate k (CHR ''/'')"
    by simp_all
  then have "map js_lower (take ?n path) = pat" "map js_lower (drop ?n path) = replicate k (CHR ''/'')"
    by (simp_all add: take_map drop_map)
  moreover from this(2) have "length (drop ?n path) = k" by (metis length_map length_replicate)
  ultimately show "route_matches pat path" using len assms
    by (simp add: route_matches_def list_all2_char_ci map_js_lower_slashes)
qed

lemma strip_slashes_append:
  "strip_slashes s = p \<longleftrightarrow> (\<exists>k. s = p @ replicate k (CHR ''/''))"
  if "p \<noteq> []" "last p \<noteq> CHR ''/''"
proof
  let ?P = "\<lambda>c. c = CHR ''/''"
  assume e: "strip_slashes s = p"
  let ?t = "takeWhile ?P (rev s)"
  have t: "?t = replicate (length ?t) (CHR ''/'')"
    by (rule replicate_length_same [symmetric]) (auto dest: set_takeWhileD)
  have "s = rev (?t @ dropWhile ?P (rev s))" by (simp only: takeWhile_dropWhile_id rev_rev_ident)
  also have "\<dots> = strip_slashes s @ rev ?t" by (simp only: rev_append strip_slashes_def)
  also have "\<dots> = strip_slashes s @ replicate (length ?t) (CHR ''/'')" by (subst t) simp
  finally have "s = strip_slashes s @ replicate (length ?t) (CHR ''/'')" .
  with e show "\<exists>k. s = p @ replicate k (CHR ''/'')" by blast
next
  assume "\<exists>k. s = p @ replicate k (CHR ''/'')"
  then obtain k where "s = p @ replicate k (CHR ''/'')" by blast
  moreover have "dropWhile (\<lambda>c. c = CHR ''/'') (rev p) = rev p"
    using that by (cases "rev p") (auto simp: last_rev [symmetric])
  ultimately show "strip_slashes s = p" by (simp add: strip_slashes_def dropWhile_append)
qed

lemma strip_slashes_root:
  "(\<exists>k. s = ''/'' @ replicate k (CHR ''/'')) \<longleftrightarrow> s \<noteq> [] \<and> strip_slashes s = []"
proof -
  have "strip_slashes s = [] \<longleftrightarrow> (\<forall>c\<in>set s. c = CHR ''/'')"
    by (simp add: strip_slashes_def)
  also have "\<dots> \<longleftrightarrow> s = replicate (length s) (CHR ''/'')"
    by (metis in_set_replicate replicate_length_same)
  finally show ?thesis
    by (cases s) (auto simp: replicate_app_Cons_same [symmetric] simp del: replicate_app_Cons_same intro: exI [of _ "length s - 1"])
qed


lemma app_route_patterns: "list_all (\<lambda>(pat, pg). list_all pat_char pat) app_routes"
  by (simp add: app_routes_def pat_char_def)

lemma route_matches_root:
  "route_matches ''/'' path \<longleftrightarrow> path \<noteq> [] \<and> strip_slashes (map js_lower path) = []"
proof -
  have "route_matches ''/'' path \<longleftrightarrow> (\<exists>k. map js_lower path = ''/'' @ replicate k (CHR ''/''))"
    by (rule route_matches_lower) (simp add: pat_char_def)
  also have "\<dots> \<longleftrightarrow> map js_lower path \<noteq> [] \<and> strip_slashes (map js_lower path) = []"
    by (rule strip_slashes_root)
  finally show ?thesis by simp
qed

lemma route_matches_segment:
  assumes "pat \<in> {''/image-to-pdf'', ''/pdf-to-image'', ''/image-generator''}"
  shows "route_matches pat path \<longleftrightarrow> strip_slashes (map js_lower path) = pat"
proof -
  from assms have "list_all pat_char pat" "pat \<noteq> []" "last pat \<noteq> CHR ''/''"
    by (auto simp: pat_char_def)
  then show ?thesis by (simp add: route_matches_lower strip_slashes_append)
qed

lemmas app_match_simps = app_match_def app_routes_def route_matches_root route_matches_segment

section \<open>Composition\<close>

lemma app_mount_ok: "app_forms_ok env (app_mount pg)"
  by (auto simp: app_mount_def ip_reach.init pi_reach.init ig_reach.init split: option.split page.split)

lemma app_step_ok:
  assumes "app_forms_ok env (app_page a)" "app_enabled env e (app_page a)"
  shows "app_forms_ok env (app_page (app_step e a))"
proof (cases e)
  case (AppLoad path)
  then show ?thesis by (simp add: app_load_def app_mount_ok)
next
  case (AppIp x)
  with assms show ?thesis by (cases "app_page a") (auto intro: ip_reach.step)
next
  case (AppPi x)
  with assms show ?thesis by (cases "app_page a") (auto intro: pi_reach.step)
next
  case (AppIg x)
  with assms show ?thesis by (cases "app_page a") (auto intro: ig_reach.step)
qed (use assms in simp)

lemma app_reach_forms: "app_reach env a \<Longrightarrow> app_forms_ok env (app_page a)"
proof (induction rule: app_reach.induct)
  case (load path)
  then show ?case by (simp add: app_load_def app_mount_ok)
next
  case (step a e)
  from step.IH step.hyps(2) show ?case by (rule app_step_ok)
qed

lemma app_route_demo: "app_route ''/image-to-pdf'' = Some PageImageToPdf"
  by (simp add: app_route_def app_match_simps strip_slashes_def js_lower_def)

section \<open>Properties of the shell\<close>

text \<open>
  C26. The navigation bar and the route table agree: each of the three links routes to its
  page, the title links to the home route, the link texts used as React keys are distinct,
  and no path matches two routes, so the order of the \<open><Route>\<close> elements never
  matters.
\<close>

theorem nav_links_routed:
  "map (\<lambda>(h, t). app_route h) nav_links = [Some PageImageToPdf, Some PagePdfToImage, Some PageImageGenerator] \<and>
   app_route (fst (nv_title (nav_view s))) = Some PageHome \<and> distinct (map snd nav_links) \<and>
   length (app_match path) \<le> 1"
proof -
  have "map (\<lambda>(h, t). app_route h) nav_links = [Some PageImageToPdf, Some PagePdfToImage, Some PageImageGenerator]"
    "app_route (fst (nv_title (nav_view s))) = Some PageHome" "distinct (map snd nav_links)"
    by (simp_all add: nav_links_def nav_view_def app_route_def app_match_simps strip_slashes_def js_lower_def)
  moreover have "length (app_match path) \<le> 1" by (simp add: app_match_simps)
  ultimately show ?thesis by blast
qed

end
