(* ===== verification/Spec2Isabelle.thy ===== *)
theory Spec2Isabelle
  imports Refinement Refinement_Pdf App_Shell
begin

text \<open>
  \<^bold>\<open>A verification library for the toolsIO conversion forms.\<close>

  \<^bold>\<open>The program.\<close> \<open>src/my-tools-io/src\<close> is a React application of four forms behind
  a router (\<open>App.jsx\<close>) and a navigation bar (\<open>components/Navigation.jsx\<close>). Three
  forms upload files to a conversion server and show the answer; one sends a text prompt to
  an image-generation service:
  \<^item> \<open>components/ImageConverter.jsx\<close>: one image in, one converted image out;
  \<^item> \<open>components/ImageToPdfConverter.jsx\<close>: many images in, one PDF out;
  \<^item> \<open>components/PdfToImageConverter.jsx\<close>: one PDF in, a ZIP archive out, unpacked with
    JSZip into one preview per page;
  \<^item> \<open>components/ImageGenerator.jsx\<close>: a prompt in, a base64 image out.
  Every conversion form follows one workflow: the user picks input, the form mints object
  URLs (\<open>URL.createObjectURL\<close>) to preview it, a submit posts the input with \<open>fetch\<close>,
  the answer is classified as an error message or a result blob, the result gets its own
  object URL, and a \<open>useEffect\<close> cleanup revokes URLs when the state holding them changes
  or the form unmounts. The browser's object-URL store is the resource ledger they share.

  \<^bold>\<open>How the library models it.\<close> Each theory opens with what it holds.
  \<^item> \<open>Prelude\<close>: object URLs (\<open>url\<close>, numbered in minting order), files as a record
    \<open>js_file\<close>, and the JavaScript primitives the forms call: \<open>||\<close> on strings
    (\<open>js_or\<close>), \<open>split\<close>, \<open>join\<close>, \<open>slice(0, -1)\<close>, \<open>replace\<close> with a string
    pattern (\<open>replace_first\<close>), \<open>toUpperCase\<close> on ASCII (\<open>ascii_upper\<close>); the round
    trip \<open>join_split_on\<close>, the first-occurrence lemmas of \<open>replace_first\<close> (stated with
    \<open>sublist\<close>) and the list lemmas the components share, in \<open>js_simps\<close>.
  \<^item> \<open>Object_URL\<close>: the ledger, \<open>url_registry\<close>: live URLs to blobs, an allocation
    counter and the log of revocations; \<open>create_object_url\<close>, \<open>revoke_object_url\<close>,
    \<open>revoke_if_set\<close> (\<open>if (u) URL.revokeObjectURL(u)\<close>), \<open>revoke_each\<close>
    (\<open>forEach\<close>). Its invariant \<open>registry_wf\<close> (minted URLs only, no revoked URL live)
    is kept by every operation; \<open>ledger_safety\<close>: after any sequence of operations no
    revoked URL resolves. These model the browser API, not code of the repository.
  \<^item> \<open>Effect_Hook\<close>: React's dependency-checked effect, \<open>effect_commit\<close>, parametric in
    the cleanup body; the interface lemma \<open>effect_commit_live\<close> is what each form's
    leak-freedom proof discharges.
  \<^item> \<open>Remote_Client\<close>: the classification every form applies to the \<open>fetch\<close> answer,
    \<open>fetch_result\<close>, over the \<open>reply\<close> datatype (network failure, non-2xx with a text
    body, unreadable body, success with a blob).
  \<^item> \<open>Image_Converter\<close>: \<open>ImageConverter.jsx\<close> in full. State \<open>ic_state\<close> (lines 6
    to 13, plus the installed effect's captured values and the in-flight submissions);
    handlers \<open>ic_handle_file_change\<close> (lines 23 to 33), \<open>ic_handle_format_change\<close>
    (35 to 37), \<open>ic_handle_submit\<close> (39 to 53) and its continuation \<open>ic_settle\<close>
    (55 to 76), \<open>ic_unmount\<close>; the cleanup \<open>ic_cleanup\<close> (16 to 21) run by
    \<open>ic_commit\<close> after each handler; the UI guard \<open>ic_enabled\<close> (line 132, and the
    format \<open><select>\<close>, whose options are \<open>ic_formats\<close>, lines 115 to 125);
    \<open>ic_step\<close>, \<open>ic_run\<close> and the reachable configurations \<open>ic_reach\<close>;
    \<open>ic_download_name\<close> (79 to 84); and the render \<open>ic_view\<close> (86 to 186) as a
    \<open>ic_screen\<close> record of what is shown.
  \<^item> \<open>Pdf_To_Image\<close>: \<open>PdfToImageConverter.jsx\<close> in full. State \<open>pi_state\<close> (lines 6
    to 11; the array \<open>convertedImages\<close> carries the identity \<open>useEffect\<close> compares, so
    every array literal the code stores is a fresh one, \<open>pi_new_array\<close>); handlers
    \<open>pi_handle_file_change\<close> (21 to 33), \<open>pi_handle_format_change\<close> (103),
    \<open>pi_handle_submit\<close> (35 to 50); the continuation after \<open>fetch\<close>,
    \<open>pi_fetch_settle\<close> (51 to 64), and after \<open>JSZip.loadAsync\<close> and
    \<open>Promise.all\<close>, \<open>pi_unzip_settle\<close> (65 to 86), with the archive walk
    \<open>pi_mint_entries\<close> and the rejection \<open>pi_entry_failure\<close>; the cleanup
    \<open>pi_cleanup\<close> (14 to 19); the render \<open>pi_view\<close> (89 to 130), which is
    \<open>None\<close> when it throws on \<open>selectedFile.name\<close> (line 123), and \<open>pi_commit\<close>,
    which then unmounts the tree; \<open>pi_step\<close>, \<open>pi_run\<close> and \<open>pi_reach\<close>,
    parametric in the environment \<open>env\<close> that says which answers the server and the
    archive may give. The decoder's contract of the spec (section 4.2) is \<open>pi_decoded\<close>.
  \<^item> \<open>Image_To_Pdf\<close>: \<open>ImageToPdfConverter.jsx\<close> in full. State \<open>ip_state\<close> (lines 5
    to 10, the previews' array with its identity); \<open>ip_handle_file_change\<close> (20 to 36)
    with \<open>ip_mint_previews\<close>, the \<open>files.map\<close> that mints one URL per file (26 to 29);
    \<open>ip_handle_submit\<close> (38 to 55) and its continuation \<open>ip_settle\<close> (56 to 76); the
    cleanup \<open>ip_cleanup\<close> (13 to 18) run by \<open>ip_commit\<close>; the guard \<open>ip_enabled\<close>
    (line 102); \<open>ip_step\<close>, \<open>ip_run\<close>, \<open>ip_reach\<close>; the render \<open>ip_view\<close>.
  \<^item> \<open>Js_Json\<close>: the JavaScript semantics the generator's answer handling uses: JSON
    values (\<open>json\<close>), property reads with V8's \<open>TypeError\<close> messages (\<open>js_prop\<close>),
    optional chaining, truthiness, \<open>x > 0\<close>, \<open>String(x)\<close> and \<open>trim\<close>.
  \<^item> \<open>Image_Generator\<close>: \<open>ImageGenerator.jsx\<close>. State \<open>ig_state\<close> (lines 19 to 22);
    \<open>ig_set_prompt\<close> (line 89); \<open>handleGenerateImage\<close> as \<open>ig_generate\<close> (24 to
    33) and \<open>ig_settle\<close> (34 to 67) over the classification \<open>gen_result\<close> (44 to 63)
    of the service's answer \<open>gen_reply\<close>; the guards \<open>ig_enabled\<close> (lines 92, 97);
    \<open>getDownloadFileName\<close> as \<open>ig_download_name\<close> (71 to 75) with \<open>js_lower\<close>,
    \<open>ig_keep\<close> and \<open>collapse_ws\<close> for the two regular-expression replacements; the
    render \<open>ig_view\<close>. The form holds no object URL, so there is no cleanup effect.
  \<^item> \<open>Session\<close>: the conversion session of the spec (section 4.3) as an abstract
    machine, \<open>sess_step\<close> over the states Idle, Staged, Submitting, Decoding, Ready,
    Failed, with its paths \<open>sess_path\<close>, and the generic lifting \<open>guarded_run_sim\<close> of
    a one-step simulation to runs (\<open>guarded_labels\<close>, \<open>guarded_ok\<close>).
  \<^item> \<open>Refinement\<close>: the abstractions \<open>ic_abs\<close> and \<open>ip_abs\<close> of the single-image and
    images-to-PDF forms' state, the labels \<open>ic_labels\<close>, \<open>ip_labels\<close> of their events,
    and the events the simulation covers, \<open>ic_session_ok\<close>, \<open>ip_session_ok\<close>.
  \<^item> \<open>Refinement_Pdf\<close>: the same for the PDF-to-images form, \<open>pi_abs\<close>,
    \<open>pi_labels\<close>, \<open>pi_session_ok\<close>, with the invariant \<open>pi_sess_inv\<close> the simulation
    needs (no archive and no loading without a selected file; while loading, no error and
    the job in flight agrees with the archive URL).
  \<^item> \<open>App_Shell\<close>: \<open>App.jsx\<close>, \<open>Navigation.jsx\<close> and \<open>Footer.jsx\<close>. The menu
    flag \<open>nav_state\<close> with \<open>nav_toggle\<close> (line 42) and the render \<open>nav_view\<close>; the
    route table \<open>app_routes\<close> (\<open>App.jsx\<close> lines 13 to 18) and react-router's matching
    (\<open>route_matches\<close>, \<open>app_route\<close>: case-insensitive, trailing slashes allowed,
    modelled from the library's behaviour); \<open>footer_view\<close> for a given year; and the
    composed application \<open>app_state\<close>: a document load \<open>app_load\<close> (the links are
    plain anchors, so following one loads a new document), the menu toggle, and the mounted
    form's events dispatched to that form's \<open>*_step\<close> under its own guard
    (\<open>app_step\<close>, \<open>app_reach\<close>).

  \<^bold>\<open>Static content.\<close> The "How to" and "Key Features" sections of the three
  conversion pages are data, \<open>ic_guide\<close>, \<open>ip_guide\<close> and \<open>pi_guide\<close> (a record
  \<open>guide\<close> of the section title, the steps and the features, transcribed from the
  markup). They hold no behaviour and no property is stated of them; two of their promises
  are contradicted by the code: the side-by-side preview the image converter promises is
  revoked when the result arrives (C3) and the ZIP the PDF converter promises is revoked
  after the decode (C20).

  \<^bold>\<open>Modelling choices.\<close> React 18 batches the state updates of one synchronous stretch
  of a handler into one render, so a handler's updates are applied together and followed by
  one commit of the effect. An \<open>async\<close> handler is split at the \<open>await\<close> that lets
  other events in: the continuation after \<open>fetch\<close> reads no component state, so it is one
  event, \<open>IcSettle\<close>, whose argument is the server's answer; any number of user events may
  come between a submit and its settle, which is how interleavings are explored. After
  unmount React drops state updates, but the continuation's calls to the browser still run.
  The reachable configurations are an inductive predicate over enabled events, so every
  safety property is proved by rule induction over \<open>ic_reach\<close> from the invariant
  \<open>ic_inv\<close> (and likewise \<open>pi_inv\<close>, \<open>ip_inv\<close>, \<open>ig_inv\<close>). Every function is
  total: the recursions are structural except \<open>collapse_ws\<close>, whose termination is proved
  with the measure \<open>length\<close>, so no fuel is needed. Strings are Latin-1 (a \<open>char\<close> is
  a byte) and JSON numbers are integers; the generator's lower-casing, whitespace classes
  and property reads are exact on that domain.

  \<^bold>\<open>What is proved, ImageConverter.\<close> While mounted no URL leaks (C1); unmounting
  releases every URL (C2); at most one request is in flight and loading means exactly
  that (C5); no result is shown while loading
  (\<open>ic_loading_hides_result\<close>); each handler's effect on every branch,
  the validation error included (C9, C11, C15, C16, C18); only the formats the \<open><select>\<close> offers are ever sent
  or used in a download name (C12; likewise \<open>pi_reach_formats\<close> for the PDF form); no revoked URL resolves
  (\<open>ic_revoked_never_resolves\<close>). The same model proves five defects:
  the cleanup revokes both URLs whenever either changes, so a successful conversion revokes
  the preview still on screen (C3) and the next selection revokes it again (C7); a format
  change after a conversion renames the download to the new extension and relabels the panel
  while the bytes are still those converted to the old format (C13); a response
  that settles after the user chose another file is shown for that file (C4), against the
  stale-response rule of the spec (section 4.3); a conversion settling after unmount mints
  a URL that stays live, since the component is then final with no event enabled (C8); and a file name without a dot is dropped from the download
  name (\<open>ic_download_name_no_dot\<close>). The render shows the download link only with a live URL (C17) and the result
  panel shows exactly one of its three states (\<open>ic_view_panel_single\<close>). The download name is, for every file
  name, the text before the last dot (C39, an equivalence with \<open>before_last\<close>), and every
  pending conversion can finish and end the loading state whatever the answer (C40).

  \<^bold>\<open>What is proved, PdfToImageConverter.\<close> The invariant \<open>pi_inv\<close> holds for every
  environment; \<open>pi_tidy\<close> (no leak while mounted, C19) for archives whose entries all
  inflate. At most one conversion is in flight
  (\<open>pi_single_request_in_flight\<close>), and every submission terminates: its two
  continuations, whatever the answers, leave nothing in flight and end loading (C27). A new PDF chosen while the previous one is decoded
  gets the previous file's pages and archive under its own name (C28, the stale-response
  defect again). The page list after a decode is the
  decoder's contract exactly, in directory order, every preview resolving to its bytes (C23,
  a refinement: \<open>pi_mint_entries_decoded\<close>); a malformed archive is an error that
  touches no URL (C25). Four defects: the decode's commit revokes the ZIP URL that the
  download link still shows (C20); an entry that fails to inflate orphans the URLs of the
  pages that did, for every later run (C21, from the stability lemma \<open>pi_run_orphan\<close>:
  an orphaned URL, live and held neither by the state nor by the installed effect, stays
  so under every step); a non-PDF selection or a cancelled dialog while results are shown
  crashes the render (C22); an empty archive ends in a blank screen with no link and no
  message, against section 4.2 of the spec (C24). The ZIP link's name replaces only the first,
  lower-case \<open>.pdf\<close>, so \<open>SCAN.PDF\<close> downloads its archive as \<open>SCAN.PDF\<close> (C38).

  \<^bold>\<open>What is proved, ImageToPdfConverter.\<close> The invariant \<open>ip_inv\<close> holds on every
  reachable configuration, so no URL leaks while mounted (C29). Selecting files replaces the
  previews by exactly the files, in order, each resolving to its bytes through a distinct
  URL, and revokes everything held before (C31, from the closed form
  \<open>ip_mint_previews_closed\<close>); an empty selection changes nothing
  (\<open>ip_empty_selection_noop\<close>). Two defects: a
  successful conversion revokes every preview still on screen (C30), and a PDF converted
  from earlier files is offered under a newer selection (C32).

  \<^bold>\<open>What is proved, ImageGenerator.\<close> A blank prompt is rejected
  (\<open>ig_blank_prompt_rejected\<close>); an answer
  classified as an image is shown and offered for download (C35); every failure is shown
  with its message after the fixed prefix, engine \<open>TypeError\<close>s included (C36); the
  download name is the default or a stem of at most 50 characters from \<open>[a-z0-9-]\<close>
  (C37), and a prompt of punctuation alone downloads as \<open>.png\<close>
  (\<open>ig_download_name_hidden\<close>). In every
  reachable state the image held is a PNG \<open>data:\<close> URL (C14). Unlike the three conversion forms, the
  generator is immune to stale answers: the prompt is locked while a request is in flight,
  so an answer is always shown with the prompt it was generated from (C6).

  \<^bold>\<open>What is proved, the session.\<close> The single-image form (C33), the images-to-PDF
  form (C34) and the PDF-to-images form (C10, through all six states, \<open>Decoding\<close> being
  the archive walk) refine the spec's session machine over whole runs: from a reachable
  configuration of the mounted form, every run moves the abstraction along a path of
  \<open>sess_step\<close> labelled by the labels of the events it performs (a trace inclusion,
  lifted from the one-step simulations \<open>ic_session_step\<close>, \<open>ip_session_step\<close> and
  \<open>pi_session_step\<close> by
  \<open>guarded_run_sim\<close>). Two events are outside the simulation: unmounting (the spec has
  no such event) and a new selection while a conversion is pending, whose stale answer the
  spec discards and the code shows (C4, C32, C28). For the PDF form a third is excluded:
  an invalid or cancelled selection clears the selected file but keeps the pages and the
  archive, which crashes the render (C22); the spec's \<open>Failed{noValidInput}\<close> has no
  counterpart there. The machine adds one rule to the spec's list, \<open>resubmit\<close> from Ready or
  Failed: the spec lists \<open>submit\<close> only from Staged but asks every event to be defined
  in every reachable state, and every form lets the user submit again.

  \<^bold>\<open>What is proved, the application.\<close> The navigation links and the route table
  agree and no path matches two routes (C26). Composing the forms, the form inside a
  reachable application state is a reachable configuration of that form
  (\<open>app_reach_forms\<close>), so every property above holds of the forms inside the
  application. No route renders
  \<open>ImageConverter\<close>, so the single-image form is unreachable in the application.

  \<^bold>\<open>What is not modelled, and why.\<close> Page layout and styling (class names, the
  generator's \<open>Spinner\<close> and \<open>ImageIcon\<close> helpers and its \<open><style>\<close> block): they
  carry no behaviour. The history API: a back or forward navigation is a fresh document
  load here, ignoring the browser's page cache. The home page: \<open>App.jsx\<close> imports
  \<open>components/Home\<close>, which is not in the repository, so the model treats it as a page
  with no state. The conversion server and the image service are external, seen only
  through \<open>reply\<close> and \<open>gen_reply\<close>; the ZIP format is consumed through JSZip's
  outcome, \<open>zip_listing\<close>. JSZip inflates the entries concurrently and
  \<open>Promise.all\<close> rejects with the first failure in time; the model takes the first
  failing entry in directory order, which changes only which message is shown. The
  generator is not related to the session machine: editing the prompt stages a new input
  but keeps the previous image on screen (and renames its download), while the spec's
  \<open>selectInputs\<close> discards the previous outputs, so no abstraction makes its prompt
  edits transitions of the machine; its stale-answer immunity (C6) is proved directly.
\<close>

end
